(* ===== verification/Prelude.thy ===== *)
theory Prelude
  imports Main
    "HOL-Library.AList"
    "HOL-Library.Sublist"
    "HOL-Library.List_Lexorder"
    "HOL-Library.Char_ord"
begin

text \<open>
  Shared base of the development.  It names the types every component uses (bytes strings,
  instants, durations), the error values of the whole program, the theorem collections the
  components fill, and the generic lemmas on association lists, options and filtered lists.

  A Go \<open>string\<close> is a sequence of bytes, and so is a HOL \<open>string\<close> (a \<open>char\<close> is one
  of 256 bytes).  A \<open>time.Time\<close> is the number of nanoseconds since Go's zero time
  (January 1, year 1, UTC), so \<open>IsZero\<close> is equality with 0; a \<open>time.Duration\<close> is a
  number of nanoseconds.  A Go map is an association list with distinct keys: its order is
  one order in which a \<open>range\<close> over the map may visit the keys, so a theorem about every
  list holds for every iteration order.
\<close>

section \<open>Types shared by the components\<close>

type_synonym gtime = int
type_synonym duration = int
type_synonym ('k, 'v) gomap = "('k \<times> 'v) list"

text \<open>A computation that talks to the outside world, whose state has type \<open>'w\<close>.\<close>

type_synonym ('w, 'a) io = "'w \<Rightarrow> 'a \<times> 'w"

abbreviation second :: duration where
  "second \<equiv> 1000000000"

abbreviation time_is_zero :: "gtime \<Rightarrow> bool" where
  "time_is_zero t \<equiv> t = 0"

section \<open>Errors as values\<close>

text \<open>
  The Go code builds an error with \<open>fmt.Errorf\<close> at each failing branch.  Each such branch
  is a constructor here, with the values the message carries; \<open>LibError\<close> is an error
  that a library call returned, with its text.  \<open>Wrapped\<close> is the \<open>%w\<close> verb: the
  wrapped error stays reachable for \<open>errors.Is\<close>.
\<close>

datatype gerror =
    LibError string
  | UnknownIdentity string
  | RateLimited string int duration
  | LoginStatus string int
  | NoSessionMaterial string
  | TokenStatus string int
  | NoAccessToken string
  | NoSteps string
  | StepFailed string nat gerror
  | StepStatus string nat int
  | ExtractEmpty string nat string
  | ExtractBadPattern string gerror
  | ExtractNotJSON string gerror
  | ExtractUnknownSource string string
  | CaptureFailed string gerror
  | ChromeNotFound
  | CsrfBadPattern string gerror
  | CsrfNoToken string
  | BadTarget string
  | Wrapped string gerror

text \<open>\<open>errors.Is(err, store.ErrUnknownIdentity)\<close>: the chain of wrapped errors is searched.\<close>

fun is_unknown_identity :: "gerror \<Rightarrow> bool" where
  "is_unknown_identity (UnknownIdentity _) = True"
| "is_unknown_identity (StepFailed _ _ e) = is_unknown_identity e"
| "is_unknown_identity (ExtractBadPattern _ e) = is_unknown_identity e"
| "is_unknown_identity (ExtractNotJSON _ e) = is_unknown_identity e"
| "is_unknown_identity (CaptureFailed _ e) = is_unknown_identity e"
| "is_unknown_identity (CsrfBadPattern _ e) = is_unknown_identity e"
| "is_unknown_identity (Wrapped _ e) = is_unknown_identity e"
| "is_unknown_identity _ = False"

text \<open>
  A regular expression of Go's package \<open>regexp\<close>: \<open>FindStringSubmatch\<close> of the compiled
  expression, and \<open>regexp.Compile\<close>, which may refuse the pattern.  The engine is a parameter.
\<close>

type_synonym matcher = "string \<Rightarrow> string list option"
type_synonym regexp_compiler = "string \<Rightarrow> gerror + matcher"

text \<open>A sequence of fallible steps: each \<open>if err != nil { return }\<close> ends it.\<close>

definition io_bind :: "('w, 'e + 'a) io \<Rightarrow> ('a \<Rightarrow> ('w, 'e + 'b) io) \<Rightarrow> ('w, 'e + 'b) io" where
  "io_bind c f w = (case c w of (Inl err, w1) \<Rightarrow> (Inl err, w1) | (Inr a, w1) \<Rightarrow> f a w1)"

definition io_check :: "(gerror \<Rightarrow> 'e) \<Rightarrow> ('w, gerror option) io \<Rightarrow> ('w, 'e + unit) io" where
  "io_check f c w = (case c w of (None, w1) \<Rightarrow> (Inr (), w1) | (Some err, w1) \<Rightarrow> (Inl (f err), w1))"

lemma io_bind_some:
  assumes "io_bind c f w = (Inr b, w')"
  obtains a w1 where "c w = (Inr a, w1)" "f a w1 = (Inr b, w')"
  using assms by (auto simp: io_bind_def split: prod.splits sum.splits)

section \<open>Theorem collections\<close>

named_theorems header_simps \<open>reading a header after each operation that writes one\<close>
named_theorems store_simps \<open>what each store operation leaves of an entry\<close>
named_theorems flight_defs \<open>definitions of the concurrent store's invariants\<close>
named_theorems gateway_defs \<open>definitions of the request path of the gateway\<close>

section \<open>Association lists\<close>

declare update_conv' [simp] delete_conv' [simp]

lemma map_of_update_other: "k' \<noteq> k \<Longrightarrow> map_of (AList.update k v m) k' = map_of m k'"
  by simp

lemma keys_update_present:
  "k \<in> fst ` set m \<Longrightarrow> map fst (AList.update k v m) = map fst m"
  by (induction m) auto

lemma map_of_SomeD_key: "map_of m k = Some v \<Longrightarrow> k \<in> fst ` set m"
  by (metis map_of_eq_None_iff option.distinct(1))

lemma set_update_subset: "set (AList.update k v m) \<subseteq> insert (k, v) (set m)"
  by (induction m) auto

section \<open>Filtered lists and counts\<close>

lemma filter_subset_length:
  assumes "\<And>x. x \<in> set xs \<Longrightarrow> P x \<Longrightarrow> Q x"
  shows "length (filter P xs) \<le> length (filter Q xs)"
  using assms by (induction xs) auto

lemma filter_filter_conj: "filter P (filter Q xs) = filter (\<lambda>x. Q x \<and> P x) xs"
  by (simp add: filter_filter conj_commute)

lemma count_list_filter: "count_list xs x = length (filter (\<lambda>y. y = x) xs)"
  by (induction xs) auto

lemma not_isl_Inr: "\<not> isl x \<Longrightarrow> \<exists>y. x = Inr y"
  by (cases x) auto

lemma ran_to:
  assumes "\<not> isl (fst r)" and "snd r = w"
  shows "\<exists>x. r = (Inr x, w)"
  using assms by (cases r) (auto dest: not_isl_Inr)

lemma case_sum_io:
  "(case r of Inl e \<Rightarrow> (Inl e, s) | Inr a \<Rightarrow> (Inr (f a), t a)) = (x, y) \<longleftrightarrow>
   (\<exists>e. r = Inl e \<and> x = Inl e \<and> y = s) \<or> (\<exists>a. r = Inr a \<and> x = Inr (f a) \<and> y = t a)"
  by (cases r) auto

end
