(* ===== verification/Go_Strings.thy ===== *)
theory Go_Strings
  imports Prelude
begin

text \<open>
  The functions of Go's packages \<open>strings\<close> and \<open>strconv\<close> that the program calls, over
  byte strings.  Case mapping is Go's on ASCII bytes; bytes from 128 up are kept, as they are
  for every name the program compares (methods, header names, loopback host spellings, file
  suffixes are ASCII).  White space is \<open>unicode.IsSpace\<close> in full: the multi-byte spaces are
  listed by their UTF-8 encodings.
\<close>

section \<open>Bytes\<close>

definition byte :: "char \<Rightarrow> nat" where
  "byte c = of_char c"

definition is_digit :: "char \<Rightarrow> bool" where
  "is_digit c \<longleftrightarrow> 48 \<le> byte c \<and> byte c \<le> 57"

definition is_lower :: "char \<Rightarrow> bool" where
  "is_lower c \<longleftrightarrow> 97 \<le> byte c \<and> byte c \<le> 122"

definition is_upper :: "char \<Rightarrow> bool" where
  "is_upper c \<longleftrightarrow> 65 \<le> byte c \<and> byte c \<le> 90"

definition is_alnum :: "char \<Rightarrow> bool" where
  "is_alnum c \<longleftrightarrow> is_digit c \<or> is_lower c \<or> is_upper c"

definition upper_char :: "char \<Rightarrow> char" where
  "upper_char c = (if is_lower c then char_of (byte c - 32) else c)"

definition lower_char :: "char \<Rightarrow> char" where
  "lower_char c = (if is_upper c then char_of (byte c + 32) else c)"

definition to_upper :: "string \<Rightarrow> string" where
  "to_upper = map upper_char"

definition to_lower :: "string \<Rightarrow> string" where
  "to_lower = map lower_char"

lemma byte_char_of: "n < 256 \<Longrightarrow> byte (char_of n) = n"
  by (simp add: byte_def)

lemma byte_eq_iff: "byte a = byte b \<longleftrightarrow> a = b"
  by (simp add: byte_def)

lemma upper_char_idem: "upper_char (upper_char c) = upper_char c"
  by (auto simp: upper_char_def is_lower_def byte_char_of)

lemma lower_char_idem: "lower_char (lower_char c) = lower_char c"
  by (auto simp: lower_char_def is_upper_def byte_char_of)

lemma to_upper_idem [simp]: "to_upper (to_upper s) = to_upper s"
  by (simp add: to_upper_def upper_char_idem)

lemma to_lower_idem [simp]: "to_lower (to_lower s) = to_lower s"
  by (simp add: to_lower_def lower_char_idem)

lemma length_to_upper [simp]: "length (to_upper s) = length s"
  by (simp add: to_upper_def)

section \<open>Searching and trimming\<close>

definition contains :: "string \<Rightarrow> string \<Rightarrow> bool" where
  "contains s sub = sublist sub s"

definition has_prefix :: "string \<Rightarrow> string \<Rightarrow> bool" where
  "has_prefix s p = prefix p s"

definition has_suffix :: "string \<Rightarrow> string \<Rightarrow> bool" where
  "has_suffix s p = prefix (rev p) (rev s)"

definition trim_prefix :: "string \<Rightarrow> string \<Rightarrow> string" where
  "trim_prefix s p = (if prefix p s then drop (length p) s else s)"

definition trim_suffix :: "string \<Rightarrow> string \<Rightarrow> string" where
  "trim_suffix s p = (if has_suffix s p then take (length s - length p) s else s)"

definition trim_left :: "string \<Rightarrow> string \<Rightarrow> string" where
  "trim_left s cutset = dropWhile (\<lambda>c. c \<in> set cutset) s"

definition trim_right :: "string \<Rightarrow> string \<Rightarrow> string" where
  "trim_right s cutset = rev (dropWhile (\<lambda>c. c \<in> set cutset) (rev s))"

definition trim :: "string \<Rightarrow> string \<Rightarrow> string" where
  "trim s cutset = trim_right (trim_left s cutset) cutset"

lemma has_suffix_iff: "has_suffix s p \<longleftrightarrow> suffix p s"
  by (simp add: has_suffix_def suffix_to_prefix)

lemma trim_right_prefix: "prefix (trim_right s cs) s"
  by (metis prefixI rev_append rev_rev_ident takeWhile_dropWhile_id trim_right_def)

lemma trim_right_last: "trim_right s cs \<noteq> [] \<Longrightarrow> last (trim_right s cs) \<notin> set cs"
  unfolding trim_right_def by (metis hd_dropWhile last_rev rev_is_Nil_conv)

lemma trim_right_id: "(s = [] \<or> last s \<notin> set cs) \<Longrightarrow> trim_right s cs = s"
  unfolding trim_right_def
  by (metis dropWhile.simps(1) dropWhile_eq_self_iff hd_rev rev_is_Nil_conv rev_rev_ident)

text \<open>\<open>strings.Cut\<close> and \<open>strings.LastIndex\<close> for a one-byte separator.\<close>

fun cut :: "char \<Rightarrow> string \<Rightarrow> string \<times> string option" where
  "cut c [] = ([], None)"
| "cut c (x # xs) =
     (if x = c then ([], Some xs) else (let (a, b) = cut c xs in (x # a, b)))"

definition cut_last :: "char \<Rightarrow> string \<Rightarrow> (string \<times> string) option" where
  "cut_last c s =
     (case cut c (rev s) of (b, Some a) \<Rightarrow> Some (rev a, rev b) | (_, None) \<Rightarrow> None)"

fun split_on :: "char \<Rightarrow> string \<Rightarrow> string list" where
  "split_on c [] = [[]]"
| "split_on c (x # xs) =
     (if x = c then [] # split_on c xs
      else (case split_on c xs of [] \<Rightarrow> [[x]] | w # ws \<Rightarrow> (x # w) # ws))"

lemma cut_None: "snd (cut c s) = None \<longleftrightarrow> c \<notin> set s"
  by (induction c s rule: cut.induct) (auto split: prod.splits)

lemma cut_append: "cut c s = (a, Some b) \<Longrightarrow> s = a @ c # b \<and> c \<notin> set a"
  by (induction c s arbitrary: a rule: cut.induct) (auto split: prod.splits if_splits)

lemma split_on_nonempty [simp]: "split_on c s \<noteq> []"
  by (induction c s rule: split_on.induct) (auto split: list.splits)

section \<open>Replacing\<close>

text \<open>\<open>strings.ReplaceAll\<close> for a non-empty search string: left to right, without overlaps.\<close>

function replace_all :: "string \<Rightarrow> string \<Rightarrow> string \<Rightarrow> string" where
  "replace_all s old new =
     (if old = [] \<or> s = [] then s
      else if prefix old s then new @ replace_all (drop (length old) s) old new
      else hd s # replace_all (tl s) old new)"
  by pat_completeness auto
termination
  by (relation "measure (\<lambda>(s, old, new). length s)") (auto simp: neq_Nil_conv)

declare replace_all.simps [simp del]

lemma replace_all_Nil [simp]: "replace_all [] old new = []"
  by (simp add: replace_all.simps)

lemma sublist_Cons_tl: "\<not> sublist old (x # xs) \<Longrightarrow> \<not> sublist old xs"
  by (auto simp: sublist_Cons_right)

lemma replace_all_absent: "\<not> contains s old \<Longrightarrow> replace_all s old new = s"
proof (induction s)
  case Nil
  then show ?case by simp
next
  case (Cons x xs)
  from Cons.prems have no: "\<not> prefix old (x # xs)" and tl: "\<not> contains xs old"
    by (auto simp: contains_def sublist_Cons_right)
  from no have "replace_all (x # xs) old new = x # replace_all xs old new"
    by (auto simp: replace_all.simps [of "x # xs"])
  with Cons.IH [OF tl] show ?case by simp
qed

section \<open>White space\<close>

text \<open>\<open>unicode.IsSpace\<close>, one UTF-8 encoding per white-space rune.\<close>

definition space_seqs :: "string list" where
  "space_seqs =
     [[CHR 0x09], [CHR 0x0A], [CHR 0x0B], [CHR 0x0C], [CHR 0x0D], [CHR 0x20],
      [CHR 0xC2, CHR 0x85], [CHR 0xC2, CHR 0xA0], [CHR 0xE1, CHR 0x9A, CHR 0x80],
      [CHR 0xE2, CHR 0x80, CHR 0x80], [CHR 0xE2, CHR 0x80, CHR 0x81],
      [CHR 0xE2, CHR 0x80, CHR 0x82], [CHR 0xE2, CHR 0x80, CHR 0x83],
      [CHR 0xE2, CHR 0x80, CHR 0x84], [CHR 0xE2, CHR 0x80, CHR 0x85],
      [CHR 0xE2, CHR 0x80, CHR 0x86], [CHR 0xE2, CHR 0x80, CHR 0x87],
      [CHR 0xE2, CHR 0x80, CHR 0x88], [CHR 0xE2, CHR 0x80, CHR 0x89],
      [CHR 0xE2, CHR 0x80, CHR 0x8A], [CHR 0xE2, CHR 0x80, CHR 0xA8],
      [CHR 0xE2, CHR 0x80, CHR 0xA9], [CHR 0xE2, CHR 0x80, CHR 0xAF],
      [CHR 0xE2, CHR 0x81, CHR 0x9F], [CHR 0xE3, CHR 0x80, CHR 0x80]]"

definition leading :: "string list \<Rightarrow> string \<Rightarrow> string option" where
  "leading seqs s = find (\<lambda>p. p \<noteq> [] \<and> prefix p s) seqs"

lemma leading_Some: "leading seqs s = Some p \<Longrightarrow> p \<noteq> [] \<and> prefix p s"
  by (auto simp: leading_def find_Some_iff)

function drop_seqs :: "string list \<Rightarrow> string \<Rightarrow> string" where
  "drop_seqs seqs s =
     (case leading seqs s of None \<Rightarrow> s | Some p \<Rightarrow> drop_seqs seqs (drop (length p) s))"
  by pat_completeness auto
termination
  by (relation "measure (\<lambda>(seqs, s). length s)")
     (auto dest!: leading_Some simp: prefix_def)

declare drop_seqs.simps [simp del]

definition trim_space :: "string \<Rightarrow> string" where
  "trim_space s =
     rev (drop_seqs (map rev space_seqs) (rev (drop_seqs space_seqs s)))"

fun take_word :: "string \<Rightarrow> string \<times> string" where
  "take_word [] = ([], [])"
| "take_word (c # cs) =
     (if leading space_seqs (c # cs) \<noteq> None then ([], c # cs)
      else (let (w, r) = take_word cs in (c # w, r)))"

lemma take_word_append: "take_word s = (w, r) \<Longrightarrow> s = w @ r"
  by (induction s arbitrary: w rule: take_word.induct) (auto split: if_splits prod.splits)

lemma drop_seqs_length: "length (drop_seqs seqs s) \<le> length s"
proof (induction seqs s rule: drop_seqs.induct)
  case (1 seqs s)
  show ?case
    by (subst drop_seqs.simps) (auto split: option.splits dest: "1.IH")
qed

lemma drop_seqs_stops: "leading seqs (drop_seqs seqs s) = None"
proof (induction seqs s rule: drop_seqs.induct)
  case (1 seqs s)
  then show ?case
    by (cases "leading seqs s") (simp_all add: drop_seqs.simps [of seqs s])
qed

text \<open>\<open>strings.Fields\<close>: the maximal runs of non-space bytes.\<close>

function fields :: "string \<Rightarrow> string list" where
  "fields s =
     (let t = drop_seqs space_seqs s in
      if t = [] then [] else (let (w, r) = take_word t in w # fields r))"
  by pat_completeness auto
termination
proof (relation "measure length", simp)
  fix s t w r and x :: "string \<times> string"
  assume t: "t = drop_seqs space_seqs s" "t \<noteq> []" and x: "x = take_word t" "(w, r) = x"
  have "leading space_seqs t = None" by (simp add: t(1) drop_seqs_stops)
  with t(2) x have "w \<noteq> []" by (cases t) (auto split: prod.splits)
  with x have "length r < length t" using take_word_append [of t w r] by simp
  with t(1) drop_seqs_length [of space_seqs s] show "(r, s) \<in> measure length" by simp
qed

declare fields.simps [simp del]

end
