(* ===== verification/Go_Url.thy ===== *)
theory Go_Url
  imports Go_Strings
begin

text \<open>
  Go's package \<open>net/url\<close> (version 1.22), as far as the program uses it: percent coding,
  \<open>Parse\<close>, \<open>EscapedPath\<close>, \<open>String\<close> and \<open>RequestURI\<close>.  A \<open>url.URL\<close> is a
  record with the fields of the Go structure; the user information is the pair of the user
  name and the optional password.
\<close>

section \<open>Percent coding\<close>

datatype encoding =
    EncodePath | EncodePathSegment | EncodeHost | EncodeZone | EncodeUserPassword
  | EncodeQueryComponent | EncodeFragment

definition should_escape :: "char \<Rightarrow> encoding \<Rightarrow> bool" where
  "should_escape c mode =
     (if is_alnum c then False
      else if (mode = EncodeHost \<or> mode = EncodeZone) \<and> c \<in> set ''!$&'()*+,;=:[]<>\"'' then False
      else if c \<in> set ''-_.~'' then False
      else if c \<in> set ''$&+,/:;=?@'' \<and> mode \<noteq> EncodeHost \<and> mode \<noteq> EncodeZone then
        (case mode of
           EncodePath \<Rightarrow> c = CHR ''?''
         | EncodePathSegment \<Rightarrow> c \<in> set ''/;,?''
         | EncodeUserPassword \<Rightarrow> c \<in> set ''@/?:''
         | EncodeQueryComponent \<Rightarrow> True
         | _ \<Rightarrow> False)
      else if mode = EncodeFragment \<and> c \<in> set ''!()*'' then False
      else True)"

definition is_hex :: "char \<Rightarrow> bool" where
  "is_hex c \<longleftrightarrow> is_digit c \<or> (97 \<le> byte c \<and> byte c \<le> 102) \<or> (65 \<le> byte c \<and> byte c \<le> 70)"

definition unhex :: "char \<Rightarrow> nat" where
  "unhex c =
     (if is_digit c then byte c - 48
      else if 97 \<le> byte c \<and> byte c \<le> 102 then byte c - 97 + 10
      else if 65 \<le> byte c \<and> byte c \<le> 70 then byte c - 65 + 10 else 0)"

definition upper_hex :: "nat \<Rightarrow> char" where
  "upper_hex n = ''0123456789ABCDEF'' ! n"

definition unhex_pair :: "char \<Rightarrow> char \<Rightarrow> char" where
  "unhex_pair a b = char_of (unhex a * 16 + unhex b)"

definition escape :: "string \<Rightarrow> encoding \<Rightarrow> string" where
  "escape s mode =
     concat (map (\<lambda>c.
       if should_escape c mode then
         (if c = CHR '' '' \<and> mode = EncodeQueryComponent then ''+''
          else [CHR ''%'', upper_hex (byte c div 16), upper_hex (byte c mod 16)])
       else [c]) s)"

text \<open>A percent triple that the host and zone modes refuse, and a plain byte they refuse.\<close>

definition bad_triple :: "encoding \<Rightarrow> char \<Rightarrow> char \<Rightarrow> bool" where
  "bad_triple mode a b =
     (case mode of
        EncodeHost \<Rightarrow> unhex a < 8 \<and> [a, b] \<noteq> ''25''
      | EncodeZone \<Rightarrow> [a, b] \<noteq> ''25'' \<and> unhex_pair a b \<noteq> CHR '' ''
                       \<and> should_escape (unhex_pair a b) EncodeHost
      | _ \<Rightarrow> False)"

definition bad_plain :: "encoding \<Rightarrow> char \<Rightarrow> bool" where
  "bad_plain mode c \<longleftrightarrow>
     (mode = EncodeHost \<or> mode = EncodeZone) \<and> byte c < 128 \<and> should_escape c mode"

fun unescape :: "encoding \<Rightarrow> string \<Rightarrow> string option" where
  "unescape mode [] = Some []"
| "unescape mode (c # cs) =
     (if c = CHR ''%'' then
        (case cs of
           a # b # rest \<Rightarrow>
             (if is_hex a \<and> is_hex b \<and> \<not> bad_triple mode a b
              then map_option (Cons (unhex_pair a b)) (unescape mode rest) else None)
         | _ \<Rightarrow> None)
      else if bad_plain mode c then None
      else map_option
             (Cons (if c = CHR ''+'' \<and> mode = EncodeQueryComponent then CHR '' '' else c))
             (unescape mode cs))"

definition valid_encoded :: "string \<Rightarrow> encoding \<Rightarrow> bool" where
  "valid_encoded s mode \<longleftrightarrow>
     list_all (\<lambda>c. c \<in> set ''!$&'()*+,;=:@[]%'' \<or> \<not> should_escape c mode) s"

lemma valid_encoded_append [simp]:
  "valid_encoded (a @ b) mode \<longleftrightarrow> valid_encoded a mode \<and> valid_encoded b mode"
  by (simp add: valid_encoded_def)

lemma valid_encoded_Nil [simp]: "valid_encoded [] mode"
  by (simp add: valid_encoded_def)

text \<open>Decoding is compositional: a decodable first part decodes on its own.\<close>

lemma unescape_append:
  "unescape mode a = Some a' \<Longrightarrow> unescape mode b = Some b' \<Longrightarrow>
   unescape mode (a @ b) = Some (a' @ b')"
proof (induction mode a arbitrary: a' rule: unescape.induct)
  case (1 mode)
  then show ?case by simp
next
  case (2 mode c cs)
  then show ?case
    by (auto split: if_splits list.splits simp: Cons_eq_append_conv)
qed

section \<open>The URL structure\<close>

record url =
  u_scheme :: string
  u_opaque :: string
  u_user :: "(string \<times> string option) option"
  u_host :: string
  u_path :: string
  u_raw_path :: string
  u_omit_host :: bool
  u_force_query :: bool
  u_raw_query :: string
  u_fragment :: string
  u_raw_fragment :: string

definition empty_url :: url where
  "empty_url = \<lparr>u_scheme = [], u_opaque = [], u_user = None, u_host = [], u_path = [],
     u_raw_path = [], u_omit_host = False, u_force_query = False, u_raw_query = [],
     u_fragment = [], u_raw_fragment = []\<rparr>"

definition escaped_path :: "url \<Rightarrow> string" where
  "escaped_path u =
     (if u_raw_path u \<noteq> [] \<and> valid_encoded (u_raw_path u) EncodePath
         \<and> unescape EncodePath (u_raw_path u) = Some (u_path u) then u_raw_path u
      else if u_path u = ''*'' then ''*''
      else escape (u_path u) EncodePath)"

definition escaped_fragment :: "url \<Rightarrow> string" where
  "escaped_fragment u =
     (if u_raw_fragment u \<noteq> [] \<and> valid_encoded (u_raw_fragment u) EncodeFragment
         \<and> unescape EncodeFragment (u_raw_fragment u) = Some (u_fragment u)
      then u_raw_fragment u else escape (u_fragment u) EncodeFragment)"

definition userinfo_string :: "string \<times> string option \<Rightarrow> string" where
  "userinfo_string ui =
     escape (fst ui) EncodeUserPassword @
     (case snd ui of None \<Rightarrow> [] | Some p \<Rightarrow> '':'' @ escape p EncodeUserPassword)"

definition url_string :: "url \<Rightarrow> string" where
  "url_string u =
     (let scheme = (if u_scheme u \<noteq> [] then u_scheme u @ '':'' else []);
          body =
            (if u_opaque u \<noteq> [] then u_opaque u
             else
               let auth =
                     (if u_scheme u \<noteq> [] \<or> u_host u \<noteq> [] \<or> u_user u \<noteq> None then
                        if u_omit_host u \<and> u_host u = [] \<and> u_user u = None then []
                        else
                          (if u_host u \<noteq> [] \<or> u_path u \<noteq> [] \<or> u_user u \<noteq> None then ''//'' else []) @
                          (case u_user u of None \<Rightarrow> [] | Some ui \<Rightarrow> userinfo_string ui @ ''@'') @
                          (if u_host u \<noteq> [] then escape (u_host u) EncodeHost else [])
                      else []);
                   path = escaped_path u;
                   slash = (if path \<noteq> [] \<and> hd path \<noteq> CHR ''/'' \<and> u_host u \<noteq> [] then ''/'' else []);
                   dot = (if scheme @ auth @ slash = [] \<and> CHR '':'' \<in> set (fst (cut (CHR ''/'') path))
                          then ''./'' else [])
               in auth @ slash @ dot @ path);
          query = (if u_force_query u \<or> u_raw_query u \<noteq> [] then ''?'' @ u_raw_query u else []);
          frag = (if u_fragment u \<noteq> [] then ''#'' @ escaped_fragment u else [])
      in scheme @ body @ query @ frag)"

definition request_uri :: "url \<Rightarrow> string" where
  "request_uri u =
     (let result =
            (if u_opaque u = [] then
               (if escaped_path u = [] then ''/'' else escaped_path u)
             else if has_prefix (u_opaque u) ''//'' then u_scheme u @ '':'' @ u_opaque u
             else u_opaque u)
      in if u_force_query u \<or> u_raw_query u \<noteq> [] then result @ ''?'' @ u_raw_query u
         else result)"

section \<open>Parsing\<close>

text \<open>
  \<open>getScheme\<close>: \<open>None\<close> is the error of a leading colon; otherwise the scheme (empty if
  there is none) and the rest.
\<close>

fun scheme_scan :: "string \<Rightarrow> string \<Rightarrow> string \<Rightarrow> (string \<times> string) option" where
  "scheme_scan raw acc [] = Some ([], raw)"
| "scheme_scan raw acc (c # cs) =
     (if is_lower c \<or> is_upper c then scheme_scan raw (acc @ [c]) cs
      else if is_digit c \<or> c \<in> set ''+-.'' then
        (if acc = [] then Some ([], raw) else scheme_scan raw (acc @ [c]) cs)
      else if c = CHR '':'' then (if acc = [] then None else Some (acc, cs))
      else Some ([], raw))"

definition get_scheme :: "string \<Rightarrow> (string \<times> string) option" where
  "get_scheme raw = scheme_scan raw [] raw"

definition valid_optional_port :: "string \<Rightarrow> bool" where
  "valid_optional_port p = (case p of [] \<Rightarrow> True | c # cs \<Rightarrow> c = CHR '':'' \<and> list_all is_digit cs)"

definition valid_userinfo :: "string \<Rightarrow> bool" where
  "valid_userinfo s = list_all (\<lambda>c. is_alnum c \<or> c \<in> set ''-._:~!$&'()*+,;=%@'') s"

text \<open>The zone of a bracketed host starts at the first \<open>%25\<close> before the closing bracket.\<close>

fun find_zone :: "string \<Rightarrow> string \<Rightarrow> (string \<times> string) option" where
  "find_zone pre [] = None"
| "find_zone pre (c # cs) =
     (if prefix ''%25'' (c # cs) then Some (pre, c # cs) else find_zone (pre @ [c]) cs)"

definition parse_host :: "string \<Rightarrow> string option" where
  "parse_host host =
     (if prefix ''['' host then
        (case cut_last (CHR '']'') host of
           None \<Rightarrow> None
         | Some (front, colon_port) \<Rightarrow>
             if \<not> valid_optional_port colon_port then None
             else (case find_zone [] front of
                     None \<Rightarrow> unescape EncodeHost host
                   | Some (h1, zone) \<Rightarrow>
                       (case (unescape EncodeHost h1, unescape EncodeZone zone,
                              unescape EncodeHost ('']'' @ colon_port)) of
                          (Some a, Some b, Some c) \<Rightarrow> Some (a @ b @ c)
                        | _ \<Rightarrow> None)))
      else
        (case cut_last (CHR '':'') host of
           None \<Rightarrow> unescape EncodeHost host
         | Some (_, port) \<Rightarrow>
             if valid_optional_port ('':'' @ port) then unescape EncodeHost host else None))"

definition parse_authority ::
  "string \<Rightarrow> ((string \<times> string option) option \<times> string) option" where
  "parse_authority auth =
     (case cut_last (CHR ''@'') auth of
        None \<Rightarrow> map_option (\<lambda>h. (None, h)) (parse_host auth)
      | Some (ui, h) \<Rightarrow>
          (case parse_host h of
             None \<Rightarrow> None
           | Some host \<Rightarrow>
               if \<not> valid_userinfo ui then None
               else (case cut (CHR '':'') ui of
                       (user, None) \<Rightarrow>
                         map_option (\<lambda>u. (Some (u, None), host)) (unescape EncodeUserPassword user)
                     | (user, Some pass) \<Rightarrow>
                         (case (unescape EncodeUserPassword user, unescape EncodeUserPassword pass) of
                            (Some u, Some p) \<Rightarrow> Some (Some (u, Some p), host)
                          | _ \<Rightarrow> None))))"

definition set_path :: "string \<Rightarrow> url \<Rightarrow> url option" where
  "set_path p u =
     map_option
       (\<lambda>path. u\<lparr>u_path := path, u_raw_path := (if p = escape path EncodePath then [] else p)\<rparr>)
       (unescape EncodePath p)"

definition set_fragment :: "string \<Rightarrow> url \<Rightarrow> url option" where
  "set_fragment f u =
     map_option
       (\<lambda>frag. u\<lparr>u_fragment := frag,
                 u_raw_fragment := (if f = escape frag EncodeFragment then [] else f)\<rparr>)
       (unescape EncodeFragment f)"

text \<open>The query is split off at the first question mark; a single trailing one is \<open>ForceQuery\<close>.\<close>

definition split_query :: "string \<Rightarrow> string \<times> bool \<times> string" where
  "split_query rest =
     (if has_suffix rest ''?'' \<and> count_list rest (CHR ''?'') = 1
      then (butlast rest, True, [])
      else (case cut (CHR ''?'') rest of
              (a, None) \<Rightarrow> (a, False, []) | (a, Some q) \<Rightarrow> (a, False, q)))"

definition parse_rest :: "string \<Rightarrow> string \<Rightarrow> url option" where
  "parse_rest scheme rest0 =
     (let (rest, force, query) = split_query rest0;
          u = empty_url\<lparr>u_scheme := scheme, u_force_query := force, u_raw_query := query\<rparr>
      in
      if \<not> prefix ''/'' rest \<and> scheme \<noteq> [] then Some (u\<lparr>u_opaque := rest\<rparr>)
      else if \<not> prefix ''/'' rest \<and> CHR '':'' \<in> set (fst (cut (CHR ''/'') rest)) then None
      else if (scheme \<noteq> [] \<or> \<not> prefix ''///'' rest) \<and> prefix ''//'' rest then
        (let a = drop 2 rest;
             (auth, path) = (takeWhile (\<lambda>c. c \<noteq> CHR ''/'') a, dropWhile (\<lambda>c. c \<noteq> CHR ''/'') a)
         in case parse_authority auth of
              None \<Rightarrow> None
            | Some (ui, host) \<Rightarrow> set_path path (u\<lparr>u_user := ui, u_host := host\<rparr>))
      else if scheme \<noteq> [] \<and> prefix ''/'' rest then set_path rest (u\<lparr>u_omit_host := True\<rparr>)
      else set_path rest u)"

definition has_ctl_byte :: "string \<Rightarrow> bool" where
  "has_ctl_byte s \<longleftrightarrow> list_ex (\<lambda>c. byte c < 32 \<or> byte c = 127) s"

definition url_parse_nofrag :: "string \<Rightarrow> url option" where
  "url_parse_nofrag raw =
     (if has_ctl_byte raw then None
      else if raw = ''*'' then Some (empty_url\<lparr>u_path := ''*''\<rparr>)
      else (case get_scheme raw of
              None \<Rightarrow> None
            | Some (scheme, rest) \<Rightarrow> parse_rest (to_lower scheme) rest))"

definition url_parse :: "string \<Rightarrow> gerror + url" where
  "url_parse raw =
     (let (main, frag) = cut (CHR ''#'') raw
      in case url_parse_nofrag main of
           None \<Rightarrow> Inl (LibError ''parse'')
         | Some u \<Rightarrow>
             (case frag of
                None \<Rightarrow> Inr u
              | Some f \<Rightarrow>
                  if f = [] then Inr u
                  else (case set_fragment f u of
                          None \<Rightarrow> Inl (LibError ''parse'') | Some u' \<Rightarrow> Inr u')))"

end
