(* ===== verification/Go_Http.thy ===== *)
theory Go_Http
  imports Go_Url
begin

text \<open>
  The parts of Go's packages \<open>net/http\<close> and \<open>net/textproto\<close> the program uses:
  canonical header keys, \<open>http.Header\<close> with \<open>Get\<close>, \<open>Set\<close>, \<open>Add\<close> and \<open>Del\<close>, outgoing
  cookies, requests and responses.  A header is an association list from keys to the list
  of values; its order is an order in which a \<open>range\<close> visits the keys.
\<close>

section \<open>Header keys\<close>

definition token_byte :: "char \<Rightarrow> bool" where
  "token_byte c \<longleftrightarrow> is_alnum c \<or> c \<in> set ''!#$%&'*+-.^_`|~''"

fun canon_bytes :: "bool \<Rightarrow> string \<Rightarrow> string" where
  "canon_bytes up [] = []"
| "canon_bytes up (c # cs) =
     (if up then upper_char c else lower_char c) # canon_bytes (c = CHR ''-'') cs"

text \<open>\<open>textproto.CanonicalMIMEHeaderKey\<close>: a key with a byte outside the token set is kept.\<close>

definition canonical_key :: "string \<Rightarrow> string" where
  "canonical_key s = (if list_all token_byte s then canon_bytes True s else s)"

lemma case_byte:
  "is_lower c \<Longrightarrow> byte (upper_char c) = byte c - 32" "is_upper c \<Longrightarrow> byte (lower_char c) = byte c + 32"
proof -
  assume c: "is_lower c"
  then have "byte c - 32 < 256" unfolding is_lower_def by linarith
  with c show "byte (upper_char c) = byte c - 32" by (simp add: upper_char_def byte_char_of)
next
  assume c: "is_upper c"
  then have "byte c + 32 < 256" unfolding is_upper_def by linarith
  with c show "byte (lower_char c) = byte c + 32" by (simp add: lower_char_def byte_char_of)
qed

lemma case_dash: "upper_char c = CHR ''-'' \<longleftrightarrow> c = CHR ''-''" "lower_char c = CHR ''-'' \<longleftrightarrow> c = CHR ''-''"
proof -
  have dash: "byte (CHR ''-'') = 45" by (simp add: byte_def)
  have "upper_char c \<noteq> CHR ''-''" if "is_lower c"
    using case_byte(1) [OF that] that dash by (auto simp: is_lower_def)
  moreover have "c \<noteq> CHR ''-''" if "is_lower c" using that dash by (auto simp: is_lower_def)
  ultimately show "upper_char c = CHR ''-'' \<longleftrightarrow> c = CHR ''-''"
    by (cases "is_lower c") (simp_all add: upper_char_def)
  have "lower_char c \<noteq> CHR ''-''" if "is_upper c"
    using case_byte(2) [OF that] that dash by (auto simp: is_upper_def)
  moreover have "c \<noteq> CHR ''-''" if "is_upper c" using that dash by (auto simp: is_upper_def)
  ultimately show "lower_char c = CHR ''-'' \<longleftrightarrow> c = CHR ''-''"
    by (cases "is_upper c") (simp_all add: lower_char_def)
qed

lemma case_token:
  assumes "token_byte c"
  shows "token_byte (upper_char c)" "token_byte (lower_char c)"
proof -
  have "is_upper (upper_char c)" if "is_lower c"
    using case_byte(1) [OF that] that unfolding is_lower_def is_upper_def by linarith
  then show "token_byte (upper_char c)"
    using assms by (cases "is_lower c") (simp_all add: token_byte_def is_alnum_def upper_char_def)
  have "is_lower (lower_char c)" if "is_upper c"
    using case_byte(2) [OF that] that unfolding is_lower_def is_upper_def by linarith
  then show "token_byte (lower_char c)"
    using assms by (cases "is_upper c") (simp_all add: token_byte_def is_alnum_def lower_char_def)
qed

lemma canon_bytes_idem: "canon_bytes up (canon_bytes up s) = canon_bytes up s"
  by (induction up s rule: canon_bytes.induct) (auto simp: upper_char_idem lower_char_idem case_dash)

lemma canon_bytes_token: "list_all token_byte s \<Longrightarrow> list_all token_byte (canon_bytes up s)"
  by (induction up s rule: canon_bytes.induct) (auto simp: case_token)

lemma canonical_key_idem [simp]: "canonical_key (canonical_key s) = canonical_key s"
  by (simp add: canonical_key_def canon_bytes_idem canon_bytes_token)

section \<open>Headers\<close>

type_synonym header = "(string \<times> string list) list"

definition hvalues :: "header \<Rightarrow> string \<Rightarrow> string list" where
  "hvalues h k = (case map_of h (canonical_key k) of None \<Rightarrow> [] | Some vs \<Rightarrow> vs)"

definition hget :: "header \<Rightarrow> string \<Rightarrow> string" where
  "hget h k = (case hvalues h k of [] \<Rightarrow> [] | v # _ \<Rightarrow> v)"

definition hset :: "header \<Rightarrow> string \<Rightarrow> string \<Rightarrow> header" where
  "hset h k v = AList.update (canonical_key k) [v] h"

definition hadd :: "header \<Rightarrow> string \<Rightarrow> string \<Rightarrow> header" where
  "hadd h k v = AList.update (canonical_key k) (hvalues h k @ [v]) h"

definition hdel :: "header \<Rightarrow> string \<Rightarrow> header" where
  "hdel h k = AList.delete (canonical_key k) h"

text \<open>The loop \<open>for k, vals := range src { for _, v := range vals { dst.Add(k, v) } }\<close>.\<close>

definition hadd_all :: "header \<Rightarrow> header \<Rightarrow> header" where
  "hadd_all dst src = foldl (\<lambda>d (k, vals). foldl (\<lambda>d v. hadd d k v) d vals) dst src"

lemma hvalues_Nil [simp]: "hvalues [] k = []"
  by (simp add: hvalues_def)

lemma hvalues_hset [header_simps]:
  "hvalues (hset h k v) k' = (if canonical_key k' = canonical_key k then [v] else hvalues h k')"
  by (simp add: hvalues_def hset_def)

lemma hvalues_hadd [header_simps]:
  "hvalues (hadd h k v) k' =
     (if canonical_key k' = canonical_key k then hvalues h k' @ [v] else hvalues h k')"
  by (simp add: hvalues_def hadd_def)

lemma hvalues_hdel [header_simps]:
  "hvalues (hdel h k) k' = (if canonical_key k' = canonical_key k then [] else hvalues h k')"
  by (simp add: hvalues_def hdel_def)

lemma hget_hset [header_simps]:
  "hget (hset h k v) k' = (if canonical_key k' = canonical_key k then v else hget h k')"
  by (simp add: hget_def hvalues_hset)

lemma hget_hdel [header_simps]:
  "hget (hdel h k) k' = (if canonical_key k' = canonical_key k then [] else hget h k')"
  by (simp add: hget_def hvalues_hdel)

lemma hvalues_hadd_list:
  "hvalues (foldl (\<lambda>d v. hadd d k v) h vs) k' =
     (if canonical_key k' = canonical_key k then hvalues h k' @ vs else hvalues h k')"
proof (induction vs arbitrary: h)
  case Nil
  then show ?case by simp
next
  case (Cons v vs)
  then show ?case by (simp add: hvalues_hadd)
qed

text \<open>What reading a key sees after the copy loop: the old values, then all those of equal keys.\<close>

lemma hvalues_hadd_all:
  "hvalues (hadd_all dst src) k =
     hvalues dst k @ concat (map snd (filter (\<lambda>(j, _). canonical_key j = canonical_key k) src))"
proof (induction src arbitrary: dst)
  case Nil
  then show ?case by (simp add: hadd_all_def)
next
  case (Cons p src)
  obtain j vs where p: "p = (j, vs)" by (cases p)
  have "hadd_all dst (p # src) = hadd_all (foldl (\<lambda>d v. hadd d j v) dst vs) src"
    by (simp add: hadd_all_def p)
  with Cons.IH show ?case
    by (auto simp: hvalues_hadd_list p)
qed

lemma hadd_all_Nil [simp]: "hadd_all dst [] = dst"
  by (simp add: hadd_all_def)

definition wf_header :: "header \<Rightarrow> bool" where
  "wf_header h \<longleftrightarrow> distinct (map fst h)"

lemma wf_hset [simp]: "wf_header h \<Longrightarrow> wf_header (hset h k v)"
  by (simp add: wf_header_def hset_def distinct_update)

lemma wf_hadd [simp]: "wf_header h \<Longrightarrow> wf_header (hadd h k v)"
  by (simp add: wf_header_def hadd_def distinct_update)

lemma wf_hdel [simp]: "wf_header h \<Longrightarrow> wf_header (hdel h k)"
  by (simp add: wf_header_def hdel_def distinct_delete)

section \<open>Cookies\<close>

record cookie =
  c_name :: string
  c_value :: string
  c_domain :: string
  c_path :: string

definition sanitize_cookie_name :: "string \<Rightarrow> string" where
  "sanitize_cookie_name = map (\<lambda>c. if byte c = 10 \<or> byte c = 13 then CHR ''-'' else c)"

definition valid_cookie_byte :: "char \<Rightarrow> bool" where
  "valid_cookie_byte c \<longleftrightarrow>
     32 \<le> byte c \<and> byte c < 127 \<and> c \<noteq> CHR 0x22 \<and> c \<noteq> CHR '';'' \<and> c \<noteq> CHR 0x5C"

definition sanitize_cookie_value :: "string \<Rightarrow> string" where
  "sanitize_cookie_value v =
     (let s = filter valid_cookie_byte v
      in if CHR '' '' \<in> set s \<or> CHR '','' \<in> set s then [CHR 0x22] @ s @ [CHR 0x22] else s)"

definition cookie_pair :: "cookie \<Rightarrow> string" where
  "cookie_pair c = sanitize_cookie_name (c_name c) @ ''='' @ sanitize_cookie_value (c_value c)"

text \<open>\<open>Request.AddCookie\<close> appends to the first \<open>Cookie\<close> line, replacing the header by it.\<close>

definition add_cookie :: "header \<Rightarrow> cookie \<Rightarrow> header" where
  "add_cookie h c =
     (let s = cookie_pair c; old = hget h ''Cookie''
      in if old \<noteq> [] then hset h ''Cookie'' (old @ ''; '' @ s) else hset h ''Cookie'' s)"

lemma wf_add_cookie [simp]: "wf_header h \<Longrightarrow> wf_header (add_cookie h c)"
  by (simp add: add_cookie_def Let_def)

lemma hvalues_add_cookie_other [header_simps]:
  "canonical_key k \<noteq> canonical_key ''Cookie'' \<Longrightarrow> hvalues (add_cookie h c) k = hvalues h k"
  by (simp add: add_cookie_def Let_def header_simps)

section \<open>Requests and responses\<close>

record request =
  rq_method :: string
  rq_url :: url
  rq_header :: header
  rq_body :: string

record response =
  rs_status :: int
  rs_header :: header
  rs_cookies :: "cookie list"
  rs_body :: string
  rs_read_error :: "gerror option"

text \<open>
  A response as \<open>http.Client.Do\<close> hands it out: \<open>rs_cookies\<close> is what \<open>resp.Cookies()\<close>
  reads from its \<open>Set-Cookie\<close> lines, \<open>rs_body\<close> the bytes the body stream yields, and
  \<open>rs_read_error\<close> the error that ends the stream early, if one does.
\<close>

type_synonym 'w client = "request \<Rightarrow> ('w, gerror + response) io"

definition valid_method :: "string \<Rightarrow> bool" where
  "valid_method m \<longleftrightarrow> m \<noteq> [] \<and> list_all token_byte m"

definition remove_empty_port :: "string \<Rightarrow> string" where
  "remove_empty_port h =
     (case cut_last (CHR '':'') h of
        Some (front, port) \<Rightarrow> if port = [] then front else h
      | None \<Rightarrow> h)"

text \<open>\<open>http.NewRequestWithContext\<close>.\<close>

definition new_request :: "string \<Rightarrow> string \<Rightarrow> string \<Rightarrow> gerror + request" where
  "new_request method rawurl body =
     (let m = (if method = [] then ''GET'' else method) in
      if \<not> valid_method m then Inl (LibError ''invalid method'')
      else (case url_parse rawurl of
              Inl e \<Rightarrow> Inl e
            | Inr u \<Rightarrow>
                Inr \<lparr>rq_method = m, rq_url = u\<lparr>u_host := remove_empty_port (u_host u)\<rparr>,
                     rq_header = [], rq_body = body\<rparr>))"

lemma new_request_header: "new_request m u b = Inr r \<Longrightarrow> rq_header r = []"
  by (auto simp: new_request_def Let_def split: if_splits sum.splits)

lemma new_request_method:
  "new_request m u b = Inr r \<Longrightarrow> rq_method r = (if m = [] then ''GET'' else m)"
  by (auto simp: new_request_def Let_def split: if_splits sum.splits)

lemma new_request_body: "new_request m u b = Inr r \<Longrightarrow> rq_body r = b"
  by (auto simp: new_request_def Let_def split: if_splits sum.splits)

end
