(* ===== verification/Session.thy ===== *)
theory Session
  imports Go_Http
begin

text \<open>
  Component \<open>internal/session\<close>: the live authentication state of one identity, how it is
  injected into an outgoing request (\<open>Apply\<close>) and when it counts as expired
  (\<open>Expired\<close>).
\<close>

record session =
  s_identity :: string
  s_cookies :: "cookie list"
  s_bearer :: string
  s_refresh_token :: string
  s_csrf :: string
  s_headers :: header
  s_expires_at :: gtime

definition empty_session :: session where
  "empty_session = \<lparr>s_identity = [], s_cookies = [], s_bearer = [], s_refresh_token = [],
     s_csrf = [], s_headers = [], s_expires_at = 0\<rparr>"

text \<open>\<open>Session.Apply\<close> (session.go 20-35), on the header of the request.\<close>

definition apply_header :: "session \<Rightarrow> header \<Rightarrow> header" where
  "apply_header s h =
     (let h1 = (if s_bearer s \<noteq> [] then hset h ''Authorization'' (''Bearer '' @ s_bearer s) else h);
          h2 = foldl add_cookie h1 (s_cookies s);
          h3 = (if s_csrf s \<noteq> [] then hset h2 ''X-CSRF-Token'' (s_csrf s) else h2)
      in hadd_all h3 (s_headers s))"

definition apply_session :: "session \<Rightarrow> request \<Rightarrow> request" where
  "apply_session s r = r\<lparr>rq_header := apply_header s (rq_header r)\<rparr>"

text \<open>\<open>Session.Expired\<close> (session.go 40-42): a zero expiry means unknown, not expired.\<close>

definition expired :: "session \<Rightarrow> gtime \<Rightarrow> bool" where
  "expired s now \<longleftrightarrow> \<not> time_is_zero (s_expires_at s) \<and> s_expires_at s < now"

text \<open>What makes a session worth caching: the recipes reject a login that yields neither.\<close>

definition has_material :: "session \<Rightarrow> bool" where
  "has_material s \<longleftrightarrow> s_cookies s \<noteq> [] \<or> s_bearer s \<noteq> []"

section \<open>Facts about Apply\<close>

lemma hvalues_add_cookies_other:
  "canonical_key k \<noteq> canonical_key ''Cookie'' \<Longrightarrow>
   hvalues (foldl add_cookie h cs) k = hvalues h k"
  by (induction cs arbitrary: h) (simp_all add: hvalues_add_cookie_other)

lemma cookie_key [simp]: "canonical_key ''Cookie'' = ''Cookie''"
  by code_simp

lemma authorization_key [simp]: "canonical_key ''Authorization'' = ''Authorization''"
  by code_simp

lemma csrf_key [simp]: "canonical_key ''X-CSRF-Token'' = ''X-Csrf-Token''"
  by code_simp

text \<open>The pinned headers of a session that reach a key, in order.\<close>

definition pinned :: "session \<Rightarrow> string \<Rightarrow> string list" where
  "pinned s k = concat (map snd (filter (\<lambda>(j, _). canonical_key j = canonical_key k) (s_headers s)))"

lemma apply_header_authorization:
  "s_bearer s \<noteq> [] \<Longrightarrow>
   hvalues (apply_header s h) ''Authorization'' =
     (''Bearer '' @ s_bearer s) # pinned s ''Authorization''"
  by (simp add: apply_header_def Let_def hvalues_hadd_all hvalues_hset hvalues_add_cookies_other
      pinned_def)

lemma apply_header_other:
  assumes "canonical_key k \<noteq> ''Authorization''" "canonical_key k \<noteq> ''Cookie''"
    "canonical_key k \<noteq> ''X-Csrf-Token''"
  shows "hvalues (apply_header s h) k = hvalues h k @ pinned s k"
  using assms
  by (simp add: apply_header_def Let_def hvalues_hadd_all hvalues_hset hvalues_add_cookies_other
      pinned_def)

lemma apply_header_csrf:
  "s_csrf s \<noteq> [] \<Longrightarrow>
   hvalues (apply_header s h) ''X-CSRF-Token'' = s_csrf s # pinned s ''X-CSRF-Token''"
  by (simp add: apply_header_def Let_def hvalues_hadd_all hvalues_hset pinned_def)

text \<open>The cookie line: the client's own line first, then the session's cookies in order.\<close>

fun cookie_line :: "string \<Rightarrow> cookie list \<Rightarrow> string" where
  "cookie_line old [] = old"
| "cookie_line old (c # cs) =
     cookie_line (if old = [] then cookie_pair c else old @ ''; '' @ cookie_pair c) cs"

lemma cookie_pair_nonempty [simp]: "cookie_pair c \<noteq> []"
  by (simp add: cookie_pair_def)

lemma hget_add_cookies:
  "hget (foldl add_cookie h cs) ''Cookie'' = cookie_line (hget h ''Cookie'') cs"
  by (induction cs arbitrary: h) (simp_all add: add_cookie_def Let_def header_simps)

lemma apply_header_cookie:
  assumes "pinned s ''Cookie'' = []" and "s_cookies s \<noteq> []"
  shows "hget (apply_header s h) ''Cookie'' = cookie_line (hget h ''Cookie'') (s_cookies s)"
proof -
  let ?h1 = "if s_bearer s \<noteq> [] then hset h ''Authorization'' (''Bearer '' @ s_bearer s) else h"
  have "hvalues (apply_header s h) ''Cookie'' = hvalues (foldl add_cookie ?h1 (s_cookies s)) ''Cookie''"
    using assms(1)
    by (auto simp: apply_header_def Let_def hvalues_hadd_all hvalues_hset pinned_def)
  moreover have "hget ?h1 ''Cookie'' = hget h ''Cookie''"
    by (simp add: hget_hset)
  ultimately show ?thesis
    by (metis hget_add_cookies hget_def)
qed

lemma apply_session_simps [simp]:
  "rq_method (apply_session s r) = rq_method r"
  "rq_url (apply_session s r) = rq_url r"
  "rq_body (apply_session s r) = rq_body r"
  "rq_header (apply_session s r) = apply_header s (rq_header r)"
  by (simp_all add: apply_session_def)

lemma expired_mono: "expired s t \<Longrightarrow> t \<le> t' \<Longrightarrow> expired s t'"
  by (auto simp: expired_def)

lemma unknown_expiry_never_expires: "s_expires_at s = 0 \<Longrightarrow> \<not> expired s t"
  by (simp add: expired_def)

end
