(* ===== verification/Recipe.thy ===== *)
theory Recipe
  imports Session "HOL-Library.Word"
begin

text \<open>
  Component \<open>internal/recipe\<close>, the part every login recipe shares: the \<open>Recipe\<close>
  interface (a record of its methods), the logged-out signature with \<open>Matches\<close>, and
  \<open>expiresAt\<close>, whose machine-integer arithmetic is kept at 64 bits.  The contract a recipe
  owes the store is the locale \<open>login_recipe\<close>; the recipes of the program interpret it.
\<close>

section \<open>Logged-out signatures\<close>

record logout_signature =
  status_codes :: "int list"
  location_contains :: string
  body_contains :: string

text \<open>\<open>LogoutSignature.Matches\<close> (signature.go 16-29): the loop over the codes, then the two markers.\<close>

definition signature_matches :: "logout_signature \<Rightarrow> response \<Rightarrow> string \<Rightarrow> bool" where
  "signature_matches sig resp body =
     (if rs_status resp \<in> set (status_codes sig) then True
      else if location_contains sig \<noteq> []
              \<and> contains (hget (rs_header resp) ''Location'') (location_contains sig) then True
      else if body_contains sig \<noteq> [] \<and> contains body (body_contains sig) then True
      else False)"

section \<open>Expiry from a lifetime in seconds\<close>

text \<open>A reading of \<open>time.Now()\<close>.\<close>

type_synonym 'w ticker = "('w, gtime) io"

definition max_seconds :: "64 word" where
  "max_seconds = word_of_int (2 ^ 62 div 1000000000)"

text \<open>
  \<open>expiresAt\<close> (recipe.go 23-36): the product is taken in \<open>int64\<close> nanoseconds, where it
  would wrap without the clamp.
\<close>

definition expires_at :: "'w ticker \<Rightarrow> 64 word \<Rightarrow> ('w, gtime) io" where
  "expires_at tick expires_in w =
     (if sint expires_in \<le> 0 then (0, w)
      else
        let s = (if sint max_seconds < sint expires_in then max_seconds else expires_in);
            (now, w') = tick w
        in (now + sint (s * 1000000000 :: 64 word), w'))"

lemma sint_max_seconds: "sint max_seconds = 4611686018"
  by (simp add: max_seconds_def)

lemma sint_small: "0 \<le> k \<Longrightarrow> k < 2 ^ 63 \<Longrightarrow> sint (word_of_int k :: 64 word) = k"
  by (simp add: sint_sbintrunc' signed_take_bit_int_eq_self)

text \<open>Below the clamp the 64-bit product is the integer product.\<close>

lemma seconds_no_wrap:
  assumes "0 \<le> sint x" and "sint x \<le> 4611686018"
  shows "sint (x * 1000000000 :: 64 word) = sint x * 1000000000"
proof -
  have "x * 1000000000 = (word_of_int (sint x * 1000000000) :: 64 word)"
    by (simp flip: wi_hom_mult)
  then have "sint (x * 1000000000) = sint (word_of_int (sint x * 1000000000) :: 64 word)"
    by (rule arg_cong)
  also have "\<dots> = sint x * 1000000000"
    using assms by (intro sint_small) auto
  finally show ?thesis .
qed

lemma expires_at_unknown: "sint n \<le> 0 \<Longrightarrow> expires_at tick n w = (0, w)"
  by (simp add: expires_at_def)

lemma expires_at_known:
  assumes "0 < sint n"
  shows "fst (expires_at tick n w) = fst (tick w) + min (sint n) 4611686018 * 1000000000"
proof (cases "4611686018 < sint n")
  case True
  with assms show ?thesis
    by (simp add: expires_at_def Let_def sint_max_seconds seconds_no_wrap case_prod_beta)
next
  case False
  with assms show ?thesis
    by (simp add: expires_at_def Let_def sint_max_seconds seconds_no_wrap case_prod_beta)
qed

section \<open>The token response\<close>

text \<open>
  The structure that the form and OAuth logins decode a JSON body into.  A decoder is given the
  body stream, its bytes and the error that ends it early if one does, and gives the structure as
  it is left when decoding stops, with the error if there was one: \<open>encoding/json\<close> fills the
  fields it reached even when it reports an error.
\<close>

record token_payload =
  tp_access_token :: string
  tp_refresh_token :: string
  tp_expires_in :: "64 word"

type_synonym token_decoder = "string \<Rightarrow> gerror option \<Rightarrow> token_payload \<times> gerror option"

section \<open>The Recipe interface\<close>

record 'w recipe =
  r_identity :: string
  r_establish :: "('w, gerror + session) io"
  r_refresh :: "session option \<Rightarrow> ('w, gerror + session) io"
  r_logout :: logout_signature

text \<open>
  A session fit for identity \<open>i\<close>: it is that identity's, it carries a cookie or a token, and it
  pins no headers (the field \<open>Headers\<close> of a session is filled by no recipe).
\<close>

definition session_ok :: "string \<Rightarrow> session \<Rightarrow> bool" where
  "session_ok i s \<longleftrightarrow> s_identity s = i \<and> has_material s \<and> s_headers s = []"

lemma session_ok_expiry [simp]: "session_ok i (s\<lparr>s_expires_at := t\<rparr>) = session_ok i s"
  by (simp add: session_ok_def has_material_def)

text \<open>What the store relies on: a login that succeeds yields a session fit for the identity.\<close>

locale login_recipe =
  fixes r :: "'w recipe"
  assumes establish_ok: "r_establish r w = (Inr s, w') \<Longrightarrow> session_ok (r_identity r) s"
    and refresh_ok: "r_refresh r cur w = (Inr s, w') \<Longrightarrow> session_ok (r_identity r) s"

end
