(* ===== verification/Store.thy ===== *)
theory Store
  imports Recipe "HOL-Library.Multiset"
begin

text \<open>
  Component \<open>internal/store\<close>: the live session of every registered identity.  This theory
  has the state (\<open>entry\<close>, \<open>store\<close>), the short critical sections under \<open>sessMu\<close>
  (\<open>snapshot\<close>, \<open>set_session\<close>, \<open>commit\<close>, \<open>fail\<close>, \<open>rate_limited\<close>), and the operations
  \<open>Get\<close>, \<open>Refresh\<close>, \<open>RefreshExpiring\<close>, \<open>Identities\<close> and \<open>Health\<close> as one caller runs
  them.  Theory \<open>Flight\<close> interleaves the same critical sections between many callers.

  A session pointer is a pair of an address and the session it points to; sessions are never
  written after they are built, and every assignment of a new session takes the entry's next
  address, so comparing pointers is comparing addresses.
\<close>

section \<open>State\<close>

type_synonym sref = "nat \<times> session"

record 'w entry =
  e_recipe :: "'w recipe"
  e_session :: "sref option"
  e_stamps :: "gtime list"
  e_last_auth :: gtime
  e_last_err :: "gerror option"
  e_next :: nat

record 'w store =
  st_entries :: "(string, 'w entry) gomap"
  st_max_burst :: int
  st_window :: duration

definition new_entry :: "'w recipe \<Rightarrow> 'w entry" where
  "new_entry r = \<lparr>e_recipe = r, e_session = None, e_stamps = [], e_last_auth = 0,
     e_last_err = None, e_next = 0\<rparr>"

section \<open>Critical sections of an entry\<close>

definition snapshot :: "'w entry \<Rightarrow> sref option" where
  "snapshot e = e_session e"

definition set_session :: "session \<Rightarrow> 'w entry \<Rightarrow> 'w entry" where
  "set_session s e = e\<lparr>e_session := Some (e_next e, s), e_next := Suc (e_next e)\<rparr>"

definition commit :: "session \<Rightarrow> gtime \<Rightarrow> 'w entry \<Rightarrow> 'w entry" where
  "commit s now e =
     (set_session s e)\<lparr>e_last_auth := now, e_last_err := None\<rparr>"

definition fail :: "gerror \<Rightarrow> 'w entry \<Rightarrow> 'w entry" where
  "fail err e = e\<lparr>e_last_err := Some err\<rparr>"

definition prune_older_than :: "gtime list \<Rightarrow> gtime \<Rightarrow> gtime list" where
  "prune_older_than ts cutoff = filter (\<lambda>t. cutoff < t) ts"

definition rate_limited ::
  "int \<Rightarrow> duration \<Rightarrow> gtime \<Rightarrow> 'w entry \<Rightarrow> gerror option \<times> 'w entry" where
  "rate_limited max_burst window now e =
     (let e1 = e\<lparr>e_stamps := prune_older_than (e_stamps e) (now - window)\<rparr> in
      if max_burst \<le> int (length (e_stamps e1))
      then (Some (RateLimited (r_identity (e_recipe e)) max_burst window), e1)
      else (None, e1\<lparr>e_stamps := e_stamps e1 @ [now]\<rparr>))"

text \<open>Address comparison of two session pointers.\<close>

definition same_pointer :: "sref option \<Rightarrow> sref option \<Rightarrow> bool" where
  "same_pointer p q \<longleftrightarrow> map_option fst p = map_option fst q"

text \<open>
  The copy of a session whose refresh failed: \<open>time.Unix(0, 1)\<close> is one nanosecond after the
  Unix epoch, which is 62135596800 seconds after the zero time.
\<close>

definition stale_time :: gtime where
  "stale_time = 62135596800 * 1000000000 + 1"

definition stale_copy :: "session \<Rightarrow> session" where
  "stale_copy s = s\<lparr>s_expires_at := stale_time\<rparr>"

section \<open>Construction\<close>

definition with_backoff :: "int \<Rightarrow> duration \<Rightarrow> 'w store \<Rightarrow> 'w store" where
  "with_backoff max_burst window st =
     (let st1 = (if 0 < max_burst then st\<lparr>st_max_burst := max_burst\<rparr> else st)
      in if 0 < window then st1\<lparr>st_window := window\<rparr> else st1)"

definition store_new :: "('w store \<Rightarrow> 'w store) list \<Rightarrow> 'w store" where
  "store_new opts =
     foldl (\<lambda>s opt. opt s)
       \<lparr>st_entries = [], st_max_burst = 10, st_window = 60 * second\<rparr> opts"

definition register :: "'w recipe \<Rightarrow> 'w store \<Rightarrow> 'w store" where
  "register r st =
     st\<lparr>st_entries := AList.update (r_identity r) (new_entry r) (st_entries st)\<rparr>"

definition lookup :: "string \<Rightarrow> 'w store \<Rightarrow> gerror + 'w entry" where
  "lookup i st =
     (case map_of (st_entries st) i of None \<Rightarrow> Inl (UnknownIdentity i) | Some e \<Rightarrow> Inr e)"

definition put_entry :: "string \<Rightarrow> 'w entry \<Rightarrow> 'w store \<Rightarrow> 'w store" where
  "put_entry i e st = st\<lparr>st_entries := AList.update i e (st_entries st)\<rparr>"

section \<open>Get\<close>

text \<open>
  \<open>sess != nil && !sess.Expired(time.Now())\<close>: the clock is read only for a session that is
  there.
\<close>

definition check_live :: "'w ticker \<Rightarrow> sref option \<Rightarrow> ('w, bool) io" where
  "check_live tick p w =
     (case p of
        None \<Rightarrow> (False, w)
      | Some (_, s) \<Rightarrow> (let (now, w') = tick w in (\<not> expired s now, w')))"

text \<open>\<open>Get\<close> after \<open>flightMu.Lock()\<close> (store.go 151-181).\<close>

definition get_locked ::
  "'w ticker \<Rightarrow> int \<Rightarrow> duration \<Rightarrow> 'w entry \<Rightarrow> 'w \<Rightarrow> (gerror + session) \<times> 'w entry \<times> 'w" where
  "get_locked tick max_burst window e w =
     (let cur = snapshot e; (ok, w1) = check_live tick cur w in
      case cur of
        None \<Rightarrow>
          (case r_establish (e_recipe e) w1 of
             (Inl err, w2) \<Rightarrow> (Inl err, fail err e, w2)
           | (Inr s, w2) \<Rightarrow> (let (now, w3) = tick w2 in (Inr s, commit s now e, w3)))
      | Some (_, c) \<Rightarrow>
          if ok then (Inr c, e, w1)
          else
            (let (now, w2) = tick w1 in
             case rate_limited max_burst window now e of
               (Some err, e1) \<Rightarrow> (Inl err, e1, w2)
             | (None, e1) \<Rightarrow>
                 (case r_refresh (e_recipe e) (Some c) w2 of
                    (Inl err, w3) \<Rightarrow> (Inl err, fail err e1, w3)
                  | (Inr s, w3) \<Rightarrow> (let (now', w4) = tick w3 in (Inr s, commit s now' e1, w4)))))"

definition get_entry ::
  "'w ticker \<Rightarrow> int \<Rightarrow> duration \<Rightarrow> 'w entry \<Rightarrow> 'w \<Rightarrow> (gerror + session) \<times> 'w entry \<times> 'w" where
  "get_entry tick max_burst window e w =
     (let cur = snapshot e; (ok, w1) = check_live tick cur w in
      case cur of
        Some (_, s) \<Rightarrow> if ok then (Inr s, e, w1) else get_locked tick max_burst window e w1
      | None \<Rightarrow> get_locked tick max_burst window e w1)"

definition store_get ::
  "'w ticker \<Rightarrow> string \<Rightarrow> 'w store \<Rightarrow> 'w \<Rightarrow> (gerror + session) \<times> 'w store \<times> 'w" where
  "store_get tick i st w =
     (case lookup i st of
        Inl err \<Rightarrow> (Inl err, st, w)
      | Inr e \<Rightarrow>
          (let (r, e', w') = get_entry tick (st_max_burst st) (st_window st) e w
           in (r, put_entry i e' st, w')))"

section \<open>Refresh\<close>

text \<open>
  \<open>Refresh\<close> after \<open>flightMu.Lock()\<close> (store.go 201-227), for the pointer \<open>seen\<close> (\<open>before\<close> in the code) that was
  read before the lock was taken.  The result is the pointer that is returned.
\<close>

definition refresh_locked ::
  "'w ticker \<Rightarrow> int \<Rightarrow> duration \<Rightarrow> sref option \<Rightarrow> 'w entry \<Rightarrow> 'w
     \<Rightarrow> (gerror + session option) \<times> 'w entry \<times> 'w" where
  "refresh_locked tick max_burst window seen e w =
     (if \<not> same_pointer (snapshot e) seen then (Inr (map_option snd (snapshot e)), e, w)
      else
        (let (now, w1) = tick w in
         case rate_limited max_burst window now e of
           (Some err, e1) \<Rightarrow> (Inl err, e1, w1)
         | (None, e1) \<Rightarrow>
             (case r_refresh (e_recipe e) (map_option snd seen) w1 of
                (Inl err, w2) \<Rightarrow>
                  (Inl err,
                   (case seen of
                      None \<Rightarrow> fail err e1
                    | Some (_, b) \<Rightarrow> set_session (stale_copy b) (fail err e1)), w2)
              | (Inr s, w2) \<Rightarrow>
                  (let (now', w3) = tick w2 in (Inr (Some s), commit s now' e1, w3)))))"

definition store_refresh ::
  "'w ticker \<Rightarrow> string \<Rightarrow> 'w store \<Rightarrow> 'w \<Rightarrow> (gerror + session option) \<times> 'w store \<times> 'w" where
  "store_refresh tick i st w =
     (case lookup i st of
        Inl err \<Rightarrow> (Inl err, st, w)
      | Inr e \<Rightarrow>
          (let seen = snapshot e;
               (r, e', w') = refresh_locked tick (st_max_burst st) (st_window st) seen e w
           in (r, put_entry i e' st, w')))"

section \<open>Listings and the proactive refresh\<close>

record identity_health =
  h_name :: string
  h_established :: bool
  h_expires_at :: gtime
  h_last_refresh :: gtime
  h_last_error :: "gerror option"

definition identities :: "'w store \<Rightarrow> string list" where
  "identities st = sort (map fst (st_entries st))"

definition entry_health :: "string \<Rightarrow> 'w entry \<Rightarrow> identity_health" where
  "entry_health i e =
     (let h = \<lparr>h_name = i, h_established = False, h_expires_at = 0,
               h_last_refresh = e_last_auth e, h_last_error = e_last_err e\<rparr>
      in case e_session e of
           None \<Rightarrow> h
         | Some (_, s) \<Rightarrow> h\<lparr>h_established := True, h_expires_at := s_expires_at s\<rparr>)"

definition health :: "'w store \<Rightarrow> identity_health list" where
  "health st =
     map (\<lambda>i. entry_health i (the (map_of (st_entries st) i)))
         (sort (map fst (st_entries st)))"

text \<open>\<open>Time.Sub\<close> saturates at the bounds of the 64-bit \<open>Duration\<close>.\<close>

definition time_sub :: "gtime \<Rightarrow> gtime \<Rightarrow> duration" where
  "time_sub a b = max (- (2 ^ 63)) (min (2 ^ 63 - 1) (a - b))"

definition due :: "gtime \<Rightarrow> duration \<Rightarrow> identity_health \<Rightarrow> bool" where
  "due now within h \<longleftrightarrow>
     h_established h \<and> \<not> time_is_zero (h_expires_at h) \<and> time_sub (h_expires_at h) now < within"

fun refresh_due ::
  "'w ticker \<Rightarrow> gtime \<Rightarrow> duration \<Rightarrow> identity_health list \<Rightarrow> (string, gerror) gomap
     \<Rightarrow> 'w store \<Rightarrow> 'w \<Rightarrow> (string, gerror) gomap \<times> 'w store \<times> 'w" where
  "refresh_due tick now within [] errs st w = (errs, st, w)"
| "refresh_due tick now within (h # hs) errs st w =
     (if \<not> h_established h \<or> time_is_zero (h_expires_at h)
      then refresh_due tick now within hs errs st w
      else if time_sub (h_expires_at h) now < within then
        (case store_refresh tick (h_name h) st w of
           (Inl err, st', w') \<Rightarrow>
             refresh_due tick now within hs (AList.update (h_name h) err errs) st' w'
         | (Inr _, st', w') \<Rightarrow> refresh_due tick now within hs errs st' w')
      else refresh_due tick now within hs errs st w)"

definition refresh_expiring ::
  "'w ticker \<Rightarrow> duration \<Rightarrow> 'w store \<Rightarrow> 'w \<Rightarrow> (string, gerror) gomap \<times> 'w store \<times> 'w" where
  "refresh_expiring tick within st w =
     (let (now, w1) = tick w in refresh_due tick now within (health st) [] st w1)"

section \<open>What the critical sections leave of an entry\<close>

lemma set_session_simps [store_simps]:
  "e_session (set_session s e) = Some (e_next e, s)"
  "e_next (set_session s e) = Suc (e_next e)"
  "e_recipe (set_session s e) = e_recipe e"
  "e_stamps (set_session s e) = e_stamps e"
  "e_last_auth (set_session s e) = e_last_auth e"
  "e_last_err (set_session s e) = e_last_err e"
  by (simp_all add: set_session_def)

lemma commit_simps [store_simps]:
  "e_session (commit s now e) = Some (e_next e, s)"
  "e_next (commit s now e) = Suc (e_next e)"
  "e_recipe (commit s now e) = e_recipe e"
  "e_stamps (commit s now e) = e_stamps e"
  "e_last_auth (commit s now e) = now"
  "e_last_err (commit s now e) = None"
  by (simp_all add: commit_def set_session_def)

lemma fail_simps [store_simps]:
  "e_session (fail err e) = e_session e"
  "e_next (fail err e) = e_next e"
  "e_recipe (fail err e) = e_recipe e"
  "e_stamps (fail err e) = e_stamps e"
  "e_last_auth (fail err e) = e_last_auth e"
  "e_last_err (fail err e) = Some err"
  by (simp_all add: fail_def)

lemma rate_limited_frame:
  assumes "rate_limited mb win now e = (x, e')"
  shows "e_session e' = e_session e" "e_next e' = e_next e" "e_recipe e' = e_recipe e"
    "e_last_auth e' = e_last_auth e" "e_last_err e' = e_last_err e"
  using assms by (auto simp: rate_limited_def Let_def split: if_splits)

lemma rate_limited_admits:
  "rate_limited mb win now e = (None, e') \<longleftrightarrow>
     int (length (prune_older_than (e_stamps e) (now - win))) < mb \<and>
     e' = e\<lparr>e_stamps := prune_older_than (e_stamps e) (now - win) @ [now]\<rparr>"
  by (auto simp: rate_limited_def Let_def)

lemma rate_limited_rejects:
  "rate_limited mb win now e = (Some err, e') \<longleftrightarrow>
     mb \<le> int (length (prune_older_than (e_stamps e) (now - win))) \<and>
     err = RateLimited (r_identity (e_recipe e)) mb win \<and>
     e' = e\<lparr>e_stamps := prune_older_than (e_stamps e) (now - win)\<rparr>"
  by (auto simp: rate_limited_def Let_def)

text \<open>The stale copy is expired at every instant from the Unix epoch on.\<close>

lemma stale_copy_expired: "stale_time < now \<Longrightarrow> expired (stale_copy s) now"
  by (simp add: expired_def stale_copy_def stale_time_def)

lemma stale_copy_ok [simp]: "session_ok i (stale_copy s) = session_ok i s"
  by (simp add: stale_copy_def)

lemma same_pointer_refl [simp]: "same_pointer p p"
  by (simp add: same_pointer_def)

section \<open>The sliding window\<close>

text \<open>
  \<open>in_window t win ts\<close> counts the instants of \<open>ts\<close> in the half-open window of length
  \<open>win\<close> that ends at \<open>t\<close>.  The stamps of an entry are the admitted instants that were
  still inside the window when the limiter last ran.
\<close>

definition in_window :: "gtime \<Rightarrow> duration \<Rightarrow> gtime list \<Rightarrow> nat" where
  "in_window t win ts = length (filter (\<lambda>x. t - win < x \<and> x \<le> t) ts)"

definition window_inv :: "int \<Rightarrow> duration \<Rightarrow> gtime \<Rightarrow> gtime list \<Rightarrow> gtime list \<Rightarrow> bool" where
  "window_inv mb win prev admitted stamps \<longleftrightarrow>
     stamps = prune_older_than admitted (prev - win) \<and> (\<forall>x \<in> set admitted. x \<le> prev) \<and>
     (\<forall>t. int (in_window t win admitted) \<le> mb)"

lemma prune_prune:
  "c \<le> d \<Longrightarrow> prune_older_than (prune_older_than ts c) d = prune_older_than ts d"
  by (simp add: prune_older_than_def) (rule filter_cong, auto)

lemma window_inv_start: "0 \<le> mb \<Longrightarrow> window_inv mb win prev [] []"
  by (simp add: window_inv_def in_window_def prune_older_than_def)

lemma window_inv_reject:
  assumes "window_inv mb win prev admitted stamps" and "prev \<le> now"
  shows "window_inv mb win now admitted (prune_older_than stamps (now - win))"
  using assms by (auto simp: window_inv_def prune_prune)

lemma window_inv_admit:
  assumes inv: "window_inv mb win prev admitted stamps" and le: "prev \<le> now" and win: "0 < win"
    and room: "int (length (prune_older_than stamps (now - win))) < mb"
  shows "window_inv mb win now (admitted @ [now]) (prune_older_than stamps (now - win) @ [now])"
proof -
  have st: "prune_older_than stamps (now - win) = prune_older_than admitted (now - win)"
    using inv le by (simp add: window_inv_def prune_prune)
  have "int (in_window t win (admitted @ [now])) \<le> mb" for t
  proof (cases "t - win < now \<and> now \<le> t")
    case True
    then have "in_window t win admitted \<le> length (prune_older_than admitted (now - win))"
      unfolding in_window_def prune_older_than_def by (intro filter_subset_length) auto
    with True room st show ?thesis by (simp add: in_window_def)
  next
    case False
    with inv show ?thesis by (auto simp: in_window_def window_inv_def)
  qed
  with inv le win st show ?thesis
    by (auto simp: window_inv_def prune_older_than_def)
qed

lemma rate_limited_window:
  assumes "rate_limited mb win now e = (x, e')" and "window_inv mb win prev admitted (e_stamps e)"
    and "prev \<le> now" and "0 < win"
  shows "window_inv mb win now (if x = None then admitted @ [now] else admitted) (e_stamps e')"
proof (cases x)
  case None
  with assms show ?thesis by (simp add: rate_limited_admits window_inv_admit)
next
  case (Some err)
  with assms show ?thesis by (simp add: rate_limited_rejects window_inv_reject)
qed

section \<open>The branches of Get and Refresh\<close>

lemma check_live_cases:
  "check_live tick p w = (ok, w') \<Longrightarrow> ok \<Longrightarrow>
   \<exists>a s. p = Some (a, s) \<and> \<not> expired s (fst (tick w))"
  by (auto simp: check_live_def case_prod_beta Let_def split: option.splits)

text \<open>Everything \<open>get_locked\<close> can do, as one case rule.\<close>

lemma get_locked_cases:
  assumes "get_locked tick mb win e w = (x, e', w')"
  obtains
    (cached) a s v where "e_session e = Some (a, s)" "\<not> expired s (fst (tick v))" "x = Inr s" "e' = e"
  | (establish_failed) v err where "e_session e = None"
      "r_establish (e_recipe e) v = (Inl err, w')" "x = Inl err" "e' = fail err e"
  | (established) v u s now where "e_session e = None"
      "r_establish (e_recipe e) v = (Inr s, u)" "x = Inr s" "e' = commit s now e"
  | (limited) a s now err where "e_session e = Some (a, s)"
      "rate_limited mb win now e = (Some err, e')" "x = Inl err"
      "\<exists>u. now = fst (tick u)" "\<exists>u. expired s (fst (tick u))"
  | (refresh_failed) a s now e1 v err where "e_session e = Some (a, s)"
      "rate_limited mb win now e = (None, e1)"
      "r_refresh (e_recipe e) (Some s) v = (Inl err, w')" "x = Inl err" "e' = fail err e1"
      "\<exists>u. now = fst (tick u)" "\<exists>u. expired s (fst (tick u))"
  | (refreshed) a s now e1 v u s' now' where "e_session e = Some (a, s)"
      "rate_limited mb win now e = (None, e1)"
      "r_refresh (e_recipe e) (Some s) v = (Inr s', u)" "x = Inr s'" "e' = commit s' now' e1"
      "\<exists>z. now = fst (tick z)" "\<exists>z. expired s (fst (tick z))"
proof (cases "e_session e")
  case None
  with assms show ?thesis
    by (auto simp: get_locked_def snapshot_def check_live_def Let_def split: prod.splits sum.splits
        intro: establish_failed established)
next
  case (Some p)
  obtain a s where p: "p = (a, s)" by (cases p)
  obtain ok w1 where live: "check_live tick (e_session e) w = (ok, w1)" by fastforce
  show ?thesis
  proof (cases ok)
    case True
    with live check_live_cases obtain b t where "e_session e = Some (b, t)" "\<not> expired t (fst (tick w))"
      by metis
    with Some p True live assms show ?thesis
      by (auto simp: get_locked_def snapshot_def Let_def intro: cached)
  next
    case False
    have dead: "\<exists>u. expired s (fst (tick u))"
      using live False Some p by (auto simp: check_live_def case_prod_beta)
    obtain now w2 where t: "tick w1 = (now, w2)" by fastforce
    then have t': "\<exists>u. now = fst (tick u)" by (metis fst_conv)
    obtain l e1 where l: "rate_limited mb win now e = (l, e1)" by fastforce
    obtain q w3 where q: "r_refresh (e_recipe e) (Some s) w2 = (q, w3)" by fastforce
    from Some p have es: "e_session e = Some (a, s)" by simp
    show ?thesis
    proof (cases l)
      case (Some err)
      from limited [OF es _ _ t' dead] Some False es live t l assms show ?thesis
        by (auto simp: get_locked_def snapshot_def Let_def)
    next
      case None
      from refresh_failed [OF es _ _ _ _ t' dead] refreshed [OF es _ _ _ _ t' dead]
        None False es live t l q assms show ?thesis
        by (cases q) (auto simp: get_locked_def snapshot_def Let_def split: prod.splits)
    qed
  qed
qed

lemma get_entry_cases:
  assumes "get_entry tick mb win e w = (x, e', w')"
  obtains
    (fast) a s where "e_session e = Some (a, s)" "\<not> expired s (fst (tick w))" "x = Inr s" "e' = e"
  | (slow) v where "get_locked tick mb win e v = (x, e', w')"
      "\<And>a s. e_session e = Some (a, s) \<Longrightarrow> expired s (fst (tick w))"
proof (cases "check_live tick (e_session e) w")
  case (Pair ok w1)
  show ?thesis
  proof (cases "e_session e = None \<or> \<not> ok")
    case True
    then have dead: "expired s (fst (tick w))" if "e_session e = Some (a, s)" for a s
      using Pair that by (auto simp: check_live_def case_prod_beta)
    from True Pair assms have "get_locked tick mb win e w1 = (x, e', w')"
      by (auto simp: get_entry_def snapshot_def Let_def split: option.splits)
    then show ?thesis by (rule slow) (rule dead)
  next
    case False
    with Pair check_live_cases [OF Pair] assms show ?thesis
      by (auto simp: get_entry_def snapshot_def Let_def intro: fast)
  qed
qed

text \<open>Everything \<open>refresh_locked\<close> can do.\<close>

lemma refresh_locked_cases:
  assumes "refresh_locked tick mb win seen e w = (x, e', w')"
  obtains
    (adopted) "\<not> same_pointer (e_session e) seen" "x = Inr (map_option snd (e_session e))" "e' = e"
  | (limited) now err where "same_pointer (e_session e) seen"
      "rate_limited mb win now e = (Some err, e')" "x = Inl err" "\<exists>u. now = fst (tick u)"
  | (failed) now e1 v err where "same_pointer (e_session e) seen"
      "rate_limited mb win now e = (None, e1)"
      "r_refresh (e_recipe e) (map_option snd seen) v = (Inl err, w')" "x = Inl err"
      "e' = (case seen of None \<Rightarrow> fail err e1
             | Some (_, b) \<Rightarrow> set_session (stale_copy b) (fail err e1))" "\<exists>u. now = fst (tick u)"
  | (refreshed) now e1 v u s now' where "same_pointer (e_session e) seen"
      "rate_limited mb win now e = (None, e1)"
      "r_refresh (e_recipe e) (map_option snd seen) v = (Inr s, u)" "x = Inr (Some s)"
      "e' = commit s now' e1" "\<exists>z. now = fst (tick z)"
proof (cases "same_pointer (e_session e) seen")
  case False
  with assms show ?thesis by (auto simp: refresh_locked_def snapshot_def intro: adopted)
next
  case True
  obtain now w1 where t: "tick w = (now, w1)" by fastforce
  then have t': "\<exists>u. now = fst (tick u)" by (metis fst_conv)
  obtain l e1 where l: "rate_limited mb win now e = (l, e1)" by fastforce
  obtain q w2 where q: "r_refresh (e_recipe e) (map_option snd seen) w1 = (q, w2)" by fastforce
  show ?thesis
  proof (cases l)
    case (Some err)
    from limited [OF _ _ _ t'] Some True t l assms show ?thesis
      by (auto simp: refresh_locked_def snapshot_def Let_def)
  next
    case None
    from failed [OF _ _ _ _ _ t'] refreshed [OF _ _ _ _ _ t'] None True t l q assms show ?thesis
      by (cases q) (auto simp: refresh_locked_def snapshot_def Let_def split: prod.splits)
  qed
qed

section \<open>Reading and writing entries of the store\<close>

lemma lookup_put [store_simps]:
  "lookup j (put_entry i e st) = (if j = i then Inr e else lookup j st)"
  by (simp add: lookup_def put_entry_def)

lemma put_entry_simps [store_simps]:
  "st_max_burst (put_entry i e st) = st_max_burst st"
  "st_window (put_entry i e st) = st_window st"
  by (simp_all add: put_entry_def)

lemma lookup_unknown: "lookup i st = Inl err \<Longrightarrow> err = UnknownIdentity i"
  by (auto simp: lookup_def split: option.splits)

lemma lookup_keys: "lookup i st = Inr e \<Longrightarrow> i \<in> fst ` set (st_entries st)"
  by (auto simp: lookup_def split: option.splits dest: map_of_SomeD_key)

lemma keys_put_entry:
  "lookup i st = Inr e \<Longrightarrow> map fst (st_entries (put_entry i e' st)) = map fst (st_entries st)"
  by (simp add: put_entry_def keys_update_present lookup_keys)

lemma store_get_cases:
  assumes "store_get tick i st w = (x, st', w')"
  obtains
    (unknown) "lookup i st = Inl (UnknownIdentity i)" "x = Inl (UnknownIdentity i)" "st' = st" "w' = w"
  | (known) e e' where "lookup i st = Inr e"
      "get_entry tick (st_max_burst st) (st_window st) e w = (x, e', w')" "st' = put_entry i e' st"
  using assms
  by (cases "lookup i st")
    (auto simp: store_get_def dest: lookup_unknown split: prod.splits intro: unknown known)

lemma store_refresh_cases:
  assumes "store_refresh tick i st w = (x, st', w')"
  obtains
    (unknown) "lookup i st = Inl (UnknownIdentity i)" "x = Inl (UnknownIdentity i)" "st' = st" "w' = w"
  | (known) e e' where "lookup i st = Inr e"
      "refresh_locked tick (st_max_burst st) (st_window st) (e_session e) e w = (x, e', w')"
      "st' = put_entry i e' st"
  using assms
  by (cases "lookup i st")
    (auto simp: store_refresh_def snapshot_def Let_def dest: lookup_unknown split: prod.splits
      intro: unknown known)

text \<open>Neither operation touches another identity, nor the set of identities.\<close>

lemma store_get_other: "store_get tick i st w = (x, st', w') \<Longrightarrow> j \<noteq> i \<Longrightarrow> lookup j st' = lookup j st"
  by (erule store_get_cases) (simp_all add: store_simps)

lemma store_refresh_other:
  "store_refresh tick i st w = (x, st', w') \<Longrightarrow> j \<noteq> i \<Longrightarrow> lookup j st' = lookup j st"
  by (erule store_refresh_cases) (simp_all add: store_simps)

lemma store_get_keys:
  "store_get tick i st w = (x, st', w') \<Longrightarrow> map fst (st_entries st') = map fst (st_entries st)"
  by (erule store_get_cases) (simp_all add: keys_put_entry)

lemma store_refresh_keys:
  "store_refresh tick i st w = (x, st', w') \<Longrightarrow> map fst (st_entries st') = map fst (st_entries st)"
  by (erule store_refresh_cases) (simp_all add: keys_put_entry)

section \<open>What a store promises when its recipes keep their contract\<close>

definition sessions_ok :: "string \<Rightarrow> 'w entry \<Rightarrow> bool" where
  "sessions_ok i e \<longleftrightarrow> (\<forall>a s. e_session e = Some (a, s) \<longrightarrow> session_ok i s)"

lemma sessions_ok_simps [simp]:
  "sessions_ok i (fail err e) = sessions_ok i e"
  "sessions_ok i (commit s now e) = session_ok i s"
  "sessions_ok i (set_session s e) = session_ok i s"
  "sessions_ok i (new_entry r)"
  by (simp_all add: sessions_ok_def store_simps new_entry_def)

lemma rate_limited_sessions_ok:
  "rate_limited mb win now e = (x, e') \<Longrightarrow> sessions_ok i e' = sessions_ok i e"
  by (simp add: sessions_ok_def rate_limited_frame)

context login_recipe
begin

lemma get_locked_ok:
  assumes "get_locked tick mb win e w = (x, e', w')" and "e_recipe e = r"
    and "sessions_ok (r_identity r) e"
  shows "e_recipe e' = r \<and> sessions_ok (r_identity r) e' \<and> (\<forall>s. x = Inr s \<longrightarrow> session_ok (r_identity r) s)"
  using assms(1)
proof (cases rule: get_locked_cases)
  case (cached a s v)
  with assms show ?thesis by (auto simp: sessions_ok_def)
next
  case (established v u s now)
  with assms establish_ok show ?thesis by (simp add: store_simps)
next
  case (limited a s now err)
  with assms show ?thesis
    by (metis Inl_Inr_False rate_limited_frame(3) rate_limited_sessions_ok)
next
  case (refresh_failed a s now e1 v err)
  with assms show ?thesis
    by (simp add: store_simps rate_limited_frame(3) rate_limited_sessions_ok)
next
  case (refreshed a s now e1 v u s' now')
  with assms refresh_ok show ?thesis by (simp add: store_simps rate_limited_frame(3))
qed (use assms in \<open>simp add: store_simps\<close>)

lemma get_entry_ok:
  assumes "get_entry tick mb win e w = (x, e', w')" and "e_recipe e = r"
    and "sessions_ok (r_identity r) e"
  shows "e_recipe e' = r \<and> sessions_ok (r_identity r) e' \<and> (\<forall>s. x = Inr s \<longrightarrow> session_ok (r_identity r) s)"
  using assms(1)
proof (cases rule: get_entry_cases)
  case (fast a s)
  with assms show ?thesis by (auto simp: sessions_ok_def)
next
  case (slow v)
  with assms get_locked_ok show ?thesis by blast
qed

lemma refresh_locked_keeps:
  assumes "refresh_locked tick mb win (e_session e) e w = (x, e', w')" and "e_recipe e = r"
    and "sessions_ok (r_identity r) e"
  shows "e_recipe e' = r \<and> sessions_ok (r_identity r) e' \<and>
    (\<forall>s. x = Inr (Some s) \<longrightarrow> session_ok (r_identity r) s)"
  using assms(1)
proof (cases rule: refresh_locked_cases)
  case adopted
  then show ?thesis by simp
next
  case (limited now err)
  with assms show ?thesis
    by (metis Inl_Inr_False rate_limited_frame(3) rate_limited_sessions_ok)
next
  case (failed now e1 v err)
  then have "sessions_ok (r_identity r) e1" "e_recipe e1 = r"
    using assms by (simp_all add: rate_limited_sessions_ok rate_limited_frame(3))
  with failed assms(3) show ?thesis
    by (cases "e_session e") (auto simp: store_simps sessions_ok_def [of _ e])
next
  case (refreshed now e1 v u s now')
  with assms refresh_ok show ?thesis by (auto simp: store_simps rate_limited_frame(3))
qed

end

definition entry_ok :: "string \<Rightarrow> 'w entry \<Rightarrow> bool" where
  "entry_ok i e \<longleftrightarrow>
     login_recipe (e_recipe e) \<and> r_identity (e_recipe e) = i \<and> sessions_ok i e"

definition store_ok :: "'w store \<Rightarrow> bool" where
  "store_ok st \<longleftrightarrow>
     distinct (map fst (st_entries st)) \<and> (\<forall>i e. lookup i st = Inr e \<longrightarrow> entry_ok i e)"

lemma store_ok_lookup: "store_ok st \<Longrightarrow> lookup i st = Inr e \<Longrightarrow> entry_ok i e"
  by (simp add: store_ok_def)

lemma store_ok_put:
  "store_ok st \<Longrightarrow> lookup i st = Inr e \<Longrightarrow> entry_ok i e' \<Longrightarrow> store_ok (put_entry i e' st)"
  by (auto simp: store_ok_def store_simps keys_put_entry split: if_splits)

lemma store_ok_new: "store_ok (store_new [with_backoff b d])"
  by (simp add: store_ok_def store_new_def with_backoff_def Let_def lookup_def)

lemma lookup_register [store_simps]:
  "lookup j (register r st) = (if j = r_identity r then Inr (new_entry r) else lookup j st)"
  by (simp add: lookup_def register_def)

lemma store_ok_register:
  assumes "store_ok st" and "login_recipe r"
  shows "store_ok (register r st)"
proof -
  have "entry_ok (r_identity r) (new_entry r)"
    using assms(2) by (simp add: entry_ok_def) (simp add: new_entry_def)
  with assms(1) have "lookup i (register r st) = Inr e \<Longrightarrow> entry_ok i e" for i e
    by (auto simp: store_ok_def lookup_register split: if_splits)
  moreover have "distinct (map fst (st_entries (register r st)))"
    using assms(1) by (simp add: store_ok_def register_def distinct_update)
  ultimately show ?thesis by (simp add: store_ok_def)
qed

lemma get_entry_entry_ok:
  assumes "get_entry tick mb win e w = (x, e', w')" and "entry_ok i e"
  shows "entry_ok i e' \<and> (\<forall>s. x = Inr s \<longrightarrow> session_ok i s)"
  using assms login_recipe.get_entry_ok [of "e_recipe e" tick mb win e w x e' w']
  by (auto simp: entry_ok_def)

lemma refresh_locked_entry_ok:
  assumes "refresh_locked tick mb win (e_session e) e w = (x, e', w')" and "entry_ok i e"
  shows "entry_ok i e' \<and> (\<forall>s. x = Inr (Some s) \<longrightarrow> session_ok i s)"
  using assms login_recipe.refresh_locked_keeps [of "e_recipe e" tick mb win e w x e' w']
  by (auto simp: entry_ok_def)

lemma store_get_ok:
  assumes "store_get tick i st w = (x, st', w')" and "store_ok st"
  shows "store_ok st'" and "x = Inr s \<Longrightarrow> session_ok i s"
proof -
  have "store_ok st' \<and> (x = Inr s \<longrightarrow> session_ok i s)"
    using assms(1)
  proof (cases rule: store_get_cases)
    case unknown
    with assms(2) show ?thesis by simp
  next
    case (known e e')
    with assms(2) have "entry_ok i e" by (simp add: store_ok_lookup)
    with known assms(2) get_entry_entry_ok [OF known(2)] store_ok_put show ?thesis by blast
  qed
  then show "store_ok st'" and "x = Inr s \<Longrightarrow> session_ok i s" by blast+
qed

lemma store_refresh_ok:
  assumes "store_refresh tick i st w = (x, st', w')" and "store_ok st"
  shows "store_ok st'" and "x = Inr (Some s) \<Longrightarrow> session_ok i s"
proof -
  have "store_ok st' \<and> (x = Inr (Some s) \<longrightarrow> session_ok i s)"
    using assms(1)
  proof (cases rule: store_refresh_cases)
    case unknown
    with assms(2) show ?thesis by simp
  next
    case (known e e')
    with assms(2) have "entry_ok i e" by (simp add: store_ok_lookup)
    with known assms(2) refresh_locked_entry_ok [OF known(2)] store_ok_put show ?thesis by blast
  qed
  then show "store_ok st'" and "x = Inr (Some s) \<Longrightarrow> session_ok i s" by blast+
qed

text \<open>The loop of \<open>RefreshExpiring\<close> either skips a record or refreshes its identity.\<close>

lemma refresh_due_skip:
  "\<not> due now within h \<Longrightarrow>
   refresh_due tick now within (h # hs) errs st w = refresh_due tick now within hs errs st w"
  by (auto simp: due_def)

lemma refresh_due_step:
  assumes "due now within h" and "store_refresh tick (h_name h) st w = (x, st1, w1)"
  shows "refresh_due tick now within (h # hs) errs st w =
    refresh_due tick now within hs
      (case x of Inl err \<Rightarrow> AList.update (h_name h) err errs | Inr _ \<Rightarrow> errs) st1 w1"
  using assms by (cases x) (auto simp: due_def)

lemma refresh_due_ok:
  "refresh_due tick now within hs errs st w = (errs', st', w') \<Longrightarrow> store_ok st \<Longrightarrow> store_ok st'"
proof (induction hs arbitrary: errs st w)
  case Nil
  then show ?case by simp
next
  case (Cons h hs)
  show ?case
  proof (cases "due now within h")
    case False
    with Cons show ?thesis by (metis refresh_due_skip)
  next
    case True
    obtain x st1 w1 where step: "store_refresh tick (h_name h) st w = (x, st1, w1)"
      by (metis prod_cases3)
    with Cons True show ?thesis by (metis refresh_due_step store_refresh_ok(1))
  qed
qed

section \<open>Facts about the proactive refresh and the listings\<close>

text \<open>An identity that no due health record names keeps its entry.\<close>

lemma refresh_due_frame:
  "refresh_due tick now within hs errs st w = (errs', st', w') \<Longrightarrow>
   (\<And>h. h \<in> set hs \<Longrightarrow> h_name h = i \<Longrightarrow> \<not> due now within h) \<Longrightarrow> lookup i st' = lookup i st"
proof (induction hs arbitrary: errs st w)
  case Nil
  then show ?case by simp
next
  case (Cons h hs)
  show ?case
  proof (cases "due now within h")
    case False
    with Cons show ?thesis by (metis list.set_intros(2) refresh_due_skip)
  next
    case True
    with Cons.prems(2) have ne: "i \<noteq> h_name h" by auto
    obtain x st1 w1 where step: "store_refresh tick (h_name h) st w = (x, st1, w1)"
      by (metis prod_cases3)
    from Cons.IH [OF Cons.prems(1) [unfolded refresh_due_step [OF True step]]] Cons.prems(2)
    have "lookup i st' = lookup i st1" by simp
    with store_refresh_other [OF step ne] show ?thesis by simp
  qed
qed

text \<open>Every error reported is of a due identity or was there before.\<close>

lemma refresh_due_errors:
  "refresh_due tick now within hs errs st w = (errs', st', w') \<Longrightarrow>
   fst ` set errs' \<subseteq> fst ` set errs \<union> h_name ` {h \<in> set hs. due now within h}"
proof (induction hs arbitrary: errs st w)
  case Nil
  then show ?case by simp
next
  case (Cons h hs)
  show ?case
  proof (cases "due now within h")
    case False
    with Cons.IH [OF Cons.prems(1) [unfolded refresh_due_skip [OF False]]] show ?thesis by auto
  next
    case True
    obtain x st1 w1 where step: "store_refresh tick (h_name h) st w = (x, st1, w1)"
      by (metis prod_cases3)
    from Cons.IH [OF Cons.prems(1) [unfolded refresh_due_step [OF True step]]] True
    show ?thesis by (auto simp: dom_update split: sum.splits)
  qed
qed

lemma health_names: "map h_name (health st) = identities st"
  by (simp add: health_def identities_def entry_health_def Let_def o_def split: option.splits)
    (simp add: case_prod_beta map_idI split: option.splits)

lemma health_member:
  assumes "distinct (map fst (st_entries st))" and "h \<in> set (health st)"
  obtains e where "lookup (h_name h) st = Inr e" "h = entry_health (h_name h) e"
proof -
  from assms(2) obtain i where i: "i \<in> fst ` set (st_entries st)"
    "h = entry_health i (the (map_of (st_entries st) i))"
    by (auto simp: health_def)
  then obtain e where e: "map_of (st_entries st) i = Some e"
    by (metis map_of_eq_None_iff not_None_eq)
  with i(2) have "h_name h = i" by (auto simp: entry_health_def Let_def split: option.splits)
  with e i(2) show ?thesis by (intro that [of e]) (auto simp: lookup_def)
qed

lemma sort_mset_eq: "mset xs = mset ys \<Longrightarrow> sort xs = sort (ys :: string list)"
  by (rule properties_for_sort) simp_all

end
