(* ===== verification/Flight.thy ===== *)
theory Flight
  imports Store
begin

text \<open>
  Component \<open>internal/store\<close> under concurrency: any number of goroutines (numbered by
  \<open>nat\<close>) call \<open>Get\<close> and \<open>Refresh\<close> on one entry.  Each step is one critical section under
  \<open>sessMu\<close> (the same \<open>snapshot\<close>, \<open>rate_limited\<close>, \<open>commit\<close>, \<open>fail\<close> and
  \<open>set_session\<close> that \<open>Store\<close> composes), one operation on \<open>flightMu\<close>, or the start or the
  end of a call of the recipe; between two steps any other goroutine may run.

  What a recipe returns is arbitrary, and so is every clock reading, except that the readings
  handed to the rate limiter do not decrease: they are taken while \<open>flightMu\<close> is held, and Go's
  \<open>time.Now\<close> carries a monotonic reading.  The calls made of the recipe are recorded in
  \<open>f_calls\<close>, which no step reads.
\<close>

section \<open>Program counters, calls and states\<close>

type_synonym outcome = "gerror + sref option"

datatype pc =
    Idle
  | GetWaiting
  | GetRecheck
  | GetEstablishing
  | GetLimiting sref
  | GetRefreshing sref
  | GetFailing gerror
  | GetCommitting session
  | RefWaiting "sref option"
  | RefRecheck "sref option"
  | RefLimiting "sref option"
  | RefRefreshing "sref option"
  | RefFailing "sref option" gerror
  | RefRetiring sref gerror
  | RefCommitting "sref option" session
  | Unlocking outcome
  | Finished outcome

text \<open>A call of the recipe: establish, or refresh from \<open>Get\<close> or \<open>Refresh\<close> admitted at an instant.\<close>

datatype call =
    CallEstablish
  | CallRefreshGet gtime sref
  | CallRefresh gtime "sref option"

record 'w flight =
  f_entry :: "'w entry"
  f_holder :: "nat option"
  f_pc :: "nat \<Rightarrow> pc"
  f_limit_at :: gtime
  f_calls :: "call list"

definition flight_init :: "'w recipe \<Rightarrow> 'w flight" where
  "flight_init r = \<lparr>f_entry = new_entry r, f_holder = None, f_pc = (\<lambda>_. Idle),
     f_limit_at = 0, f_calls = []\<rparr>"

definition goto :: "nat \<Rightarrow> pc \<Rightarrow> 'w flight \<Rightarrow> 'w flight" where
  "goto i p s = s\<lparr>f_pc := (f_pc s)(i := p)\<rparr>"

definition limiter_ran :: "gtime \<Rightarrow> 'w entry \<Rightarrow> 'w flight \<Rightarrow> 'w flight" where
  "limiter_ran now e s = s\<lparr>f_entry := e, f_limit_at := now\<rparr>"

definition record_call :: "call \<Rightarrow> 'w flight \<Rightarrow> 'w flight" where
  "record_call c s = s\<lparr>f_calls := f_calls s @ [c]\<rparr>"

text \<open>A session that the fast path and the re-check serve.\<close>

definition servable :: "sref option \<Rightarrow> gtime \<Rightarrow> bool" where
  "servable p now \<longleftrightarrow> (case p of None \<Rightarrow> False | Some (_, x) \<Rightarrow> \<not> expired x now)"

section \<open>Steps\<close>

inductive flight_step :: "int \<Rightarrow> duration \<Rightarrow> 'w flight \<Rightarrow> 'w flight \<Rightarrow> bool"
  for mb :: int and win :: duration where
  get_fast_hit: "f_pc s i = Idle \<Longrightarrow> servable (snapshot (f_entry s)) now \<Longrightarrow>
    flight_step mb win s (goto i (Finished (Inr (snapshot (f_entry s)))) s)"
| get_fast_miss: "f_pc s i = Idle \<Longrightarrow> \<not> servable (snapshot (f_entry s)) now \<Longrightarrow>
    flight_step mb win s (goto i GetWaiting s)"
| get_lock: "f_pc s i = GetWaiting \<Longrightarrow> f_holder s = None \<Longrightarrow>
    flight_step mb win s (goto i GetRecheck (s\<lparr>f_holder := Some i\<rparr>))"
| get_recheck_hit: "f_pc s i = GetRecheck \<Longrightarrow> servable (snapshot (f_entry s)) now \<Longrightarrow>
    flight_step mb win s (goto i (Unlocking (Inr (snapshot (f_entry s)))) s)"
| get_first_use: "f_pc s i = GetRecheck \<Longrightarrow> snapshot (f_entry s) = None \<Longrightarrow>
    flight_step mb win s (goto i GetEstablishing (record_call CallEstablish s))"
| get_expired: "f_pc s i = GetRecheck \<Longrightarrow> snapshot (f_entry s) = Some p \<Longrightarrow>
    expired (snd p) now \<Longrightarrow> flight_step mb win s (goto i (GetLimiting p) s)"
| get_admitted: "f_pc s i = GetLimiting p \<Longrightarrow> f_limit_at s \<le> now \<Longrightarrow>
    rate_limited mb win now (f_entry s) = (None, e) \<Longrightarrow>
    flight_step mb win s
      (goto i (GetRefreshing p) (record_call (CallRefreshGet now p) (limiter_ran now e s)))"
| get_rejected: "f_pc s i = GetLimiting p \<Longrightarrow> f_limit_at s \<le> now \<Longrightarrow>
    rate_limited mb win now (f_entry s) = (Some err, e) \<Longrightarrow>
    flight_step mb win s (goto i (Unlocking (Inl err)) (limiter_ran now e s))"
| get_establish_returns: "f_pc s i = GetEstablishing \<Longrightarrow>
    flight_step mb win s
      (goto i (case r of Inl err \<Rightarrow> GetFailing err | Inr x \<Rightarrow> GetCommitting x) s)"
| get_refresh_returns: "f_pc s i = GetRefreshing p \<Longrightarrow>
    flight_step mb win s
      (goto i (case r of Inl err \<Rightarrow> GetFailing err | Inr x \<Rightarrow> GetCommitting x) s)"
| get_fails: "f_pc s i = GetFailing err \<Longrightarrow>
    flight_step mb win s
      (goto i (Unlocking (Inl err)) (s\<lparr>f_entry := fail err (f_entry s)\<rparr>))"
| get_commits: "f_pc s i = GetCommitting x \<Longrightarrow>
    flight_step mb win s
      (goto i (Unlocking (Inr (Some (e_next (f_entry s), x))))
        (s\<lparr>f_entry := commit x now (f_entry s)\<rparr>))"
| ref_begin: "f_pc s i = Idle \<Longrightarrow>
    flight_step mb win s (goto i (RefWaiting (snapshot (f_entry s))) s)"
| ref_lock: "f_pc s i = RefWaiting b \<Longrightarrow> f_holder s = None \<Longrightarrow>
    flight_step mb win s (goto i (RefRecheck b) (s\<lparr>f_holder := Some i\<rparr>))"
| ref_adopt: "f_pc s i = RefRecheck b \<Longrightarrow> \<not> same_pointer (snapshot (f_entry s)) b \<Longrightarrow>
    flight_step mb win s (goto i (Unlocking (Inr (snapshot (f_entry s)))) s)"
| ref_unchanged: "f_pc s i = RefRecheck b \<Longrightarrow> same_pointer (snapshot (f_entry s)) b \<Longrightarrow>
    flight_step mb win s (goto i (RefLimiting b) s)"
| ref_admitted: "f_pc s i = RefLimiting b \<Longrightarrow> f_limit_at s \<le> now \<Longrightarrow>
    rate_limited mb win now (f_entry s) = (None, e) \<Longrightarrow>
    flight_step mb win s
      (goto i (RefRefreshing b) (record_call (CallRefresh now b) (limiter_ran now e s)))"
| ref_rejected: "f_pc s i = RefLimiting b \<Longrightarrow> f_limit_at s \<le> now \<Longrightarrow>
    rate_limited mb win now (f_entry s) = (Some err, e) \<Longrightarrow>
    flight_step mb win s (goto i (Unlocking (Inl err)) (limiter_ran now e s))"
| ref_refresh_returns: "f_pc s i = RefRefreshing b \<Longrightarrow>
    flight_step mb win s
      (goto i (case r of Inl err \<Rightarrow> RefFailing b err | Inr x \<Rightarrow> RefCommitting b x) s)"
| ref_fails: "f_pc s i = RefFailing b err \<Longrightarrow>
    flight_step mb win s
      (goto i (case b of None \<Rightarrow> Unlocking (Inl err) | Some p \<Rightarrow> RefRetiring p err)
        (s\<lparr>f_entry := fail err (f_entry s)\<rparr>))"
| ref_retires: "f_pc s i = RefRetiring p err \<Longrightarrow>
    flight_step mb win s
      (goto i (Unlocking (Inl err))
        (s\<lparr>f_entry := set_session (stale_copy (snd p)) (f_entry s)\<rparr>))"
| ref_commits: "f_pc s i = RefCommitting b x \<Longrightarrow>
    flight_step mb win s
      (goto i (Unlocking (Inr (Some (e_next (f_entry s), x))))
        (s\<lparr>f_entry := commit x now (f_entry s)\<rparr>))"
| unlock: "f_pc s i = Unlocking res \<Longrightarrow>
    flight_step mb win s (goto i (Finished res) (s\<lparr>f_holder := None\<rparr>))"
| return: "f_pc s i = Finished res \<Longrightarrow> flight_step mb win s (goto i Idle s)"

inductive flight_reachable :: "int \<Rightarrow> duration \<Rightarrow> 'w recipe \<Rightarrow> 'w flight \<Rightarrow> bool"
  for mb :: int and win :: duration and r :: "'w recipe" where
  start: "flight_reachable mb win r (flight_init r)"
| step: "flight_reachable mb win r s \<Longrightarrow> flight_step mb win s t \<Longrightarrow> flight_reachable mb win r t"

text \<open>Any number of steps from a state.\<close>

inductive flight_steps :: "int \<Rightarrow> duration \<Rightarrow> 'w flight \<Rightarrow> 'w flight \<Rightarrow> bool"
  for mb :: int and win :: duration where
  steps_refl: "flight_steps mb win s s"
| steps_step: "flight_step mb win s t \<Longrightarrow> flight_steps mb win t u \<Longrightarrow> flight_steps mb win s u"

lemma flight_steps_trans:
  "flight_steps mb win s t \<Longrightarrow> flight_steps mb win t u \<Longrightarrow> flight_steps mb win s u"
  by (induction rule: flight_steps.induct) (auto intro: steps_step)

lemma flight_steps_one: "flight_step mb win s t \<Longrightarrow> flight_steps mb win s t"
  by (blast intro: steps_step steps_refl)

lemma reachable_steps:
  "flight_steps mb win s t \<Longrightarrow> flight_reachable mb win r s \<Longrightarrow> flight_reachable mb win r t"
  by (induction rule: flight_steps.induct) (auto intro: flight_reachable.step)

section \<open>Field access after a step\<close>

lemma goto_simps [simp]:
  "f_entry (goto i p s) = f_entry s" "f_holder (goto i p s) = f_holder s"
  "f_limit_at (goto i p s) = f_limit_at s" "f_calls (goto i p s) = f_calls s"
  "f_pc (goto i p s) j = (if j = i then p else f_pc s j)"
  by (simp_all add: goto_def)

lemma limiter_ran_simps [simp]:
  "f_entry (limiter_ran now e s) = e" "f_limit_at (limiter_ran now e s) = now"
  "f_holder (limiter_ran now e s) = f_holder s" "f_pc (limiter_ran now e s) = f_pc s"
  "f_calls (limiter_ran now e s) = f_calls s"
  by (simp_all add: limiter_ran_def)

lemma record_call_simps [simp]:
  "f_entry (record_call c s) = f_entry s" "f_limit_at (record_call c s) = f_limit_at s"
  "f_holder (record_call c s) = f_holder s" "f_pc (record_call c s) = f_pc s"
  "f_calls (record_call c s) = f_calls s @ [c]"
  by (simp_all add: record_call_def)

lemma flight_init_simps [simp]:
  "f_entry (flight_init r) = new_entry r" "f_holder (flight_init r) = None"
  "f_pc (flight_init r) i = Idle" "f_limit_at (flight_init r) = 0" "f_calls (flight_init r) = []"
  by (simp_all add: flight_init_def)

lemma new_entry_simps [simp]:
  "e_session (new_entry r) = None" "e_next (new_entry r) = 0" "e_stamps (new_entry r) = []"
  "e_recipe (new_entry r) = r"
  by (simp_all add: new_entry_def)

section \<open>The lock\<close>

fun holds :: "pc \<Rightarrow> bool" where
  "holds Idle = False"
| "holds GetWaiting = False"
| "holds (RefWaiting _) = False"
| "holds (Finished _) = False"
| "holds _ = True"

fun in_recipe :: "pc \<Rightarrow> bool" where
  "in_recipe GetEstablishing = True"
| "in_recipe (GetRefreshing _) = True"
| "in_recipe (RefRefreshing _) = True"
| "in_recipe _ = False"

definition lock_inv :: "'w flight \<Rightarrow> bool" where
  "lock_inv s \<longleftrightarrow> (\<forall>i. holds (f_pc s i) \<longleftrightarrow> f_holder s = Some i)"

lemma in_recipe_holds: "in_recipe p \<Longrightarrow> holds p"
  by (cases p) auto

lemma lock_inv_init: "lock_inv (flight_init r)"
  by (simp add: lock_inv_def)

lemma lock_inv_goto:
  "lock_inv s \<Longrightarrow> f_holder t = f_holder s \<Longrightarrow> f_pc t = f_pc s \<Longrightarrow> holds p = holds (f_pc s i) \<Longrightarrow>
   lock_inv (goto i p t)"
  by (simp add: lock_inv_def)

lemma lock_inv_take:
  "lock_inv s \<Longrightarrow> f_holder s = None \<Longrightarrow> holds p \<Longrightarrow> lock_inv (goto i p (s\<lparr>f_holder := Some i\<rparr>))"
  by (auto simp: lock_inv_def)

lemma lock_inv_release:
  "lock_inv s \<Longrightarrow> holds (f_pc s i) \<Longrightarrow> \<not> holds p \<Longrightarrow> lock_inv (goto i p (s\<lparr>f_holder := None\<rparr>))"
  by (auto simp: lock_inv_def)

lemma lock_inv_step:
  assumes "flight_step mb win s t" and "lock_inv s"
  shows "lock_inv t"
  using assms
proof (induction rule: flight_step.induct)
  case (unlock s i res)
  then show ?case by (simp add: lock_inv_release)
next
  case (get_lock s i)
  then show ?case by (simp add: lock_inv_take)
next
  case (ref_lock s i b)
  then show ?case by (simp add: lock_inv_take)
qed (auto elim!: lock_inv_goto split: sum.split option.split)

lemma reachable_lock_inv: "flight_reachable mb win r s \<Longrightarrow> lock_inv s"
  by (induction rule: flight_reachable.induct) (auto intro: lock_inv_init lock_inv_step)

lemma holder_unique: "lock_inv s \<Longrightarrow> holds (f_pc s i) \<Longrightarrow> holds (f_pc s j) \<Longrightarrow> i = j"
  by (simp add: lock_inv_def)

section \<open>Single flight\<close>

text \<open>
  Addresses: every pointer a goroutine holds, and every pointer a call was made with, was
  handed out by the entry, so its address is below \<open>e_next\<close>.  Hence a new session never
  reuses one.
\<close>

definition below :: "nat \<Rightarrow> sref option \<Rightarrow> bool" where
  "below n p \<longleftrightarrow> (case p of None \<Rightarrow> True | Some (a, _) \<Rightarrow> a < n)"

fun pc_pointer :: "pc \<Rightarrow> sref option" where
  "pc_pointer (GetLimiting p) = Some p"
| "pc_pointer (GetRefreshing p) = Some p"
| "pc_pointer (RefWaiting b) = b"
| "pc_pointer (RefRecheck b) = b"
| "pc_pointer (RefLimiting b) = b"
| "pc_pointer (RefRefreshing b) = b"
| "pc_pointer (RefFailing b _) = b"
| "pc_pointer (RefRetiring p _) = Some p"
| "pc_pointer (RefCommitting b _) = b"
| "pc_pointer _ = None"

fun call_pointer :: "call \<Rightarrow> sref option" where
  "call_pointer CallEstablish = None"
| "call_pointer (CallRefreshGet _ p) = Some p"
| "call_pointer (CallRefresh _ b) = b"

definition addr_inv :: "'w flight \<Rightarrow> bool" where
  "addr_inv s \<longleftrightarrow>
     below (e_next (f_entry s)) (e_session (f_entry s)) \<and>
     (\<forall>i. below (e_next (f_entry s)) (pc_pointer (f_pc s i))) \<and>
     (\<forall>c \<in> set (f_calls s). below (e_next (f_entry s)) (call_pointer c))"

lemma below_mono: "below n p \<Longrightarrow> n \<le> m \<Longrightarrow> below m p"
  by (auto simp: below_def split: option.splits)

lemma below_simps [simp]: "below n None" "below n (Some (a, x)) = (a < n)"
  by (simp_all add: below_def)

lemma addr_inv_goto:
  assumes "addr_inv s" and "f_pc t = f_pc s"
    and "e_next (f_entry s) \<le> e_next (f_entry t)"
    and "below (e_next (f_entry t)) (e_session (f_entry t))"
    and "\<And>c. c \<in> set (f_calls t) \<Longrightarrow> c \<in> set (f_calls s) \<or> below (e_next (f_entry t)) (call_pointer c)"
    and "below (e_next (f_entry t)) (pc_pointer p)"
  shows "addr_inv (goto i p t)"
  using assms unfolding addr_inv_def by (auto intro: below_mono)

lemma addr_inv_pc: "addr_inv s \<Longrightarrow> f_pc s i = q \<Longrightarrow> below (e_next (f_entry s)) (pc_pointer q)"
  by (auto simp: addr_inv_def)

lemma addr_inv_session: "addr_inv s \<Longrightarrow> below (e_next (f_entry s)) (e_session (f_entry s))"
  by (simp add: addr_inv_def)

lemma addr_inv_step:
  assumes "flight_step mb win s t" and "addr_inv s"
  shows "addr_inv t"
  using assms
proof (induction rule: flight_step.induct)
  case (get_expired s i p now)
  then show ?case
    using addr_inv_session [of s] by (auto intro!: addr_inv_goto [of s] simp: snapshot_def)
next
  case (get_admitted s i p now e)
  then show ?case
    using addr_inv_session [of s] addr_inv_pc [of s i]
    by (auto intro!: addr_inv_goto [of s] simp: rate_limited_frame)
next
  case (ref_admitted s i b now e)
  then show ?case
    using addr_inv_session [of s] addr_inv_pc [of s i]
    by (auto intro!: addr_inv_goto [of s] simp: rate_limited_frame)
next
  case (ref_fails s i b err)
  then show ?case
    using addr_inv_session [of s] addr_inv_pc [of s i]
    by (cases b) (auto intro!: addr_inv_goto [of s] simp: store_simps)
next
  case (ref_refresh_returns s i b r)
  then show ?case
    using addr_inv_session [of s] addr_inv_pc [of s i]
    by (cases r) (auto intro!: addr_inv_goto [of s])
qed (auto intro!: addr_inv_goto [where s = s for s] dest: addr_inv_session addr_inv_pc
      simp: snapshot_def rate_limited_frame store_simps split: sum.split)

lemma reachable_addr_inv: "flight_reachable mb win r s \<Longrightarrow> addr_inv s"
proof (induction rule: flight_reachable.induct)
  case start
  show ?case by (simp add: addr_inv_def)
next
  case (step s t)
  then show ?case by (blast intro: addr_inv_step)
qed

end
