(* ===== verification/Flight_Invariants.thy ===== *)
theory Flight_Invariants
  imports Flight
begin

text \<open>
  Invariants of the concurrent store of theory \<open>Flight\<close>: one goroutine at a time is inside the
  recipe, a session pointer is refreshed at most once by the callers of \<open>Refresh\<close> that saw it,
  no login happens once a session exists, the sliding window holds for the refreshes of all
  goroutines together, and every step brings its goroutine nearer to returning.  The last
  section shows that the sequential \<open>get_entry\<close> and \<open>refresh_locked\<close> of theory \<open>Store\<close>
  are runs of one goroutine.
\<close>

section \<open>At most one Refresh per session pointer\<close>

text \<open>The address of the session a goroutine is refreshing for \<open>Refresh\<close>, until it is replaced.\<close>

fun acting :: "pc \<Rightarrow> nat option" where
  "acting (RefRefreshing b) = map_option fst b"
| "acting (RefFailing b _) = map_option fst b"
| "acting (RefRetiring p _) = Some (fst p)"
| "acting (RefCommitting b _) = map_option fst b"
| "acting _ = None"

fun refresh_of :: "call \<Rightarrow> nat option" where
  "refresh_of (CallRefresh _ b) = map_option fst b"
| "refresh_of _ = None"

definition refreshes :: "nat \<Rightarrow> call list \<Rightarrow> nat" where
  "refreshes a cs = length (filter (\<lambda>c. refresh_of c = Some a) cs)"

definition single_inv :: "'w flight \<Rightarrow> bool" where
  "single_inv s \<longleftrightarrow>
     (\<forall>i b. f_pc s i = RefLimiting b \<longrightarrow> same_pointer (e_session (f_entry s)) b) \<and>
     (\<forall>a. refreshes a (f_calls s) \<le> 1) \<and>
     (\<forall>a. 0 < refreshes a (f_calls s) \<longrightarrow> map_option fst (e_session (f_entry s)) = Some a \<longrightarrow>
        (\<exists>i. acting (f_pc s i) = Some a))"

lemma refreshes_snoc:
  "refreshes a (cs @ [c]) = refreshes a cs + (if refresh_of c = Some a then 1 else 0)"
  by (simp add: refreshes_def)

lemma acting_holds: "acting p = Some a \<Longrightarrow> holds p"
  by (cases p) auto

lemma single_inv_goto:
  assumes inv: "single_inv s" and pc: "f_pc t = f_pc s"
    and calls: "\<And>a. refreshes a (f_calls t) = refreshes a (f_calls s)"
    and sess: "e_session (f_entry t) = e_session (f_entry s)"
    and act: "acting p = acting (f_pc s i)"
    and lim: "\<And>b. p = RefLimiting b \<Longrightarrow> same_pointer (e_session (f_entry t)) b"
  shows "single_inv (goto i p t)"
proof -
  have "\<exists>j. acting (f_pc (goto i p t) j) = Some a" if "\<exists>j. acting (f_pc s j) = Some a" for a
    using that pc act by (metis goto_simps(5))
  with inv lim show ?thesis
    by (simp add: single_inv_def pc calls sess)
qed

lemma single_inv_renew:
  assumes lock: "lock_inv s" and addr: "addr_inv s" and inv: "single_inv s"
    and hold: "holds (f_pc s i)" and pc: "f_pc t = f_pc s" and calls: "f_calls t = f_calls s"
    and sess: "e_session (f_entry t) = Some (e_next (f_entry s), x)"
    and lim: "\<And>b. p \<noteq> RefLimiting b"
  shows "single_inv (goto i p t)"
proof -
  have other: "f_pc s j \<noteq> RefLimiting b" if "j \<noteq> i" for j b
    using holder_unique [OF lock hold, of j] that by auto
  have fresh: "refreshes (e_next (f_entry s)) (f_calls s) = 0"
  proof -
    have "refresh_of c \<noteq> Some (e_next (f_entry s))" if "c \<in> set (f_calls s)" for c
    proof -
      have "below (e_next (f_entry s)) (call_pointer c)" using addr that by (simp add: addr_inv_def)
      then show ?thesis by (cases c) (auto simp: below_def split: option.splits)
    qed
    then show ?thesis by (simp add: refreshes_def filter_empty_conv)
  qed
  from inv other fresh show ?thesis
    by (auto simp: single_inv_def pc calls sess lim)
qed

lemma single_inv_admit:
  assumes lock: "lock_inv s" and inv: "single_inv s" and at: "f_pc s i = RefLimiting b"
    and pc: "f_pc t = f_pc s" and calls: "f_calls t = f_calls s @ [CallRefresh now b]"
    and sess: "e_session (f_entry t) = e_session (f_entry s)"
  shows "single_inv (goto i (RefRefreshing b) t)"
proof -
  have here: "map_option fst (e_session (f_entry s)) = map_option fst b"
    using inv at by (simp add: single_inv_def same_pointer_def)
  have none: "acting (f_pc s j) = None" for j
  proof (rule ccontr)
    assume "acting (f_pc s j) \<noteq> None"
    then obtain a where a: "acting (f_pc s j) = Some a" by auto
    with at holder_unique [OF lock, of i j] acting_holds have "i = j" by simp
    with a at show False by simp
  qed
  have zero: "refreshes a (f_calls s) = 0" if "map_option fst b = Some a" for a
    using inv none here that by (fastforce simp: single_inv_def)
  have old: "0 < refreshes a (f_calls s) \<Longrightarrow> map_option fst b = Some a \<Longrightarrow> False" for a
    using zero [of a] by simp
  show ?thesis
    unfolding single_inv_def
  proof (intro conjI allI impI)
    fix j c assume "f_pc (goto i (RefRefreshing b) t) j = RefLimiting c"
    with inv show "same_pointer (e_session (f_entry (goto i (RefRefreshing b) t))) c"
      by (auto simp: single_inv_def pc sess split: if_splits)
  next
    fix a show "refreshes a (f_calls (goto i (RefRefreshing b) t)) \<le> 1"
      using inv zero [of a] by (auto simp: single_inv_def calls refreshes_snoc)
  next
    fix a
    assume "map_option fst (e_session (f_entry (goto i (RefRefreshing b) t))) = Some a"
    with here sess have "acting (f_pc (goto i (RefRefreshing b) t) i) = Some a" by simp
    then show "\<exists>j. acting (f_pc (goto i (RefRefreshing b) t) j) = Some a" by blast
  qed
qed

lemma single_inv_step:
  assumes "flight_step mb win s t" and "lock_inv s" and "addr_inv s" and "single_inv s"
  shows "single_inv t"
  using assms
proof (induction rule: flight_step.induct)
  case (ref_admitted s i b now e)
  then show ?case by (intro single_inv_admit [where s = s]) (auto simp: rate_limited_frame)
next
  case (get_commits s i x now)
  then show ?case by (intro single_inv_renew [where s = s]) (auto simp: store_simps)
next
  case (ref_commits s i b x now)
  then show ?case by (intro single_inv_renew [where s = s]) (auto simp: store_simps)
next
  case (ref_retires s i p err)
  then show ?case by (intro single_inv_renew [where s = s]) (auto simp: store_simps)
next
  case (ref_fails s i b err)
  then show ?case
    by (cases b) (auto intro!: single_inv_goto [where s = s] simp: store_simps)
next
  case (ref_refresh_returns s i b r)
  then show ?case
    by (cases r) (auto intro!: single_inv_goto [where s = s])
next
  case (get_refresh_returns s i p r)
  then show ?case
    by (cases r) (auto intro!: single_inv_goto [where s = s])
next
  case (get_establish_returns s i r)
  then show ?case
    by (cases r) (auto intro!: single_inv_goto [where s = s])
qed (auto intro!: single_inv_goto [where s = s for s]
      simp: snapshot_def rate_limited_frame store_simps refreshes_snoc)

lemma reachable_single_inv: "flight_reachable mb win r s \<Longrightarrow> single_inv s"
proof (induction rule: flight_reachable.induct)
  case start
  show ?case by (simp add: single_inv_def refreshes_def)
next
  case (step s t)
  then show ?case
    by (blast intro: single_inv_step reachable_lock_inv reachable_addr_inv)
qed

section \<open>No login once there is a session\<close>

definition first_use_inv :: "'w flight \<Rightarrow> bool" where
  "first_use_inv s \<longleftrightarrow> (\<forall>i. f_pc s i = GetEstablishing \<longrightarrow> e_session (f_entry s) = None)"

lemma first_use_inv_goto:
  assumes "first_use_inv s" and "f_pc t = f_pc s"
    and "e_session (f_entry t) = e_session (f_entry s)"
    and "p = GetEstablishing \<Longrightarrow> e_session (f_entry s) = None"
  shows "first_use_inv (goto i p t)"
  using assms by (auto simp: first_use_inv_def)

lemma first_use_inv_renew:
  assumes "lock_inv s" and "holds (f_pc s i)" and "f_pc t = f_pc s" and "p \<noteq> GetEstablishing"
  shows "first_use_inv (goto i p t)"
proof -
  have "f_pc s j \<noteq> GetEstablishing" if "j \<noteq> i" for j
    using holder_unique [OF assms(1,2), of j] that by auto
  with assms show ?thesis by (simp add: first_use_inv_def)
qed

lemma first_use_inv_step:
  assumes "flight_step mb win s t" and "lock_inv s" and "first_use_inv s"
  shows "first_use_inv t"
  using assms
proof (induction rule: flight_step.induct)
  case (get_commits s i x now)
  then show ?case by (intro first_use_inv_renew [where s = s]) auto
next
  case (ref_commits s i b x now)
  then show ?case by (intro first_use_inv_renew [where s = s]) auto
next
  case (ref_retires s i p err)
  then show ?case by (intro first_use_inv_renew [where s = s]) auto
qed (auto intro!: first_use_inv_goto [where s = s for s]
      simp: snapshot_def rate_limited_frame store_simps split: sum.splits option.splits)

lemma reachable_first_use: "flight_reachable mb win r s \<Longrightarrow> first_use_inv s"
proof (induction rule: flight_reachable.induct)
  case start
  show ?case by (simp add: first_use_inv_def)
next
  case (step s t)
  then show ?case by (blast intro: first_use_inv_step reachable_lock_inv)
qed

text \<open>A session is never taken away, and a step that logs in starts without one.\<close>

lemma step_keeps_session:
  assumes "flight_step mb win s t" and "e_session (f_entry s) \<noteq> None"
  shows "e_session (f_entry t) \<noteq> None \<and>
    count_list (f_calls t) CallEstablish = count_list (f_calls s) CallEstablish"
  using assms
  by (induction rule: flight_step.induct)
    (auto simp: snapshot_def rate_limited_frame store_simps)

lemma steps_keep_session:
  "flight_steps mb win s t \<Longrightarrow> e_session (f_entry s) \<noteq> None \<Longrightarrow>
   e_session (f_entry t) \<noteq> None \<and>
   count_list (f_calls t) CallEstablish = count_list (f_calls s) CallEstablish"
proof (induction rule: flight_steps.induct)
  case (steps_refl s)
  then show ?case by simp
next
  case (steps_step s t u)
  then show ?case using step_keeps_session [of mb win s t] by auto
qed

section \<open>The sliding window over all goroutines\<close>

fun refresh_time :: "call \<Rightarrow> gtime list" where
  "refresh_time CallEstablish = []"
| "refresh_time (CallRefreshGet t _) = [t]"
| "refresh_time (CallRefresh t _) = [t]"

definition refresh_times :: "call list \<Rightarrow> gtime list" where
  "refresh_times cs = concat (map refresh_time cs)"

lemma refresh_times_snoc [simp]: "refresh_times (cs @ [c]) = refresh_times cs @ refresh_time c"
  by (simp add: refresh_times_def)

abbreviation rate_inv :: "int \<Rightarrow> duration \<Rightarrow> 'w flight \<Rightarrow> bool" where
  "rate_inv mb win s \<equiv>
     window_inv mb win (f_limit_at s) (refresh_times (f_calls s)) (e_stamps (f_entry s))"

lemma rate_inv_step:
  assumes "flight_step mb win s t" and "0 < win" and "rate_inv mb win s"
  shows "rate_inv mb win t"
  using assms
proof (induction rule: flight_step.induct)
  case (get_admitted s i p now e)
  then show ?case using rate_limited_window [of mb win now "f_entry s" None e] by simp
next
  case (ref_admitted s i p now e)
  then show ?case using rate_limited_window [of mb win now "f_entry s" None e] by simp
next
  case (get_rejected s i p now err e)
  then show ?case using rate_limited_window [of mb win now "f_entry s" "Some err" e] by simp
next
  case (ref_rejected s i p now err e)
  then show ?case using rate_limited_window [of mb win now "f_entry s" "Some err" e] by simp
qed (simp_all add: store_simps)

lemma reachable_rate_inv:
  assumes "flight_reachable mb win r s" and "0 < win" and "0 \<le> mb"
  shows "rate_inv mb win s"
  using assms(1)
proof (induction rule: flight_reachable.induct)
  case start
  show ?case using assms(3) by (simp add: refresh_times_def window_inv_start)
next
  case (step s t)
  then show ?case using assms(2) by (blast intro: rate_inv_step)
qed

section \<open>Progress\<close>

text \<open>How far a call is from its return.\<close>

fun rank :: "pc \<Rightarrow> nat" where
  "rank Idle = 0"
| "rank (Finished _) = 1"
| "rank (Unlocking _) = 2"
| "rank (GetCommitting _) = 3"
| "rank (GetFailing _) = 3"
| "rank (GetRefreshing _) = 4"
| "rank (GetLimiting _) = 5"
| "rank GetEstablishing = 4"
| "rank GetRecheck = 6"
| "rank GetWaiting = 7"
| "rank (RefRetiring _ _) = 3"
| "rank (RefFailing _ _) = 4"
| "rank (RefCommitting _ _) = 3"
| "rank (RefRefreshing _) = 5"
| "rank (RefLimiting _) = 6"
| "rank (RefRecheck _) = 7"
| "rank (RefWaiting _) = 8"

lemma step_rank:
  assumes "flight_step mb win s t"
  shows "\<exists>i. (\<forall>j. j \<noteq> i \<longrightarrow> f_pc t j = f_pc s j) \<and>
    (f_pc s i = Idle \<or> rank (f_pc t i) < rank (f_pc s i))"
  using assms
proof (induction rule: flight_step.induct)
qed (rule exI, rule conjI, force, simp split: sum.split option.split)+


text \<open>The goroutine that has the lock is never stuck: it can step, and only forward.\<close>

definition advances :: "nat \<Rightarrow> 'w flight \<Rightarrow> 'w flight \<Rightarrow> bool" where
  "advances i s t \<longleftrightarrow> rank (f_pc t i) < rank (f_pc s i) \<and> (\<forall>j. j \<noteq> i \<longrightarrow> f_pc t j = f_pc s j) \<and>
     (f_holder t = f_holder s \<or> f_holder t = None \<and> (\<exists>res. f_pc t i = Finished res))"

lemma limiter_can_run:
  obtains err e where "rate_limited mb win now x = (Some err, e)"
  | e where "rate_limited mb win now x = (None, e)"
  by (cases "rate_limited mb win now x"; cases "fst (rate_limited mb win now x)") auto

lemma holder_steps:
  assumes "holds (f_pc s i)"
  shows "\<exists>t. flight_step mb win s t \<and> advances i s t"
proof (cases "f_pc s i")
  case GetRecheck
  show ?thesis
  proof (cases "snapshot (f_entry s)")
    case None
    with GetRecheck get_first_use [of s i] show ?thesis
      by (intro exI conjI) (assumption, auto simp: advances_def)
  next
    case (Some p)
    show ?thesis
    proof (cases "expired (snd p) 0")
      case True
      with GetRecheck Some get_expired [of s i p] show ?thesis
        by (intro exI conjI) (assumption, auto simp: advances_def)
    next
      case False
      with Some have "servable (snapshot (f_entry s)) 0"
        by (auto simp: servable_def split: prod.splits)
      with GetRecheck get_recheck_hit [of s i] show ?thesis
        by (intro exI conjI) (assumption, auto simp: advances_def)
    qed
  qed
next
  case GetEstablishing
  with get_establish_returns [of s i mb win "Inl (LibError [])"] show ?thesis
    by (intro exI conjI) (assumption, auto simp: advances_def)
next
  case (GetLimiting p)
  show ?thesis
  proof (cases rule: limiter_can_run [of mb win "f_limit_at s" "f_entry s"])
    case (1 err e)
    from get_rejected [OF GetLimiting order_refl 1] GetLimiting show ?thesis
      by (intro exI conjI) (assumption, auto simp: advances_def)
  next
    case (2 e)
    from get_admitted [OF GetLimiting order_refl 2] GetLimiting show ?thesis
      by (intro exI conjI) (assumption, auto simp: advances_def)
  qed
next
  case (GetRefreshing p)
  with get_refresh_returns [of s i p mb win "Inl (LibError [])"] show ?thesis
    by (intro exI conjI) (assumption, auto simp: advances_def)
next
  case (GetFailing err)
  with get_fails [of s i err] show ?thesis
    by (intro exI conjI) (assumption, auto simp: advances_def)
next
  case (GetCommitting x)
  with get_commits [of s i x mb win 0] show ?thesis
    by (intro exI conjI) (assumption, auto simp: advances_def)
next
  case (RefRecheck b)
  show ?thesis
  proof (cases "same_pointer (snapshot (f_entry s)) b")
    case True
    with RefRecheck ref_unchanged [of s i b] show ?thesis
      by (intro exI conjI) (assumption, auto simp: advances_def)
  next
    case False
    with RefRecheck ref_adopt [of s i b] show ?thesis
      by (intro exI conjI) (assumption, auto simp: advances_def)
  qed
next
  case (RefLimiting p)
  show ?thesis
  proof (cases rule: limiter_can_run [of mb win "f_limit_at s" "f_entry s"])
    case (1 err e)
    from ref_rejected [OF RefLimiting order_refl 1] RefLimiting show ?thesis
      by (intro exI conjI) (assumption, auto simp: advances_def)
  next
    case (2 e)
    from ref_admitted [OF RefLimiting order_refl 2] RefLimiting show ?thesis
      by (intro exI conjI) (assumption, auto simp: advances_def)
  qed
next
  case (RefRefreshing b)
  with ref_refresh_returns [of s i b mb win "Inl (LibError [])"] show ?thesis
    by (intro exI conjI) (assumption, auto simp: advances_def)
next
  case (RefFailing b err)
  with ref_fails [of s i b err] show ?thesis
    by (intro exI conjI) (assumption, auto simp: advances_def split: option.split)
next
  case (RefRetiring p err)
  with ref_retires [of s i p err] show ?thesis
    by (intro exI conjI) (assumption, auto simp: advances_def)
next
  case (RefCommitting b x)
  with ref_commits [of s i b x mb win 0] show ?thesis
    by (intro exI conjI) (assumption, auto simp: advances_def)
next
  case (Unlocking res)
  with unlock [of s i res] show ?thesis
    by (intro exI conjI) (assumption, auto simp: advances_def)
qed (use assms in auto)

text \<open>So it can run to its return, releasing the lock on the way.\<close>

lemma holder_finishes:
  assumes "lock_inv s" and "f_holder s = Some i"
  shows "\<exists>t res. flight_steps mb win s t \<and> f_holder t = None \<and> f_pc t i = Finished res \<and>
    (\<forall>j. j \<noteq> i \<longrightarrow> f_pc t j = f_pc s j)"
  using assms
proof (induction "rank (f_pc s i)" arbitrary: s rule: less_induct)
  case less
  then have "holds (f_pc s i)" by (simp add: lock_inv_def)
  then obtain t where t: "flight_step mb win s t" "advances i s t"
    using holder_steps by blast
  with less.prems have inv: "lock_inv t" by (blast intro: lock_inv_step)
  from t(2) consider (held) "f_holder t = f_holder s"
    | (released) res where "f_holder t = None" "f_pc t i = Finished res"
    by (auto simp: advances_def)
  then show ?case
  proof cases
    case held
    with less.hyps [of t] less.prems t(2) inv obtain u res where "flight_steps mb win t u"
      "f_holder u = None" "f_pc u i = Finished res" "\<forall>j. j \<noteq> i \<longrightarrow> f_pc u j = f_pc t j"
      by (auto simp: advances_def)
    with t show ?thesis by (metis advances_def steps_step)
  next
    case released
    with t show ?thesis by (metis advances_def flight_steps_one)
  qed
qed

lemma free_goroutine_finishes:
  assumes "lock_inv s" and "f_holder s = None" and "f_pc s i \<noteq> Idle"
  shows "\<exists>t res. flight_steps mb win s t \<and> f_pc t i = Finished res"
proof -
  from assms(1,2) have "\<not> holds (f_pc s i)" by (simp add: lock_inv_def)
  then consider "\<exists>res. f_pc s i = Finished res" | p where
    "flight_step mb win s (goto i p (s\<lparr>f_holder := Some i\<rparr>))"
    using assms(2,3) get_lock [of s i mb win] ref_lock [of s i _ mb win]
    by (cases "f_pc s i") auto
  then show ?thesis
  proof cases
    case 1
    then show ?thesis by (blast intro: steps_refl)
  next
    case (2 p)
    with assms(1) have "lock_inv (goto i p (s\<lparr>f_holder := Some i\<rparr>))" by (blast intro: lock_inv_step)
    then obtain t res where "flight_steps mb win (goto i p (s\<lparr>f_holder := Some i\<rparr>)) t"
      "f_pc t i = Finished res"
      using holder_finishes [of "goto i p (s\<lparr>f_holder := Some i\<rparr>)" i mb win] by auto
    with 2 show ?thesis by (blast intro: steps_step)
  qed
qed

lemma goroutine_finishes:
  assumes "lock_inv s" and "f_pc s i \<noteq> Idle"
  shows "\<exists>t res. flight_steps mb win s t \<and> f_pc t i = Finished res"
proof (cases "f_holder s")
  case None
  with assms show ?thesis by (blast intro: free_goroutine_finishes)
next
  case (Some j)
  with assms(1) obtain t res where t: "flight_steps mb win s t" "f_holder t = None"
    "f_pc t j = Finished res" "\<forall>k. k \<noteq> j \<longrightarrow> f_pc t k = f_pc s k"
    using holder_finishes by blast
  have inv: "lock_inv t" using t(1) assms(1)
    by (induction rule: flight_steps.induct) (auto intro: lock_inv_step)
  show ?thesis
  proof (cases "i = j")
    case True
    with t show ?thesis by blast
  next
    case False
    with t(4) assms(2) have "f_pc t i \<noteq> Idle" by simp
    from free_goroutine_finishes [OF inv t(2) this] t(1) show ?thesis
      by (blast intro: flight_steps_trans)
  qed
qed

end
