(* ===== verification/Flight_Refinement.thy ===== *)
theory Flight_Refinement
  imports Flight_Invariants
begin

text \<open>
  The sequential operations of theory \<open>Store\<close> refine the concurrent ones of \<open>Flight\<close>: what
  \<open>get_entry\<close> and \<open>refresh_locked\<close> compute for one caller is a run of the step relation in
  which one goroutine moves alone.  So every behaviour of a single caller is among the behaviours
  the invariants of \<open>Flight_Invariants\<close> speak about.
\<close>

text \<open>
  There is a run that moves goroutine \<open>i\<close> alone, to program counter \<open>p\<close> with the lock in state
  \<open>h\<close> and the entry \<open>e\<close>, the limiter being handed readings of the clock.
\<close>

definition run_end ::
  "'w ticker \<Rightarrow> nat \<Rightarrow> 'w flight \<Rightarrow> pc \<Rightarrow> nat option \<Rightarrow> 'w entry \<Rightarrow> 'w flight \<Rightarrow> bool" where
  "run_end tick i s p h e t \<longleftrightarrow>
     f_pc t i = p \<and> f_holder t = h \<and> f_entry t = e \<and> (\<forall>j. j \<noteq> i \<longrightarrow> f_pc t j = f_pc s j) \<and>
     (f_limit_at t = f_limit_at s \<or> f_limit_at t \<in> range (\<lambda>w. fst (tick w)))"

definition can_run ::
  "int \<Rightarrow> duration \<Rightarrow> 'w ticker \<Rightarrow> nat \<Rightarrow> 'w flight \<Rightarrow> pc \<Rightarrow> nat option \<Rightarrow> 'w entry \<Rightarrow> bool" where
  "can_run mb win tick i s p h e \<longleftrightarrow> (\<exists>t. flight_steps mb win s t \<and> run_end tick i s p h e t)"

lemma can_run_done:
  assumes "f_pc s i = p" and "f_holder s = h" and "f_entry s = e"
  shows "can_run mb win tick i s p h e"
  using assms unfolding can_run_def run_end_def by (blast intro: steps_refl)

text \<open>One step of \<open>i\<close>, then the rest of the run.\<close>

lemma can_run_step:
  assumes "flight_step mb win s (goto i q u)" and "f_pc u = f_pc s"
    and "f_limit_at u = f_limit_at s \<or> (\<exists>w. f_limit_at u = fst (tick w))"
    and "can_run mb win tick i (goto i q u) p h e"
  shows "can_run mb win tick i s p h e"
  using assms unfolding can_run_def run_end_def by (fastforce intro: steps_step)

text \<open>The outcome of a goroutine as the value its caller sees.\<close>

definition caller_result :: "outcome \<Rightarrow> gerror + session option" where
  "caller_result res = (case res of Inl err \<Rightarrow> Inl err | Inr p \<Rightarrow> Inr (map_option snd p))"

lemma caller_result_simps [simp]:
  "caller_result (Inl err) = Inl err" "caller_result (Inr p) = Inr (map_option snd p)"
  by (simp_all add: caller_result_def)

abbreviation some_result :: "gerror + session \<Rightarrow> gerror + session option" where
  "some_result x \<equiv> (case x of Inl err \<Rightarrow> Inl err | Inr y \<Rightarrow> Inr (Some y))"

section \<open>Runs from the locked sections to the unlock\<close>

definition clock_ok :: "'w ticker \<Rightarrow> 'w flight \<Rightarrow> bool" where
  "clock_ok tick s \<longleftrightarrow> (\<forall>w. f_limit_at s \<le> fst (tick w))"

lemma clock_okD: "clock_ok tick s \<Longrightarrow> \<exists>u. now = fst (tick u) \<Longrightarrow> f_limit_at s \<le> now"
  by (auto simp: clock_ok_def)

lemma get_fails_run:
  assumes "f_pc s i = GetFailing err"
  shows "can_run mb win tick i s (Unlocking (Inl err)) (f_holder s) (fail err (f_entry s))"
  by (rule can_run_step [OF get_fails [OF assms]]) (simp_all add: can_run_done)

lemma get_commits_run:
  assumes "f_pc s i = GetCommitting x"
  shows "can_run mb win tick i s (Unlocking (Inr (Some (e_next (f_entry s), x)))) (f_holder s)
    (commit x now (f_entry s))"
  by (rule can_run_step [OF get_commits [OF assms, of mb win now]]) (simp_all add: can_run_done)

text \<open>The end of a call of the recipe by \<open>Get\<close>: the error is recorded, or the session committed.\<close>

lemma get_call_fails:
  assumes "f_pc s i = GetEstablishing \<or> (\<exists>p. f_pc s i = GetRefreshing p)"
  shows "can_run mb win tick i s (Unlocking (Inl err)) (f_holder s) (fail err (f_entry s))"
proof -
  have "flight_step mb win s (goto i (GetFailing err) s)"
    using assms get_establish_returns [of s i mb win "Inl err"]
      get_refresh_returns [of s i _ mb win "Inl err"] by auto
  then show ?thesis
    by (rule can_run_step) (use get_fails_run [of "goto i (GetFailing err) s" i err] in simp_all)
qed

lemma get_call_commits:
  assumes "f_pc s i = GetEstablishing \<or> (\<exists>p. f_pc s i = GetRefreshing p)"
  shows "can_run mb win tick i s (Unlocking (Inr (Some (e_next (f_entry s), x)))) (f_holder s)
    (commit x now (f_entry s))"
proof -
  have "flight_step mb win s (goto i (GetCommitting x) s)"
    using assms get_establish_returns [of s i mb win "Inr x"]
      get_refresh_returns [of s i _ mb win "Inr x"] by auto
  then show ?thesis
    by (rule can_run_step)
      (use get_commits_run [of "goto i (GetCommitting x) s" i x] in simp_all)
qed

text \<open>The locked part of \<open>Get\<close>, from the re-check to the unlock.\<close>

lemma get_locked_run:
  assumes at: "f_pc s i = GetRecheck" and clock: "clock_ok tick s"
    and run: "get_locked tick mb win (f_entry s) w = (x, e', w')"
  shows "\<exists>res. can_run mb win tick i s (Unlocking res) (f_holder s) e' \<and>
    caller_result res = some_result x"
  using run
proof (cases rule: get_locked_cases)
  case (cached a c v)
  then have "servable (snapshot (f_entry s)) (fst (tick v))"
    by (simp add: servable_def snapshot_def)
  from can_run_step [OF get_recheck_hit [OF at this, of mb win], of tick]
  have "can_run mb win tick i s (Unlocking (Inr (snapshot (f_entry s)))) (f_holder s) e'"
    using cached by (simp add: can_run_done)
  with cached show ?thesis by (intro exI [of _ "Inr (snapshot (f_entry s))"]) (simp add: snapshot_def)
next
  case (establish_failed v err)
  from can_run_step [OF get_first_use [OF at, of mb win], of tick]
    get_call_fails [of "goto i GetEstablishing (record_call CallEstablish s)" i mb win tick err]
  have "can_run mb win tick i s (Unlocking (Inl err)) (f_holder s) e'"
    using establish_failed by (simp add: snapshot_def)
  with establish_failed show ?thesis by (intro exI [of _ "Inl err"]) simp
next
  case (established v u c now)
  from can_run_step [OF get_first_use [OF at, of mb win], of tick]
    get_call_commits [of "goto i GetEstablishing (record_call CallEstablish s)" i mb win tick c now]
  have "can_run mb win tick i s (Unlocking (Inr (Some (e_next (f_entry s), c)))) (f_holder s) e'"
    using established by (simp add: snapshot_def)
  with established show ?thesis by (intro exI [of _ "Inr (Some (e_next (f_entry s), c))"]) simp
next
  case (limited a c now err)
  then obtain z where z: "expired (snd (a, c)) (fst (tick z))" by auto
  let ?u = "goto i (GetLimiting (a, c)) s"
  have le: "f_limit_at ?u \<le> now" using limited(4) clock by (simp add: clock_okD)
  from can_run_step [OF get_rejected [OF _ le, of i "(a, c)" mb win err e'], of tick]
  have "can_run mb win tick i ?u (Unlocking (Inl err)) (f_holder s) e'"
    using limited by (simp add: can_run_done)
  with can_run_step [OF get_expired [OF at _ z, of mb win], of tick] limited
  have "can_run mb win tick i s (Unlocking (Inl err)) (f_holder s) e'"
    by (simp add: snapshot_def)
  with limited show ?thesis by (intro exI [of _ "Inl err"]) simp
next
  case (refresh_failed a c now e1 v err)
  then obtain z where z: "expired (snd (a, c)) (fst (tick z))" by auto
  let ?u = "goto i (GetLimiting (a, c)) s"
  let ?v = "goto i (GetRefreshing (a, c)) (record_call (CallRefreshGet now (a, c)) (limiter_ran now e1 ?u))"
  have le: "f_limit_at ?u \<le> now" using refresh_failed(6) clock by (simp add: clock_okD)
  have "can_run mb win tick i ?v (Unlocking (Inl err)) (f_holder s) e'"
    using get_call_fails [of ?v i mb win tick err] refresh_failed(5) by simp
  with can_run_step [OF get_admitted [OF _ le, of i "(a, c)" mb win e1], of tick] refresh_failed
  have "can_run mb win tick i ?u (Unlocking (Inl err)) (f_holder s) e'" by simp
  with can_run_step [OF get_expired [OF at _ z, of mb win], of tick] refresh_failed
  have "can_run mb win tick i s (Unlocking (Inl err)) (f_holder s) e'"
    by (simp add: snapshot_def)
  with refresh_failed show ?thesis by (intro exI [of _ "Inl err"]) simp
next
  case (refreshed a c now e1 v u c' now')
  then obtain z where z: "expired (snd (a, c)) (fst (tick z))" by auto
  let ?u = "goto i (GetLimiting (a, c)) s" and ?res = "Inr (Some (e_next e1, c'))"
  let ?v = "goto i (GetRefreshing (a, c)) (record_call (CallRefreshGet now (a, c)) (limiter_ran now e1 ?u))"
  have le: "f_limit_at ?u \<le> now" using refreshed(6) clock by (simp add: clock_okD)
  have "can_run mb win tick i ?v (Unlocking ?res) (f_holder s) e'"
    using get_call_commits [of ?v i mb win tick c' now'] refreshed(5) by simp
  with can_run_step [OF get_admitted [OF _ le, of i "(a, c)" mb win e1], of tick] refreshed
  have "can_run mb win tick i ?u (Unlocking ?res) (f_holder s) e'" by simp
  with can_run_step [OF get_expired [OF at _ z, of mb win], of tick] refreshed
  have "can_run mb win tick i s (Unlocking ?res) (f_holder s) e'"
    by (simp add: snapshot_def)
  with refreshed show ?thesis by (intro exI [of _ ?res]) simp
qed

section \<open>Whole calls by one goroutine\<close>

lemma can_run_trans:
  assumes "can_run mb win tick i s q k d"
    and "\<And>t. run_end tick i s q k d t \<Longrightarrow> can_run mb win tick i t p h e"
  shows "can_run mb win tick i s p h e"
proof -
  from assms(1) obtain t where t: "flight_steps mb win s t" "run_end tick i s q k d t"
    by (auto simp: can_run_def)
  with assms(2) obtain u where "flight_steps mb win t u" "run_end tick i t p h e u"
    by (auto simp: can_run_def)
  with t show ?thesis
    unfolding can_run_def run_end_def by (intro exI [of _ u]) (auto intro: flight_steps_trans)
qed

lemma unlock_run:
  assumes "can_run mb win tick i s (Unlocking res) h e"
  shows "can_run mb win tick i s (Finished res) None e"
  using assms
proof (rule can_run_trans)
  fix t assume "run_end tick i s (Unlocking res) h e t"
  then have "f_pc t i = Unlocking res" "f_entry t = e" by (simp_all add: run_end_def)
  then show "can_run mb win tick i t (Finished res) None e"
    by - (rule can_run_step [OF unlock], assumption, simp_all add: can_run_done)
qed

lemma get_entry_run:
  assumes at: "f_pc s i = Idle" and free: "f_holder s = None" and clock: "clock_ok tick s"
    and run: "get_entry tick mb win (f_entry s) w = (x, e', w')"
  shows "\<exists>res. can_run mb win tick i s (Finished res) None e' \<and> caller_result res = some_result x"
  using run
proof (cases rule: get_entry_cases)
  case (fast a c)
  then have "servable (snapshot (f_entry s)) (fst (tick w))"
    by (simp add: servable_def snapshot_def)
  from can_run_step [OF get_fast_hit [OF at this, of mb win], of tick]
  have "can_run mb win tick i s (Finished (Inr (snapshot (f_entry s)))) None e'"
    using fast free by (simp add: can_run_done)
  with fast show ?thesis by (intro exI [of _ "Inr (snapshot (f_entry s))"]) (simp add: snapshot_def)
next
  case (slow v)
  then have miss: "\<not> servable (snapshot (f_entry s)) (fst (tick w))"
    by (auto simp: servable_def snapshot_def split: option.splits)
  let ?u = "goto i GetWaiting s"
  let ?v = "goto i GetRecheck (?u\<lparr>f_holder := Some i\<rparr>)"
  from slow(1) get_locked_run [of ?v i tick mb win v x e' w'] clock obtain res where
    r: "can_run mb win tick i ?v (Unlocking res) (Some i) e'" "caller_result res = some_result x"
    by (auto simp: clock_ok_def)
  from can_run_step [OF get_lock [of ?u i mb win], of tick] r(1) free
  have "can_run mb win tick i ?u (Unlocking res) (Some i) e'" by simp
  with can_run_step [OF get_fast_miss [OF at miss, of mb win], of tick]
  have "can_run mb win tick i s (Unlocking res) (Some i) e'" by simp
  with r(2) show ?thesis by (blast intro: unlock_run)
qed

text \<open>The same for \<open>Refresh\<close>.\<close>

lemma ref_call_commits:
  assumes "f_pc s i = RefRefreshing b"
  shows "can_run mb win tick i s (Unlocking (Inr (Some (e_next (f_entry s), x)))) (f_holder s)
    (commit x now (f_entry s))"
proof -
  let ?u = "goto i (RefCommitting b x) s"
  have "can_run mb win tick i ?u (Unlocking (Inr (Some (e_next (f_entry s), x)))) (f_holder s)
    (commit x now (f_entry s))"
    by (rule can_run_step [OF ref_commits [of ?u i b x mb win now]]) (simp_all add: can_run_done)
  with can_run_step [OF ref_refresh_returns [OF assms, of mb win "Inr x"], of tick] show ?thesis
    by simp
qed

lemma ref_call_fails:
  assumes "f_pc s i = RefRefreshing b"
  shows "can_run mb win tick i s (Unlocking (Inl err)) (f_holder s)
    (case b of None \<Rightarrow> fail err (f_entry s)
     | Some (_, c) \<Rightarrow> set_session (stale_copy c) (fail err (f_entry s)))"
    (is "can_run _ _ _ _ _ ?p ?h ?e")
proof -
  let ?u = "goto i (RefFailing b err) s"
  let ?f = "?u\<lparr>f_entry := fail err (f_entry s)\<rparr>"
  have "can_run mb win tick i ?u ?p ?h ?e"
  proof (cases b)
    case None
    then show ?thesis
      by - (rule can_run_step [OF ref_fails [of ?u i b err mb win]], simp_all add: can_run_done)
  next
    case (Some p)
    have "can_run mb win tick i (goto i (RefRetiring p err) ?f) ?p ?h ?e"
      by (rule can_run_step [OF ref_retires [of _ i p err mb win]])
        (simp_all add: can_run_done Some case_prod_beta)
    with Some can_run_step [OF ref_fails [of ?u i b err mb win], of tick] show ?thesis by simp
  qed
  with can_run_step [OF ref_refresh_returns [OF assms, of mb win "Inl err"], of tick] show ?thesis
    by simp
qed

lemma refresh_locked_run:
  assumes at: "f_pc s i = RefRecheck b" and clock: "clock_ok tick s"
    and run: "refresh_locked tick mb win b (f_entry s) w = (x, e', w')"
  shows "\<exists>res. can_run mb win tick i s (Unlocking res) (f_holder s) e' \<and> caller_result res = x"
  using run
proof (cases rule: refresh_locked_cases)
  case adopted
  with can_run_step [OF ref_adopt [OF at, of mb win], of tick]
  have "can_run mb win tick i s (Unlocking (Inr (snapshot (f_entry s)))) (f_holder s) e'"
    by (simp add: can_run_done snapshot_def)
  with adopted show ?thesis
    by (intro exI [of _ "Inr (snapshot (f_entry s))"]) (simp add: snapshot_def)
next
  case (limited now err)
  let ?u = "goto i (RefLimiting b) s"
  have le: "f_limit_at ?u \<le> now" using limited(4) clock by (simp add: clock_okD)
  from can_run_step [OF ref_rejected [OF _ le, of i b mb win err e'], of tick]
  have "can_run mb win tick i ?u (Unlocking (Inl err)) (f_holder s) e'"
    using limited by (simp add: can_run_done)
  with can_run_step [OF ref_unchanged [OF at, of mb win], of tick] limited
  show ?thesis by (intro exI [of _ "Inl err"]) (simp add: snapshot_def)
next
  case (failed now e1 v err)
  let ?u = "goto i (RefLimiting b) s"
  let ?v = "goto i (RefRefreshing b) (record_call (CallRefresh now b) (limiter_ran now e1 ?u))"
  have le: "f_limit_at ?u \<le> now" using failed(6) clock by (simp add: clock_okD)
  have "can_run mb win tick i ?v (Unlocking (Inl err)) (f_holder s) e'"
    using ref_call_fails [of ?v i b mb win tick err] failed(5)
    by (simp split: option.splits prod.splits)
  with can_run_step [OF ref_admitted [OF _ le, of i b mb win e1], of tick] failed(2,6)
  have "can_run mb win tick i ?u (Unlocking (Inl err)) (f_holder s) e'" by simp
  with can_run_step [OF ref_unchanged [OF at, of mb win], of tick] failed(1,4)
  show ?thesis by (intro exI [of _ "Inl err"]) (simp add: snapshot_def)
next
  case (refreshed now e1 v u c now')
  let ?u = "goto i (RefLimiting b) s" and ?res = "Inr (Some (e_next e1, c))"
  let ?v = "goto i (RefRefreshing b) (record_call (CallRefresh now b) (limiter_ran now e1 ?u))"
  have le: "f_limit_at ?u \<le> now" using refreshed(6) clock by (simp add: clock_okD)
  have "can_run mb win tick i ?v (Unlocking ?res) (f_holder s) e'"
    using ref_call_commits [of ?v i b mb win tick c now'] refreshed(5) by simp
  with can_run_step [OF ref_admitted [OF _ le, of i b mb win e1], of tick] refreshed(2,6)
  have "can_run mb win tick i ?u (Unlocking ?res) (f_holder s) e'" by simp
  with can_run_step [OF ref_unchanged [OF at, of mb win], of tick] refreshed(1,4)
  show ?thesis by (intro exI [of _ ?res]) (simp add: snapshot_def)
qed

lemma refresh_run:
  assumes at: "f_pc s i = Idle" and free: "f_holder s = None" and clock: "clock_ok tick s"
    and run: "refresh_locked tick mb win (snapshot (f_entry s)) (f_entry s) w = (x, e', w')"
  shows "\<exists>res. can_run mb win tick i s (Finished res) None e' \<and> caller_result res = x"
proof -
  let ?b = "snapshot (f_entry s)"
  let ?u = "goto i (RefWaiting ?b) s"
  let ?v = "goto i (RefRecheck ?b) (?u\<lparr>f_holder := Some i\<rparr>)"
  from run refresh_locked_run [of ?v i ?b tick mb win w x e' w'] clock obtain res where
    r: "can_run mb win tick i ?v (Unlocking res) (Some i) e'" "caller_result res = x"
    by (auto simp: clock_ok_def)
  from can_run_step [OF ref_lock [of ?u i ?b mb win], of tick] r(1) free
  have "can_run mb win tick i ?u (Unlocking res) (Some i) e'" by simp
  with can_run_step [OF ref_begin [OF at, of mb win], of tick]
  have "can_run mb win tick i s (Unlocking res) (Some i) e'" by simp
  with r(2) show ?thesis by (blast intro: unlock_run)
qed

end
