(* ===== verification/Samples.thy ===== *)
theory Samples
  imports Flight_Refinement
begin

text \<open>
  Concrete inputs for the witnesses: a clock that advances with every reading, sessions and
  recipes with known outcomes, and stores in known states.
\<close>

definition sample_now :: gtime where
  "sample_now = 63900000000 * 1000000000"

definition sample_clock :: "nat ticker" where
  "sample_clock w = (sample_now + int w, Suc w)"

definition sample_session :: "string \<Rightarrow> gtime \<Rightarrow> session" where
  "sample_session i t = empty_session\<lparr>s_identity := i, s_bearer := ''token'', s_expires_at := t\<rparr>"

text \<open>A recipe whose refresh succeeds or fails as told; its sessions live for \<open>life\<close>.\<close>

definition sample_recipe :: "string \<Rightarrow> bool \<Rightarrow> duration \<Rightarrow> nat recipe" where
  "sample_recipe i ok life =
     \<lparr>r_identity = i,
      r_establish = (\<lambda>w. (Inr (sample_session i (sample_now + life)), Suc w)),
      r_refresh = (\<lambda>cur w. if ok then (Inr (sample_session i (sample_now + 10 * life)), Suc w)
                           else (Inl (LibError ''unreachable''), Suc w)),
      r_logout = \<lparr>status_codes = [401], location_contains = [], body_contains = []\<rparr>\<rparr>"

lemma sample_recipe_simps [simp]:
  "r_identity (sample_recipe i ok life) = i"
  "r_establish (sample_recipe i ok life) w = (Inr (sample_session i (sample_now + life)), Suc w)"
  "r_refresh (sample_recipe i True life) cur w =
     (Inr (sample_session i (sample_now + 10 * life)), Suc w)"
  "r_refresh (sample_recipe i False life) cur w = (Inl (LibError ''unreachable''), Suc w)"
  "r_logout (sample_recipe i ok life) =
     \<lparr>status_codes = [401], location_contains = [], body_contains = []\<rparr>"
  by (simp_all add: sample_recipe_def)

lemma sample_session_simps [simp]:
  "s_expires_at (sample_session i t) = t" "s_identity (sample_session i t) = i"
  "s_bearer (sample_session i t) = ''token''" "s_cookies (sample_session i t) = []"
  "s_csrf (sample_session i t) = []" "s_headers (sample_session i t) = []"
  "session_ok i (sample_session i t)"
  by (simp_all add: sample_session_def empty_session_def session_ok_def has_material_def)

lemma sample_recipe_login: "login_recipe (sample_recipe i ok life)"
  by unfold_locales (auto simp: sample_recipe_def split: if_splits)

definition sample_entry :: "string \<Rightarrow> bool \<Rightarrow> session \<Rightarrow> nat entry" where
  "sample_entry i ok s = (new_entry (sample_recipe i ok 1))\<lparr>e_session := Some (0, s), e_next := 1\<rparr>"

definition sample_store :: "nat entry \<Rightarrow> nat store" where
  "sample_store e = \<lparr>st_entries = [(r_identity (e_recipe e), e)], st_max_burst = 10,
     st_window = 60 * second\<rparr>"

lemma sample_entry_simps [simp]:
  "e_recipe (sample_entry i ok s) = sample_recipe i ok 1"
  "e_session (sample_entry i ok s) = Some (0, s)" "e_stamps (sample_entry i ok s) = []"
  "e_next (sample_entry i ok s) = 1"
  "e_last_auth (sample_entry i ok s) = 0" "e_last_err (sample_entry i ok s) = None"
  by (simp_all add: sample_entry_def new_entry_def)

lemma sample_store_simps [simp]:
  "st_max_burst (sample_store e) = 10" "st_window (sample_store e) = 60 * second"
  "st_entries (sample_store e) = [(r_identity (e_recipe e), e)]"
  "lookup i (sample_store e) =
     (if i = r_identity (e_recipe e) then Inr e else Inl (UnknownIdentity i))"
  by (simp_all add: sample_store_def lookup_def)

lemma sample_store_ok:
  "session_ok i s \<Longrightarrow> store_ok (sample_store (sample_entry i ok s))"
  by (auto simp: store_ok_def entry_ok_def sessions_ok_def sample_recipe_login split: if_splits)

section \<open>A concurrent execution\<close>

text \<open>
  Goroutine 0 logs in for the first time; then goroutines 0 and 1 both begin a \<open>Refresh\<close> of the
  session \<open>x\<close>, and 0 gets the lock and is admitted (\<open>refreshing_state\<close>).  In
  \<open>adopting_state\<close> the refresh of 0 has failed with \<open>err\<close>, and 1 has taken the lock after it
  and returned.
\<close>

definition logged_in_state :: "'w recipe \<Rightarrow> session \<Rightarrow> 'w flight" where
  "logged_in_state r x =
     (flight_init r)\<lparr>f_entry := commit x 0 (new_entry r), f_calls := [CallEstablish]\<rparr>"

definition limited_entry :: "'w recipe \<Rightarrow> session \<Rightarrow> 'w entry" where
  "limited_entry r x = (commit x 0 (new_entry r))\<lparr>e_stamps := [0]\<rparr>"

definition refreshing_state :: "'w recipe \<Rightarrow> session \<Rightarrow> 'w flight" where
  "refreshing_state r x =
     \<lparr>f_entry = limited_entry r x, f_holder = Some 0,
      f_pc = (\<lambda>_. Idle)(0 := RefRefreshing (Some (0, x)), 1 := RefWaiting (Some (0, x))),
      f_limit_at = 0, f_calls = [CallEstablish, CallRefresh 0 (Some (0, x))]\<rparr>"

definition adopting_state :: "'w recipe \<Rightarrow> session \<Rightarrow> gerror \<Rightarrow> 'w flight" where
  "adopting_state r x err =
     \<lparr>f_entry = set_session (stale_copy x) (fail err (limited_entry r x)), f_holder = None,
      f_pc = (\<lambda>_. Idle)(0 := Finished (Inl err), 1 := Finished (Inr (Some (1, stale_copy x)))),
      f_limit_at = 0, f_calls = [CallEstablish, CallRefresh 0 (Some (0, x))]\<rparr>"

lemma logged_in_reachable: "flight_reachable mb win r (logged_in_state r x)"
proof -
  let ?d0 = "flight_init r" and ?p = "Inr (Some (0, x))"
  let ?d1 = "goto 0 GetWaiting ?d0"
  let ?d2 = "goto 0 GetRecheck (?d1\<lparr>f_holder := Some 0\<rparr>)"
  let ?d3 = "goto 0 GetEstablishing (record_call CallEstablish ?d2)"
  let ?d4 = "goto 0 (GetCommitting x) ?d3"
  let ?d5 = "goto 0 (Unlocking ?p) (?d4\<lparr>f_entry := commit x 0 (f_entry ?d4)\<rparr>)"
  let ?d6 = "goto 0 (Finished ?p) (?d5\<lparr>f_holder := None\<rparr>)"
  have "flight_step mb win ?d0 ?d1" by (rule get_fast_miss) (simp_all add: servable_def snapshot_def)
  moreover have "flight_step mb win ?d1 ?d2" by (rule get_lock) simp_all
  moreover have "flight_step mb win ?d2 ?d3" by (rule get_first_use) (simp_all add: snapshot_def)
  moreover have "flight_step mb win ?d3 ?d4"
    using get_establish_returns [of ?d3 0 mb win "Inr x"] by simp
  moreover have "flight_step mb win ?d4 ?d5"
    using get_commits [of ?d4 0 x mb win 0] by simp
  moreover have "flight_step mb win ?d5 ?d6" by (rule unlock) simp
  moreover have "flight_step mb win ?d6 (goto 0 Idle ?d6)" by (rule return) simp
  ultimately have "flight_steps mb win ?d0 (goto 0 Idle ?d6)"
    by (blast intro: steps_step steps_refl)
  from reachable_steps [OF this flight_reachable.start]
  have "flight_reachable mb win r (goto 0 Idle ?d6)" .
  moreover have "goto 0 Idle ?d6 = logged_in_state r x"
    by (simp add: logged_in_state_def goto_def flight_init_def record_call_def fun_eq_iff)
  ultimately show ?thesis by simp
qed

lemma refreshing_steps:
  assumes "1 \<le> mb" and "0 < win"
  shows "flight_steps mb win (logged_in_state r x) (refreshing_state r x)"
proof -
  let ?p = "Some (0, x)" and ?d0 = "logged_in_state r x"
  let ?d1 = "goto 0 (RefWaiting ?p) ?d0"
  let ?d2 = "goto 1 (RefWaiting ?p) ?d1"
  let ?d3 = "goto 0 (RefRecheck ?p) (?d2\<lparr>f_holder := Some 0\<rparr>)"
  let ?d4 = "goto 0 (RefLimiting ?p) ?d3"
  let ?d5 = "goto 0 (RefRefreshing ?p)
    (record_call (CallRefresh 0 ?p) (limiter_ran 0 (limited_entry r x) ?d4))"
  have e [simp]: "f_entry ?d0 = commit x 0 (new_entry r)" "f_holder ?d0 = None" "f_limit_at ?d0 = 0"
    "f_pc ?d0 i = Idle" for i
    by (simp_all add: logged_in_state_def)
  have "flight_step mb win ?d0 ?d1"
    using ref_begin [of ?d0 0] by (simp add: snapshot_def store_simps)
  moreover have "flight_step mb win ?d1 ?d2"
    using ref_begin [of ?d1 1] by (simp add: snapshot_def store_simps)
  moreover have "flight_step mb win ?d2 ?d3" by (rule ref_lock) simp_all
  moreover have "flight_step mb win ?d3 ?d4"
    by (rule ref_unchanged) (simp_all add: snapshot_def store_simps)
  moreover have "flight_step mb win ?d4 ?d5"
    using assms
    by (intro ref_admitted)
      (simp_all add: rate_limited_admits limited_entry_def store_simps prune_older_than_def)
  ultimately have "flight_steps mb win ?d0 ?d5"
    by (blast intro: steps_step steps_refl)
  moreover have "?d5 = refreshing_state r x"
    by (simp add: refreshing_state_def logged_in_state_def goto_def flight_init_def record_call_def
        limiter_ran_def fun_eq_iff)
  ultimately show ?thesis by simp
qed

lemma adopting_steps: "flight_steps mb win (refreshing_state r x) (adopting_state r x err)"
proof -
  let ?p = "Some (0, x)" and ?d0 = "refreshing_state r x"
  let ?out = "Inr (Some (1, stale_copy x))"
  let ?d1 = "goto 0 (RefFailing ?p err) ?d0"
  let ?d2 = "goto 0 (RefRetiring (0, x) err) (?d1\<lparr>f_entry := fail err (f_entry ?d1)\<rparr>)"
  let ?d3 = "goto 0 (Unlocking (Inl err))
    (?d2\<lparr>f_entry := set_session (stale_copy x) (f_entry ?d2)\<rparr>)"
  let ?d4 = "goto 0 (Finished (Inl err)) (?d3\<lparr>f_holder := None\<rparr>)"
  let ?d5 = "goto 1 (RefRecheck ?p) (?d4\<lparr>f_holder := Some 1\<rparr>)"
  let ?d6 = "goto 1 (Unlocking ?out) ?d5"
  let ?d7 = "goto 1 (Finished ?out) (?d6\<lparr>f_holder := None\<rparr>)"
  have e [simp]: "f_entry ?d0 = limited_entry r x" "f_holder ?d0 = Some 0"
    "f_pc ?d0 0 = RefRefreshing ?p" "f_pc ?d0 (Suc 0) = RefWaiting ?p"
    "e_next (limited_entry r x) = 1"
    by (simp_all add: refreshing_state_def limited_entry_def store_simps)
  have "flight_step mb win ?d0 ?d1"
    using ref_refresh_returns [of ?d0 0 ?p mb win "Inl err"] by simp
  moreover have "flight_step mb win ?d1 ?d2"
    using ref_fails [of ?d1 0 ?p err mb win] by simp
  moreover have "flight_step mb win ?d2 ?d3"
    using ref_retires [of ?d2 0 "(0, x)" err mb win] by simp
  moreover have "flight_step mb win ?d3 ?d4" by (rule unlock) simp
  moreover have "flight_step mb win ?d4 ?d5" by (rule ref_lock) simp_all
  moreover have "flight_step mb win ?d5 ?d6"
    using ref_adopt [of ?d5 1 ?p mb win] by (simp add: snapshot_def store_simps same_pointer_def)
  moreover have "flight_step mb win ?d6 ?d7" by (rule unlock) simp
  ultimately have "flight_steps mb win ?d0 ?d7"
    by (blast intro: steps_step steps_refl)
  moreover have "?d7 = adopting_state r x err"
    by (simp add: refreshing_state_def adopting_state_def goto_def fun_eq_iff)
  ultimately show ?thesis by simp
qed

lemma refreshing_reachable:
  "1 \<le> mb \<Longrightarrow> 0 < win \<Longrightarrow> flight_reachable mb win r (refreshing_state r x)"
  by (rule reachable_steps [OF refreshing_steps logged_in_reachable])

end
