(* ===== verification/Store_Properties.thy ===== *)
theory Store_Properties
  imports Samples
begin

text \<open>
  What \<open>internal/store\<close> promises its callers: the properties of its sequential operations
  and of their concurrent executions.
\<close>

section \<open>Sequential operations\<close>

lemma put_same_entry: "lookup i st = Inr e \<Longrightarrow> put_entry i e st = st"
proof -
  have "map_of m i = Some e \<Longrightarrow> AList.update i e m = m" for m :: "(string, 'a entry) gomap"
    by (induction m) (auto split: if_splits)
  then show "lookup i st = Inr e \<Longrightarrow> put_entry i e st = st"
    by (auto simp: lookup_def put_entry_def split: option.splits)
qed






text \<open>C6: Identities are isolated: \<open>Get\<close> for an identity hands out only a session of that
  identity that carries a cookie or a token, keeps every entry of the store well formed, and
  changes nothing of any other identity.\<close>

theorem get_isolates_identities:
  assumes "store_ok st" and "store_get tick i st w = (x, st', w')"
  shows "store_ok st' \<and> (\<forall>s. x = Inr s \<longrightarrow> session_ok i s) \<and>
    (\<forall>j. j \<noteq> i \<longrightarrow> lookup j st' = lookup j st)"
  using store_get_ok [OF assms(2,1)] store_get_other [OF assms(2)] by blast

theorem get_isolates_identities_witness:
  "\<exists>st' w'. store_get sample_clock ''ada'' (sample_store (sample_entry ''ada'' True (sample_session ''ada'' 1))) 0
       = (Inr (sample_session ''ada'' (sample_now + 10)), st', w') \<and> store_ok st' \<and>
     session_ok ''ada'' (sample_session ''ada'' (sample_now + 10)) \<and>
     lookup ''bob'' st' = Inl (UnknownIdentity ''bob'')"
proof -
  let ?st = "sample_store (sample_entry ''ada'' True (sample_session ''ada'' 1))"
  obtain x st' w' where run: "store_get sample_clock ''ada'' ?st 0 = (x, st', w')"
    by (metis prod_cases3)
  have "x = Inr (sample_session ''ada'' (sample_now + 10))"
    using run
    by (auto simp: store_get_def get_entry_def get_locked_def snapshot_def check_live_def
        sample_clock_def expired_def sample_now_def rate_limited_def prune_older_than_def Let_def)
  with run get_isolates_identities [OF sample_store_ok run]
  show ?thesis by (intro exI [of _ st'] exI [of _ w']) simp
qed

text \<open>A live session is served without a login: while the session of an identity is
  unexpired, \<open>Get\<close> returns it, makes no call of the recipe (the world moves by one clock
  reading) and leaves the store as it was.\<close>

theorem get_serves_warm_session:
  assumes "lookup i st = Inr e" and "e_session e = Some (a, s)" and "\<not> expired s (fst (tick w))"
  shows "store_get tick i st w = (Inr s, st, snd (tick w))"
  using assms put_same_entry [OF assms(1)]
  by (simp add: store_get_def get_entry_def snapshot_def check_live_def case_prod_beta Let_def)

theorem get_serves_warm_session_witness:
  "store_get sample_clock ''ada'' (sample_store (sample_entry ''ada'' False (sample_session ''ada'' 0))) 7 =
     (Inr (sample_session ''ada'' 0), sample_store (sample_entry ''ada'' False (sample_session ''ada'' 0)), 8)"
  by (subst get_serves_warm_session [where e = "sample_entry ''ada'' False (sample_session ''ada'' 0)" and a = 0 and s = "sample_session ''ada'' 0"])
    (simp_all add: expired_def, simp add: sample_clock_def)

section \<open>The proactive refresh\<close>

text \<open>The pass renews or reports: what it does to the entry of one due identity.\<close>

lemma store_refresh_renews:
  assumes "store_refresh tick i st w = (x, st', w')" and "lookup i st = Inr e"
  shows "(\<exists>err. x = Inl err) \<or>
    (\<exists>s e'. x = Inr (Some s) \<and> lookup i st' = Inr e' \<and> e_session e' = Some (e_next e, s) \<and>
       e_last_err e' = None)"
  using assms(1)
proof (cases rule: store_refresh_cases)
  case unknown
  then show ?thesis by simp
next
  case (known d d')
  with assms(2) have d: "d = e" by simp
  from known(2) show ?thesis
  proof (cases rule: refresh_locked_cases)
    case (refreshed now e1 v u s now')
    then show ?thesis using known(3) d by (auto simp: store_simps rate_limited_frame)
  qed simp_all
qed

definition renewed :: "string \<Rightarrow> 'w store \<Rightarrow> 'w store \<Rightarrow> bool" where
  "renewed i st st' \<longleftrightarrow> (\<exists>e e' s. lookup i st = Inr e \<and> lookup i st' = Inr e' \<and>
     e_session e' = Some (e_next e, s) \<and> e_last_err e' = None)"

lemma refresh_due_keeps_errors:
  "refresh_due tick now within hs errs st w = (errs', st', w') \<Longrightarrow>
   fst ` set errs \<subseteq> fst ` set errs'"
proof (induction hs arbitrary: errs st w)
  case Nil
  then show ?case by simp
next
  case (Cons h hs)
  show ?case
  proof (cases "due now within h")
    case False
    then show ?thesis using Cons.IH [OF Cons.prems [unfolded refresh_due_skip [OF False]]] by simp
  next
    case True
    obtain x st1 w1 where step: "store_refresh tick (h_name h) st w = (x, st1, w1)"
      by (metis prod_cases3)
    from Cons.IH [OF Cons.prems [unfolded refresh_due_step [OF True step]]]
    show ?thesis by (auto simp: dom_update split: sum.splits)
  qed
qed

lemma refresh_due_covers:
  "refresh_due tick now within hs errs st w = (errs', st', w') \<Longrightarrow> distinct (map h_name hs) \<Longrightarrow>
   (\<And>h. h \<in> set hs \<Longrightarrow> \<exists>e. lookup (h_name h) st = Inr e) \<Longrightarrow>
   h \<in> set hs \<Longrightarrow> due now within h \<Longrightarrow> h_name h \<in> fst ` set errs' \<or> renewed (h_name h) st st'"
proof (induction hs arbitrary: errs st w)
  case Nil
  then show ?case by simp
next
  case (Cons k hs)
  show ?case
  proof (cases "due now within k")
    case False
    with Cons.prems have "h \<in> set hs" by auto
    with Cons.IH [OF Cons.prems(1) [unfolded refresh_due_skip [OF False]]] Cons.prems
    show ?thesis by simp
  next
    case True
    obtain x st1 w1 where step: "store_refresh tick (h_name k) st w = (x, st1, w1)"
      by (metis prod_cases3)
    note rest = Cons.prems(1) [unfolded refresh_due_step [OF True step]]
    show ?thesis
    proof (cases "h = k")
      case True
      from Cons.prems(3) [of k] obtain e where e: "lookup (h_name k) st = Inr e" by auto
      have "lookup (h_name k) st' = lookup (h_name k) st1"
        using Cons.prems(2)
        by (intro refresh_due_frame [OF rest]) (metis distinct.simps(2) imageI list.set_map list.simps(9))
      with store_refresh_renews [OF step e] e True refresh_due_keeps_errors [OF rest]
      show ?thesis by (auto simp: renewed_def dom_update)
    next
      case False
      have in_hs: "h \<in> set hs" using Cons.prems(4) False by simp
      with Cons.prems(2) have ne: "h_name h \<noteq> h_name k"
        by (metis distinct.simps(2) imageI list.set_map list.simps(9))
      have "\<exists>e. lookup (h_name g) st1 = Inr e" if g: "g \<in> set hs" for g
      proof -
        from g Cons.prems(2) have "h_name g \<noteq> h_name k"
          by (metis distinct.simps(2) imageI list.set_map list.simps(9))
        with g Cons.prems(3) [of g] store_refresh_other [OF step] show ?thesis by simp
      qed
      with Cons.IH [OF rest] Cons.prems(2,5) in_hs
      have "h_name h \<in> fst ` set errs' \<or> renewed (h_name h) st1 st'" by simp
      then show ?thesis using store_refresh_other [OF step ne] by (simp add: renewed_def)
    qed
  qed
qed

lemma sorted_health_distinct:
  "store_ok st \<Longrightarrow> distinct (map h_name (health st))"
  by (simp add: health_names identities_def store_ok_def)

text \<open>C15: The proactive pass over the store reports errors only for identities that were due,
  leaves every identity that was not due untouched, and for every due identity either reports an
  error or has replaced its session by a new one.\<close>

theorem refresh_expiring_exact:
  assumes "store_ok st" and "refresh_expiring tick within st w = (errs, st', w')"
  shows "store_ok st' \<and>
    (\<forall>h \<in> set (health st). due (fst (tick w)) within h \<longrightarrow>
       h_name h \<in> fst ` set errs \<or> renewed (h_name h) st st') \<and>
    (\<forall>h \<in> set (health st). \<not> due (fst (tick w)) within h \<longrightarrow>
       h_name h \<notin> fst ` set errs \<and> lookup (h_name h) st' = lookup (h_name h) st)"
proof -
  let ?now = "fst (tick w)"
  have run: "refresh_due tick ?now within (health st) [] st (snd (tick w)) = (errs, st', w')"
    using assms(2) by (simp add: refresh_expiring_def case_prod_beta Let_def)
  note names = sorted_health_distinct [OF assms(1)]
  have same: "h = g" if "h \<in> set (health st)" "g \<in> set (health st)" "h_name h = h_name g" for h g
    using that names by (simp add: distinct_map inj_on_def)
  have known: "\<exists>e. lookup (h_name h) st = Inr e" if "h \<in> set (health st)" for h
    by (rule health_member [OF _ that]) (use assms(1) in \<open>simp_all add: store_ok_def\<close>)
  have idle: "h_name h \<notin> fst ` set errs \<and> lookup (h_name h) st' = lookup (h_name h) st"
    if h: "h \<in> set (health st)" "\<not> due ?now within h" for h
  proof
    show "h_name h \<notin> fst ` set errs"
    proof
      assume "h_name h \<in> fst ` set errs"
      with refresh_due_errors [OF run] obtain g where "g \<in> set (health st)" "due ?now within g"
        "h_name h = h_name g" by auto
      with same [OF h(1)] h(2) show False by simp
    qed
    show "lookup (h_name h) st' = lookup (h_name h) st"
    proof (rule refresh_due_frame [OF run])
      fix g assume "g \<in> set (health st)" "h_name g = h_name h"
      then have "h = g" using same [OF h(1)] by simp
      with h(2) show "\<not> due ?now within g" by simp
    qed
  qed
  have "h_name h \<in> fst ` set errs \<or> renewed (h_name h) st st'"
    if "h \<in> set (health st)" "due ?now within h" for h
    using refresh_due_covers [OF run names known that] by simp
  with idle refresh_due_ok [OF run assms(1)] show ?thesis by simp
qed

theorem refresh_expiring_exact_witness:
  "\<exists>st' w'. refresh_expiring sample_clock (60 * second)
       (sample_store (sample_entry ''ada'' True (sample_session ''ada'' sample_now))) 0 = ([], st', w') \<and>
     store_ok st' \<and>
     renewed ''ada'' (sample_store (sample_entry ''ada'' True (sample_session ''ada'' sample_now))) st'"
proof -
  let ?st = "sample_store (sample_entry ''ada'' True (sample_session ''ada'' sample_now))"
  let ?h = "\<lparr>h_name = ''ada'', h_established = True, h_expires_at = sample_now, h_last_refresh = 0,
    h_last_error = None\<rparr>"
  obtain errs st' w' where run: "refresh_expiring sample_clock (60 * second) ?st 0 = (errs, st', w')"
    by (metis prod_cases3)
  have h: "health ?st = [?h]" by (simp add: health_def entry_health_def)
  have d: "due (fst (sample_clock 0)) (60 * second) ?h"
    by (simp add: due_def time_sub_def sample_clock_def sample_now_def)
  have "errs = []"
    using run unfolding refresh_expiring_def h
    by (auto simp: store_refresh_def refresh_locked_def snapshot_def
        sample_clock_def time_sub_def sample_now_def rate_limited_def prune_older_than_def Let_def)
  with run h d refresh_expiring_exact [OF sample_store_ok run] show ?thesis
    by (intro exI [of _ st'] exI [of _ w']) simp
qed

section \<open>Listings\<close>

lemma map_of_mset_eq:
  assumes "distinct (map fst m)" and "mset m = mset m'"
  shows "map_of m i = map_of m' i"
proof -
  have d: "distinct (map fst m')"
    using assms by (metis mset_map mset_eq_imp_distinct_iff)
  have "set m = set m'" using assms(2) by (metis set_mset_mset)
  with assms(1) d show ?thesis by (metis map_of_inject_set)
qed

text \<open>The health report of the store does not depend on the order in which Go iterates the
  map of entries: two stores with the same entries give the same report, one record per identity,
  sorted by name.\<close>

theorem health_is_deterministic:
  assumes "distinct (map fst (st_entries st))" and "mset (st_entries st) = mset (st_entries st')"
  shows "health st = health st' \<and> map h_name (health st) = identities st \<and>
    sorted (identities st)"
proof -
  have "sort (map fst (st_entries st)) = sort (map fst (st_entries st'))"
    using assms(2) by (intro sort_mset_eq) simp
  with map_of_mset_eq [OF assms] have "health st = health st'" by (simp add: health_def)
  moreover have "sorted (identities st)" by (simp add: identities_def)
  ultimately show ?thesis using health_names [of st] by simp
qed

definition sample_pair_store :: "string \<Rightarrow> string \<Rightarrow> nat store" where
  "sample_pair_store i j = \<lparr>st_entries = [(i, sample_entry i True (sample_session i 0)),
     (j, sample_entry j True (sample_session j 0))], st_max_burst = 10, st_window = 60 * second\<rparr>"

theorem health_is_deterministic_witness:
  "health (sample_pair_store ''bob'' ''ada'') = health (sample_pair_store ''ada'' ''bob'') \<and>
   map h_name (health (sample_pair_store ''bob'' ''ada'')) = [''ada'', ''bob'']"
proof -
  have "identities (sample_pair_store ''bob'' ''ada'') = [''ada'', ''bob'']"
    unfolding identities_def sample_pair_store_def by code_simp
  moreover have "distinct (map fst (st_entries (sample_pair_store ''bob'' ''ada'')))"
    "mset (st_entries (sample_pair_store ''bob'' ''ada''))
       = mset (st_entries (sample_pair_store ''ada'' ''bob''))"
    by (simp_all add: sample_pair_store_def add_mset_commute)
  ultimately show ?thesis using health_is_deterministic by metis
qed

section \<open>Concurrent callers\<close>

text \<open>C4: Logins are mutually exclusive: at most one goroutine is inside a call of the
  identity's recipe, whatever the interleaving of \<open>Get\<close> and \<open>Refresh\<close>.\<close>

theorem recipe_calls_exclusive:
  assumes "flight_reachable mb win r s" and "in_recipe (f_pc s i)" and "in_recipe (f_pc s j)"
  shows "i = j"
  using holder_unique [OF reachable_lock_inv [OF assms(1)]] assms(2,3)
  by (simp add: in_recipe_holds)

theorem recipe_calls_exclusive_witness:
  "\<exists>s :: nat flight. flight_reachable 10 second (sample_recipe ''ada'' True 1) s \<and>
     in_recipe (f_pc s 0) \<and> \<not> in_recipe (f_pc s 1)"
proof -
  let ?s = "refreshing_state (sample_recipe ''ada'' True 1) (sample_session ''ada'' 0)"
  have r: "flight_reachable 10 second (sample_recipe ''ada'' True 1) ?s"
    by (rule refreshing_reachable) simp_all
  have i: "in_recipe (f_pc ?s 0)" by (simp add: refreshing_state_def)
  with recipe_calls_exclusive [OF r i, of 1] r show ?thesis by auto
qed

text \<open>C1: Single flight: of all the goroutines that call \<open>Refresh\<close> after seeing one session,
  at most one makes the recipe refresh it.\<close>

theorem one_refresh_per_session:
  assumes "flight_reachable mb win r s"
  shows "length (filter (\<lambda>c. \<exists>t x. c = CallRefresh t (Some (a, x))) (f_calls s)) \<le> 1"
proof -
  have "(\<lambda>c. \<exists>t x. c = CallRefresh t (Some (a, x))) = (\<lambda>c. refresh_of c = Some a)"
  proof
    fix c show "(\<exists>t x. c = CallRefresh t (Some (a, x))) = (refresh_of c = Some a)"
      by (cases c) auto
  qed
  then show ?thesis
    using reachable_single_inv [OF assms] by (simp add: single_inv_def refreshes_def)
qed

theorem one_refresh_per_session_witness:
  "length (filter (\<lambda>c. \<exists>t x. c = CallRefresh t (Some (0, x)))
     (f_calls (refreshing_state (sample_recipe ''ada'' True 1) (sample_session ''ada'' 0)))) = 1"
proof -
  let ?s = "refreshing_state (sample_recipe ''ada'' True 1) (sample_session ''ada'' 0)"
  have "length (filter (\<lambda>c. \<exists>t x. c = CallRefresh t (Some (0, x))) (f_calls ?s)) \<le> 1"
    by (rule one_refresh_per_session [OF refreshing_reachable [of 10 second]]) simp_all
  then show ?thesis by (simp add: refreshing_state_def split: if_splits)
qed



text \<open>C2: The back-off ceiling holds for all goroutines together: in every reachable state, every
  time window of the configured length holds at most the configured number of refresh calls.\<close>

theorem refresh_rate_bounded:
  assumes "flight_reachable mb win r s" and "0 < win" and "0 \<le> mb"
  shows "int (in_window t win (refresh_times (f_calls s))) \<le> mb"
  using reachable_rate_inv [OF assms] by (simp add: window_inv_def)

theorem refresh_rate_bounded_witness:
  "in_window 0 second
     (refresh_times (f_calls (refreshing_state (sample_recipe ''ada'' True 1) (sample_session ''ada'' 0)))) = 1"
proof -
  let ?s = "refreshing_state (sample_recipe ''ada'' True 1) (sample_session ''ada'' 0)"
  have "int (in_window 0 second (refresh_times (f_calls ?s))) \<le> 1"
    by (rule refresh_rate_bounded [OF refreshing_reachable [of 1 second]]) simp_all
  then show ?thesis by (simp add: refreshing_state_def refresh_times_def in_window_def)
qed

text \<open>C24: No caller is lost: whatever state the goroutines have reached, a call that has begun
  can be run to its return, and every step takes the goroutine that makes it strictly nearer to
  its return unless it starts a new call.\<close>

theorem calls_can_return:
  assumes "flight_reachable mb win r s" and "f_pc s i \<noteq> Idle"
  shows "(\<exists>t res. flight_steps mb win s t \<and> f_pc t i = Finished res) \<and>
    (\<forall>t. flight_step mb win s t \<longrightarrow>
       (\<exists>j. (\<forall>k. k \<noteq> j \<longrightarrow> f_pc t k = f_pc s k) \<and>
          (f_pc s j = Idle \<or> rank (f_pc t j) < rank (f_pc s j))))"
  using goroutine_finishes [OF reachable_lock_inv [OF assms(1)] assms(2)] step_rank by blast

theorem calls_can_return_witness:
  "\<exists>t res. flight_steps 10 second
     (refreshing_state (sample_recipe ''ada'' True 1) (sample_session ''ada'' 0)) t \<and>
     f_pc t 1 = Finished res"
  using calls_can_return [OF refreshing_reachable [of 10 second "sample_recipe ''ada'' True 1"], of _ 1]
  by (simp add: refreshing_state_def)

text \<open>C23: The sequential \<open>Get\<close> is a run of the concurrent one: when a goroutine calls it with
  the lock free, it can run alone to its return, with the result and the entry that \<open>get_entry\<close>
  computes.\<close>

theorem get_entry_is_a_run:
  assumes "f_pc s i = Idle" and "f_holder s = None" and "\<And>v. f_limit_at s \<le> fst (tick v)"
    and "get_entry tick mb win (f_entry s) w = (x, e', w')"
  shows "\<exists>t res. flight_steps mb win s t \<and> f_pc t i = Finished res \<and> f_entry t = e' \<and>
    f_holder t = None \<and> caller_result res = some_result x"
  using get_entry_run [OF assms(1,2) _ assms(4)] assms(3)
  by (fastforce simp: clock_ok_def can_run_def run_end_def)

theorem get_entry_is_a_run_witness:
  "\<exists>t res. flight_steps 10 second (flight_init (sample_recipe ''ada'' True 1)) t \<and>
     f_pc t 3 = Finished res \<and>
     caller_result res = Inr (Some (sample_session ''ada'' (sample_now + 1)))"
proof -
  let ?s = "flight_init (sample_recipe ''ada'' True 1)"
  obtain x e' w' where run: "get_entry sample_clock 10 second (f_entry ?s) 0 = (x, e', w')"
    by (metis prod_cases3)
  moreover have "x = Inr (sample_session ''ada'' (sample_now + 1))"
    using run by (auto simp: get_entry_def get_locked_def snapshot_def check_live_def sample_clock_def)
  moreover have "f_limit_at ?s \<le> fst (sample_clock v)" for v
    by (simp add: sample_clock_def sample_now_def)
  ultimately show ?thesis
    using get_entry_is_a_run [of ?s 3 sample_clock 10 second 0 x e' w'] by auto
qed

text \<open>C38: A failed renewal reaches the waiting callers as a success: there is an execution in
  which one goroutine's \<open>Refresh\<close> fails and a second one, which was waiting for it, returns the
  retired copy, expired since 1970, without an error (the adoption of a changed pointer does not
  tell a renewed session from a retired one).\<close>

theorem waiting_refresh_adopts_retired_session:
  "\<exists>s :: 'w flight. flight_reachable 10 (60 * second) r s \<and>
     f_pc s 0 = Finished (Inl err) \<and> f_pc s 1 = Finished (Inr (Some (1, stale_copy x))) \<and>
     f_calls s = [CallEstablish, CallRefresh 0 (Some (0, x))] \<and>
     s_expires_at (stale_copy x) = stale_time"
proof (intro exI conjI)
  show "flight_reachable 10 (60 * second) r (adopting_state r x err)"
    by (rule reachable_steps [OF adopting_steps refreshing_reachable]) simp_all
qed (simp_all add: adopting_state_def stale_copy_def)

end
