(* ===== verification/Go_Net.thy ===== *)
theory Go_Net
  imports Go_Strings
begin

text \<open>
  The parts of Go's packages \<open>net\<close> and \<open>net/netip\<close> that decide whether a host is a
  loopback address: \<open>net.SplitHostPort\<close>, \<open>net.ParseIP\<close> and \<open>IP.IsLoopback\<close>.
\<close>

section \<open>SplitHostPort\<close>

text \<open>The host part, or \<open>None\<close> for any of the errors (missing port, too many colons, stray bracket).\<close>

definition split_host_port :: "string \<Rightarrow> (string \<times> string) option" where
  "split_host_port hp =
     (case cut_last (CHR '':'') hp of
        None \<Rightarrow> None
      | Some (front, port) \<Rightarrow>
          if prefix ''['' hp then
            (case cut (CHR '']'') hp of
               (_, None) \<Rightarrow> None
             | (bhost, Some after) \<Rightarrow>
                 if after = '':'' @ port \<and> CHR ''['' \<notin> set (tl hp) \<and> CHR '']'' \<notin> set after
                 then Some (tl bhost, port) else None)
          else if CHR '':'' \<in> set front \<or> CHR ''['' \<in> set hp \<or> CHR '']'' \<in> set hp then None
          else Some (front, port))"

section \<open>ParseIP\<close>

text \<open>One decimal field: digits only, no leading zero, at most 255.\<close>

definition dec_value :: "string \<Rightarrow> nat" where
  "dec_value s = foldl (\<lambda>v c. v * 10 + (byte c - 48)) 0 s"

definition ip4_field :: "string \<Rightarrow> nat option" where
  "ip4_field s =
     (if s = [] \<or> \<not> list_all is_digit s then None
      else if 1 < length s \<and> hd s = CHR ''0'' then None
      else if 255 < dec_value s then None
      else Some (dec_value s))"

definition parse_ip4 :: "string \<Rightarrow> nat list option" where
  "parse_ip4 s =
     (case map ip4_field (split_on (CHR ''.'') s) of
        [Some a, Some b, Some c, Some d] \<Rightarrow> Some [a, b, c, d]
      | _ \<Rightarrow> None)"

definition hex_digit :: "char \<Rightarrow> nat option" where
  "hex_digit c =
     (if is_digit c then Some (byte c - 48)
      else if 97 \<le> byte c \<and> byte c \<le> 102 then Some (byte c - 87)
      else if 65 \<le> byte c \<and> byte c \<le> 70 then Some (byte c - 55) else None)"

definition hex_value :: "string \<Rightarrow> nat" where
  "hex_value s = foldl (\<lambda>v c. v * 16 + (case hex_digit c of None \<Rightarrow> 0 | Some d \<Rightarrow> d)) 0 s"

text \<open>
  The group loop of \<open>netip.parseIPv6\<close>.  \<open>room\<close> counts the 16-bit groups still free,
  \<open>acc\<close> holds the bytes read so far, \<open>ell\<close> the position of the ellipsis.  The result is
  the bytes, the ellipsis and what is left of the string.
\<close>

fun ip6_groups ::
  "nat \<Rightarrow> nat list \<Rightarrow> nat option \<Rightarrow> string \<Rightarrow> (nat list \<times> nat option \<times> string) option" where
  "ip6_groups 0 acc ell s = Some (acc, ell, s)"
| "ip6_groups (Suc room) acc ell s =
     (let digits = takeWhile (\<lambda>c. hex_digit c \<noteq> None) s;
          rest = dropWhile (\<lambda>c. hex_digit c \<noteq> None) s
      in if digits = [] \<or> 4 < length digits then None
         else if rest \<noteq> [] \<and> hd rest = CHR ''.'' then
           (if (ell = None \<and> length acc \<noteq> 12) \<or> 16 < length acc + 4 then None
            else map_option (\<lambda>v4. (acc @ v4, ell, [])) (parse_ip4 s))
         else
           (let acc' = acc @ [hex_value digits div 256, hex_value digits mod 256] in
            case rest of
              [] \<Rightarrow> Some (acc', ell, [])
            | c # more \<Rightarrow>
                if c \<noteq> CHR '':'' \<or> more = [] then None
                else if hd more = CHR '':'' then
                  (if ell \<noteq> None then None
                   else if tl more = [] then Some (acc', Some (length acc'), [])
                   else ip6_groups room acc' (Some (length acc')) (tl more))
                else ip6_groups room acc' ell more))"

definition expand_ellipsis :: "nat list \<Rightarrow> nat option \<Rightarrow> nat list option" where
  "expand_ellipsis acc ell =
     (case ell of
        None \<Rightarrow> if length acc < 16 then None else Some acc
      | Some p \<Rightarrow>
          if length acc < 16 then Some (take p acc @ replicate (16 - length acc) 0 @ drop p acc)
          else None)"

definition parse_ip6 :: "string \<Rightarrow> nat list option" where
  "parse_ip6 s =
     (let ell = (if prefix ''::'' s then Some 0 else None);
          body = (if prefix ''::'' s then drop 2 s else s)
      in if ell \<noteq> None \<and> body = [] then Some (replicate 16 0)
         else (case ip6_groups 8 [] ell body of
                 None \<Rightarrow> None
               | Some (acc, ell', rest) \<Rightarrow>
                   if rest \<noteq> [] then None else expand_ellipsis acc ell'))"

text \<open>
  \<open>netip.ParseAddr\<close> looks for the first dot, colon or percent sign.  \<open>net.ParseIP\<close>
  refuses an address with a zone, so a percent sign makes it fail in either form.
\<close>

datatype ip = IPv4 "nat list" | IPv6 "nat list"

definition parse_ip :: "string \<Rightarrow> ip option" where
  "parse_ip s =
     (case find (\<lambda>c. c \<in> set ''.:%'') s of
        Some c \<Rightarrow>
          if c = CHR ''.'' then map_option IPv4 (parse_ip4 s)
          else if c = CHR '':'' \<and> CHR ''%'' \<notin> set s then map_option IPv6 (parse_ip6 s)
          else None
      | None \<Rightarrow> None)"

text \<open>\<open>IP.IsLoopback\<close>: 127.0.0.0/8, also in its IPv4-mapped IPv6 form, or ::1.\<close>

definition ip_is_loopback :: "ip \<Rightarrow> bool" where
  "ip_is_loopback a =
     (case a of
        IPv4 b \<Rightarrow> hd b = 127
      | IPv6 b \<Rightarrow>
          if take 12 b = replicate 10 0 @ [255, 255] then b ! 12 = 127
          else b = replicate 15 0 @ [1])"

section \<open>Facts\<close>

lemma parse_ip4_length: "parse_ip4 s = Some b \<Longrightarrow> length b = 4"
  by (auto simp: parse_ip4_def split: list.splits option.splits)

text \<open>A dotted address has only digits and dots, so no DNS name with a letter is one.\<close>

lemma split_on_chars: "c \<in> set s \<Longrightarrow> c = sep \<or> (\<exists>w \<in> set (split_on sep s). c \<in> set w)"
proof (induction sep s rule: split_on.induct)
  case (1 sep)
  then show ?case by simp
next
  case (2 sep x xs)
  then show ?case
    by (cases "split_on sep xs") (auto split: if_splits)
qed

lemma ip4_field_digits: "ip4_field s = Some v \<Longrightarrow> c \<in> set s \<Longrightarrow> is_digit c"
  by (auto simp: ip4_field_def list_all_iff split: if_splits)

lemma parse_ip4_chars:
  assumes "parse_ip4 s = Some b" and "c \<in> set s"
  shows "is_digit c \<or> c = CHR ''.''"
proof -
  from assms(1) have all: "\<forall>w \<in> set (split_on (CHR ''.'') s). ip4_field w \<noteq> None"
    by (auto simp: parse_ip4_def Cons_eq_map_conv split: list.splits option.splits)
  show ?thesis
    using split_on_chars [OF assms(2), of "CHR ''.''"] all ip4_field_digits by fastforce
qed

text \<open>An IPv6 address has only hexadecimal digits, colons and dots.\<close>

lemma hex_digit_of_digit: "is_digit c \<Longrightarrow> hex_digit c \<noteq> None"
  by (simp add: hex_digit_def)

lemma ip6_groups_chars:
  "ip6_groups room acc ell s = Some (acc', ell', []) \<Longrightarrow> c \<in> set s \<Longrightarrow>
   hex_digit c \<noteq> None \<or> c \<in> {CHR '':'', CHR ''.''}"
proof (induction room acc ell s rule: ip6_groups.induct)
  case (1 acc ell s)
  then show ?case by simp
next
  case (2 room acc ell s)
  let ?d = "takeWhile (\<lambda>c. hex_digit c \<noteq> None) s"
  let ?r = "dropWhile (\<lambda>c. hex_digit c \<noteq> None) s"
  show ?case
  proof (cases "c \<in> set ?d")
    case True
    then show ?thesis by (auto dest: set_takeWhileD)
  next
    case False
    have "s = ?d @ ?r" by simp
    with False "2.prems"(2) have r: "c \<in> set ?r" by (metis Un_iff set_append)
    then have ne: "?r \<noteq> []" by (metis empty_iff list.set(1))
    show ?thesis
    proof (cases "hd ?r = CHR ''.''")
      case True
      with "2.prems"(1) ne have "\<exists>v. parse_ip4 s = Some v"
        by (simp add: Let_def split: if_splits) auto
      with parse_ip4_chars "2.prems"(2) hex_digit_of_digit show ?thesis by blast
    next
      case False
      obtain ch more where rr: "?r = ch # more" using ne by (cases ?r) auto
      with False "2.prems"(1) have more: "?r = CHR '':'' # more" "more \<noteq> []"
        by (auto simp: Let_def split: if_splits)
      show ?thesis
      proof (cases "c \<in> set (if hd more = CHR '':'' then tl more else more)")
        case True
        then show ?thesis
          using "2.IH" "2.prems"(1) more False by (auto simp: Let_def split: if_splits)
      next
        case f: False
        with r more show ?thesis
          by (cases more) (auto split: if_splits)
      qed
    qed
  qed
qed

lemma parse_ip6_chars:
  assumes "parse_ip6 s = Some b" and "c \<in> set s"
  shows "hex_digit c \<noteq> None \<or> c \<in> {CHR '':'', CHR ''.''}"
proof (cases "prefix ''::'' s")
  case True
  then obtain t where t: "s = '':'' @ '':'' @ t" by (auto simp: prefix_def)
  show ?thesis
  proof (cases "c \<in> set t")
    case True
    with assms(1) t show ?thesis
      by (auto simp: parse_ip6_def Let_def split: if_splits option.splits dest: ip6_groups_chars)
  next
    case False
    with assms(2) t show ?thesis by auto
  qed
next
  case False
  with assms show ?thesis
    by (auto simp: parse_ip6_def Let_def split: if_splits option.splits dest: ip6_groups_chars)
qed

lemma parse_ip_chars:
  assumes "parse_ip s = Some a" and "c \<in> set s"
  shows "hex_digit c \<noteq> None \<or> c \<in> {CHR '':'', CHR ''.''}"
  using assms parse_ip4_chars [of s _ c] parse_ip6_chars [of s _ c] hex_digit_of_digit [of c]
  by (auto simp: parse_ip_def split: option.splits if_splits)

end
