(* ===== verification/Gateway.thy ===== *)
theory Gateway
  imports Store Go_Net
begin

text \<open>
  Component \<open>internal/gateway\<close> (\<open>gateway.go\<close>, \<open>retry.go\<close>): the guards on an inbound
  request, the request that is built for the target, the anti-CSRF token cache, and the whole
  handler \<open>serve\<close> with its transparent re-authentication.

  The gateway is a record with the store, the recipes and the cache of tokens; the outside world
  is reached through \<open>g_client\<close> (the HTTP client, which follows no redirect) and the clock.
  \<open>g_trace\<close> lists the requests handed to the client and \<open>g_log\<close> the lifecycle events; no
  operation reads either.  A regular expression is a function from a body to its submatches.
\<close>

section \<open>Idempotent methods\<close>

definition idempotent_methods :: "string list" where
  "idempotent_methods = [''GET'', ''HEAD'', ''PUT'', ''DELETE'', ''OPTIONS'', ''TRACE'']"

definition is_idempotent :: "string \<Rightarrow> bool" where
  "is_idempotent method \<longleftrightarrow> to_upper method \<in> set idempotent_methods"

section \<open>Anti-CSRF policies\<close>

record csrf_policy =
  p_fetch_url :: string
  p_pattern :: string
  p_header :: string
  p_methods :: "string list"
  p_re :: matcher

text \<open>The methods of a policy as a set: the loop of \<open>NewCSRFPolicy\<close> over the configured list.\<close>

definition policy_methods :: "string list \<Rightarrow> string list" where
  "policy_methods methods =
     (let ms = remdups (filter (\<lambda>m. m \<noteq> []) (map (\<lambda>m. to_upper (trim_space m)) methods))
      in if ms = [] then [''POST'', ''PUT'', ''DELETE'', ''PATCH''] else ms)"

definition new_csrf_policy ::
  "regexp_compiler \<Rightarrow> string \<Rightarrow> string \<Rightarrow> string \<Rightarrow> string list \<Rightarrow> gerror + csrf_policy" where
  "new_csrf_policy compile fetch_url pattern hdr methods =
     (case compile pattern of
        Inl err \<Rightarrow> Inl (CsrfBadPattern pattern err)
      | Inr re \<Rightarrow> Inr \<lparr>p_fetch_url = fetch_url, p_pattern = pattern, p_header = hdr,
                       p_methods = policy_methods methods, p_re = re\<rparr>)"

record cached_token =
  ct_value :: string
  ct_at :: gtime

definition csrf_ttl :: duration where
  "csrf_ttl = 30 * second"

section \<open>State\<close>

record audit_record =
  a_identity :: string
  a_method :: string
  a_path :: string
  a_status :: int

datatype log_event =
    CsrfFetchFailed string gerror
  | ReauthFailed string gerror
  | Reauthenticated string
  | CsrfRefetchFailed string gerror
  | RetryFailed string gerror
  | ProactiveFailed string gerror
  | ProactiveCycle nat

datatype exchange = Forwarded request | CsrfFetch request

record 'w gateway =
  g_store :: "'w store"
  g_recipes :: "(string, 'w recipe) gomap"
  g_target :: url
  g_client :: "'w client"
  g_require_token :: string
  g_csrf :: "(string, csrf_policy) gomap"
  g_csrf_cache :: "(string, cached_token) gomap"
  g_audit :: "audit_record list option"
  g_log :: "log_event list"
  g_trace :: "exchange list"

definition gateway_new ::
  "'w store \<Rightarrow> (string, 'w recipe) gomap \<Rightarrow> 'w client \<Rightarrow> string \<Rightarrow> ('w gateway \<Rightarrow> 'w gateway) list
     \<Rightarrow> gerror + 'w gateway" where
  "gateway_new st recipes client target opts =
     (case url_parse target of
        Inl err \<Rightarrow> Inl (Wrapped target err)
      | Inr u \<Rightarrow>
          Inr (foldl (\<lambda>g opt. opt g)
            \<lparr>g_store = st, g_recipes = recipes, g_target = u, g_client = client,
             g_require_token = [], g_csrf = [], g_csrf_cache = [], g_audit = None, g_log = [],
             g_trace = []\<rparr> opts))"

definition with_csrf :: "(string, csrf_policy) gomap \<Rightarrow> 'w gateway \<Rightarrow> 'w gateway" where
  "with_csrf policies g = g\<lparr>g_csrf := policies\<rparr>"

text \<open>The request as the server hands it to the handler; reading the body may fail.\<close>

record inbound =
  ib_host :: string
  ib_method :: string
  ib_url :: url
  ib_header :: header
  ib_body :: "gerror + string"

text \<open>
  What the client of the gateway gets: \<open>http.Error\<close> with a message and the error whose text
  is appended to it, or the response of the target.
\<close>

datatype reply =
    HttpError int string "gerror option"
  | Relay int header string

section \<open>Header hygiene\<close>

definition always_hop_by_hop :: "string list" where
  "always_hop_by_hop = [''Connection'', ''Keep-Alive'', ''Transfer-Encoding'', ''Te'', ''Trailer'',
     ''Upgrade'', ''Proxy-Connection'', ''Proxy-Authenticate'', ''Proxy-Authorization'']"

definition hop_by_hop :: "string \<Rightarrow> string list" where
  "hop_by_hop connection =
     always_hop_by_hop @
     map canonical_key (filter (\<lambda>t. t \<noteq> []) (map trim_space (split_on (CHR '','') connection)))"

definition copy_header :: "header \<Rightarrow> header \<Rightarrow> header" where
  "copy_header dst src =
     (let drop = hop_by_hop (hget src ''Connection'')
      in foldl (\<lambda>d (k, vals). if canonical_key k \<in> set drop then d
                               else foldl (\<lambda>d v. hadd d k v) d vals) dst src)"

section \<open>Guards\<close>

text \<open>
  \<open>isLoopbackHost\<close> (gateway.go 413-433).  Lower-casing is that of ASCII: no other letter has a
  lower case among those of \<open>localhost\<close> or the hexadecimal digits.
\<close>

definition host_name :: "string \<Rightarrow> string" where
  "host_name host =
     (let h = (case split_host_port host of None \<Rightarrow> host | Some (h, _) \<Rightarrow> h)
      in trim_suffix (to_lower h) ''.'')"

definition is_loopback_host :: "string \<Rightarrow> bool" where
  "is_loopback_host host =
     (if host = [] then False
      else
        let h = host_name host
        in if h \<in> {''127.0.0.1'', ''localhost'', ''::1''} then True
           else (case parse_ip (trim h ''[]'') of None \<Rightarrow> False | Some ip \<Rightarrow> ip_is_loopback ip))"

text \<open>The guards of \<open>serve\<close> in order: the message of the first that refuses.\<close>

definition guard_refusal :: "'w gateway \<Rightarrow> inbound \<Rightarrow> string option" where
  "guard_refusal g r =
     (let origin = hget (ib_header r) ''Origin'';
          sf = hget (ib_header r) ''Sec-Fetch-Site''
      in if \<not> is_loopback_host (ib_host r) then Some ''forbidden: unexpected Host header''
         else if origin \<noteq> [] \<and>
                 (case url_parse origin of Inl _ \<Rightarrow> True | Inr u \<Rightarrow> \<not> is_loopback_host (u_host u))
           then Some ''forbidden: cross-origin request''
         else if sf \<noteq> [] \<and> sf \<noteq> ''same-origin'' \<and> sf \<noteq> ''none''
           then Some ''forbidden: cross-site request''
         else if g_require_token g \<noteq> [] \<and>
                 hget (ib_header r) ''X-Claviger-Token'' \<noteq> g_require_token g
           then Some ''forbidden: missing or invalid gateway token''
         else None)"

section \<open>Computations of the gateway\<close>

type_synonym ('w, 'a) gwio = "'w gateway \<Rightarrow> 'w \<Rightarrow> (gerror + 'a) \<times> 'w gateway \<times> 'w"

text \<open>Sequencing with the early return \<open>if err != nil { return err }\<close>.\<close>

definition gbind :: "('w, 'a) gwio \<Rightarrow> ('a \<Rightarrow> ('w, 'b) gwio) \<Rightarrow> ('w, 'b) gwio" where
  "gbind c f g w =
     (case c g w of (Inl err, g1, w1) \<Rightarrow> (Inl err, g1, w1) | (Inr a, g1, w1) \<Rightarrow> f a g1 w1)"

definition glift :: "gerror + 'a \<Rightarrow> ('w, 'a) gwio" where
  "glift x g w = (x, g, w)"

text \<open>\<open>g.store.Get\<close>.\<close>

definition session_for :: "'w ticker \<Rightarrow> string \<Rightarrow> ('w, session) gwio" where
  "session_for tick i g w =
     (case store_get tick i (g_store g) w of (x, st, w1) \<Rightarrow> (x, g\<lparr>g_store := st\<rparr>, w1))"

text \<open>\<open>g.client.Do\<close>, then \<open>io.ReadAll\<close> on the body.\<close>

definition round_trip ::
  "(request \<Rightarrow> exchange) \<Rightarrow> request \<Rightarrow> ('w, response \<times> string) gwio" where
  "round_trip tag req g w =
     (let g1 = g\<lparr>g_trace := g_trace g @ [tag req]\<rparr> in
      case g_client g req w of
        (Inl err, w1) \<Rightarrow> (Inl err, g1, w1)
      | (Inr resp, w1) \<Rightarrow>
          (case rs_read_error resp of
             Some err \<Rightarrow> (Inl err, g1, w1)
           | None \<Rightarrow> (Inr (resp, rs_body resp), g1, w1)))"

section \<open>forward\<close>

text \<open>The URL, method, headers and body sent to the target, before a session is applied.\<close>

definition out_url :: "url \<Rightarrow> url \<Rightarrow> url" where
  "out_url target u =
     target\<lparr>u_path := trim_right (u_path target) ''/'' @ u_path u,
            u_raw_path := trim_right (escaped_path target) ''/'' @ escaped_path u,
            u_raw_query := u_raw_query u\<rparr>"

definition out_header :: "header \<Rightarrow> header" where
  "out_header h = hdel (hdel (copy_header [] h) ''X-Claviger-Identity'') ''X-Claviger-Token''"

definition out_request :: "url \<Rightarrow> inbound \<Rightarrow> string \<Rightarrow> gerror + request" where
  "out_request target r body =
     (case new_request (ib_method r) (url_string (out_url target (ib_url r))) body of
        Inl err \<Rightarrow> Inl err
      | Inr req \<Rightarrow> Inr (req\<lparr>rq_header := out_header (ib_header r)\<rparr>))"

definition set_csrf :: "string \<Rightarrow> string \<Rightarrow> request \<Rightarrow> request" where
  "set_csrf hdr token req =
     (if hdr \<noteq> [] \<and> token \<noteq> [] then req\<lparr>rq_header := hset (rq_header req) hdr token\<rparr> else req)"

definition forward ::
  "'w ticker \<Rightarrow> inbound \<Rightarrow> string \<Rightarrow> string \<Rightarrow> bool \<Rightarrow> string \<times> string \<Rightarrow> ('w, response \<times> string) gwio"
where
  "forward tick r body i apply csrf =
     gbind (\<lambda>g. glift (out_request (g_target g) r body) g) (\<lambda>req.
     gbind (if apply
            then gbind (session_for tick i)
                   (\<lambda>s. glift (Inr (set_csrf (fst csrf) (snd csrf) (apply_session s req))))
            else glift (Inr req)) (\<lambda>req'.
     round_trip Forwarded req'))"

section \<open>The anti-CSRF token\<close>

definition fetch_csrf :: "'w ticker \<Rightarrow> string \<Rightarrow> csrf_policy \<Rightarrow> ('w, string) gwio" where
  "fetch_csrf tick i pol =
     gbind (glift (new_request ''GET'' (p_fetch_url pol) [])) (\<lambda>req.
     gbind (session_for tick i) (\<lambda>s.
     gbind (round_trip CsrfFetch (apply_session s req)) (\<lambda>(resp, body).
     glift (case p_re pol body of
              Some (_ # tok # _) \<Rightarrow> Inr tok
            | _ \<Rightarrow> Inl (CsrfNoToken (p_fetch_url pol))))))"

text \<open>\<open>csrfTokenFor\<close> (gateway.go 360-400): the cache, then the fetch that fills it.\<close>

definition cache_fresh :: "'w ticker \<Rightarrow> cached_token option \<Rightarrow> ('w, bool) io" where
  "cache_fresh tick c w =
     (case c of
        None \<Rightarrow> (False, w)
      | Some ct \<Rightarrow> (let (now, w1) = tick w in (time_sub now (ct_at ct) < csrf_ttl, w1)))"

definition csrf_token_for :: "'w ticker \<Rightarrow> string \<Rightarrow> csrf_policy \<Rightarrow> ('w, string) gwio" where
  "csrf_token_for tick i pol g w =
     (let c = map_of (g_csrf_cache g) i; (fresh, w1) = cache_fresh tick c w in
      if fresh then (Inr (ct_value (the c)), g, w1)
      else
        (case fetch_csrf tick i pol g w1 of
           (Inl err, g2, w2) \<Rightarrow> (Inl err, g2, w2)
         | (Inr tok, g2, w2) \<Rightarrow>
             (let (now, w3) = tick w2 in
              (Inr tok,
               g2\<lparr>g_csrf_cache :=
                    AList.update i \<lparr>ct_value = tok, ct_at = now\<rparr> (g_csrf_cache g2)\<rparr>, w3))))"

definition invalidate_csrf :: "string \<Rightarrow> 'w gateway \<Rightarrow> 'w gateway" where
  "invalidate_csrf i g = g\<lparr>g_csrf_cache := AList.delete i (g_csrf_cache g)\<rparr>"

section \<open>serve\<close>

definition log_to :: "log_event \<Rightarrow> 'w gateway \<Rightarrow> 'w gateway" where
  "log_to ev g = g\<lparr>g_log := g_log g @ [ev]\<rparr>"

text \<open>The policy of an identity, when it covers the method.\<close>

definition covering_policy :: "'w gateway \<Rightarrow> string \<Rightarrow> string \<Rightarrow> csrf_policy option" where
  "covering_policy g i method =
     (case map_of (g_csrf g) i of
        None \<Rightarrow> None
      | Some pol \<Rightarrow> if to_upper method \<in> set (p_methods pol) then Some pol else None)"

text \<open>
  The header and token to inject: fetched when a policy covers the method; a failure is logged
  and the pair that was there before stays.
\<close>

definition csrf_pair ::
  "'w ticker \<Rightarrow> (gerror \<Rightarrow> log_event) \<Rightarrow> string \<Rightarrow> string \<Rightarrow> string \<times> string \<Rightarrow> 'w gateway \<Rightarrow> 'w
     \<Rightarrow> (string \<times> string) \<times> 'w gateway \<times> 'w" where
  "csrf_pair tick ev i method old g w =
     (case covering_policy g i method of
        None \<Rightarrow> (old, g, w)
      | Some pol \<Rightarrow>
          (case csrf_token_for tick i pol g w of
             (Inl err, g1, w1) \<Rightarrow> (old, log_to (ev err) g1, w1)
           | (Inr tok, g1, w1) \<Rightarrow> ((p_header pol, tok), g1, w1)))"

text \<open>What follows a response that looks logged out (gateway.go 265-291).\<close>

definition reauth ::
  "'w ticker \<Rightarrow> inbound \<Rightarrow> string \<Rightarrow> string \<Rightarrow> string \<times> string \<Rightarrow> response \<times> string \<Rightarrow> 'w gateway \<Rightarrow> 'w
     \<Rightarrow> (response \<times> string) \<times> 'w gateway \<times> 'w" where
  "reauth tick r body i csrf got g w =
     (case store_refresh tick i (g_store g) w of
        (Inl err, st, w1) \<Rightarrow> (got, log_to (ReauthFailed i err) (g\<lparr>g_store := st\<rparr>), w1)
      | (Inr _, st, w1) \<Rightarrow>
          (let g1 = invalidate_csrf i (log_to (Reauthenticated i) (g\<lparr>g_store := st\<rparr>)) in
           if is_idempotent (ib_method r)
           then
             (let (csrf', g2, w2) =
                    csrf_pair tick (CsrfRefetchFailed i) i (ib_method r) csrf g1 w1
              in case forward tick r body i True csrf' g2 w2 of
                   (Inl err, g3, w3) \<Rightarrow> (got, log_to (RetryFailed i err) g3, w3)
                 | (Inr got', g3, w3) \<Rightarrow> (got', g3, w3))
           else (got, g1, w1)))"

text \<open>The test of the response by the recipe's signature, and what follows.\<close>

definition settle ::
  "'w ticker \<Rightarrow> inbound \<Rightarrow> string \<Rightarrow> string \<Rightarrow> string \<times> string \<Rightarrow> 'w recipe \<Rightarrow> response \<times> string
     \<Rightarrow> 'w gateway \<Rightarrow> 'w \<Rightarrow> (response \<times> string) \<times> 'w gateway \<times> 'w" where
  "settle tick r body i csrf rc got g w =
     (if signature_matches (r_logout rc) (fst got) (snd got)
      then reauth tick r body i csrf got g w else (got, g, w))"

definition audit ::
  "string \<Rightarrow> inbound \<Rightarrow> int \<Rightarrow> 'w gateway \<Rightarrow> 'w gateway" where
  "audit i r status g =
     g\<lparr>g_audit := map_option
         (\<lambda>l. l @ [\<lparr>a_identity = i, a_method = ib_method r, a_path = u_path (ib_url r),
                    a_status = status\<rparr>]) (g_audit g)\<rparr>"

text \<open>After the guards: the body is read, the request forwarded, the session renewed if needed.\<close>

definition relay :: "response \<times> string \<Rightarrow> reply" where
  "relay got = Relay (rs_status (fst got)) (copy_header [] (rs_header (fst got))) (snd got)"

definition serve_admitted ::
  "'w ticker \<Rightarrow> string \<Rightarrow> inbound \<Rightarrow> string \<Rightarrow> 'w gateway \<Rightarrow> 'w \<Rightarrow> reply \<times> 'w gateway \<times> 'w" where
  "serve_admitted tick i r body g w =
     (let rec = map_of (g_recipes g) i;
          (csrf, g1, w1) =
            (if rec = None then (([], []), g, w)
             else csrf_pair tick (CsrfFetchFailed i) i (ib_method r) ([], []) g w)
      in case forward tick r body i (rec \<noteq> None) csrf g1 w1 of
           (Inl err, g2, w2) \<Rightarrow> (HttpError 502 ''forward: '' (Some err), g2, w2)
         | (Inr got, g2, w2) \<Rightarrow>
             (let (got', g3, w3) =
                    (case rec of
                       Some rc \<Rightarrow> settle tick r body i csrf rc got g2 w2
                     | None \<Rightarrow> (got, g2, w2))
              in (relay got', audit i r (rs_status (fst got')) g3, w3)))"

definition serve ::
  "'w ticker \<Rightarrow> string \<Rightarrow> inbound \<Rightarrow> 'w gateway \<Rightarrow> 'w \<Rightarrow> reply \<times> 'w gateway \<times> 'w" where
  "serve tick i r g w =
     (case guard_refusal g r of
        Some msg \<Rightarrow> (HttpError 403 msg None, g, w)
      | None \<Rightarrow>
          (case ib_body r of
             Inl err \<Rightarrow> (HttpError 502 ''read body: '' (Some err), g, w)
           | Inr body \<Rightarrow> serve_admitted tick i r body g w))"

end
