(* ===== verification/Gateway_Facts.thy ===== *)
theory Gateway_Facts
  imports Gateway
begin

text \<open>
  Lemmas about the gateway: what each of its operations leaves of the state, which requests it
  hands to the client and how they were built, how often it forwards, and what the header
  operations keep and drop.
\<close>

section \<open>Headers of a forwarded request\<close>

lemma copy_header_filter:
  "copy_header dst src =
     hadd_all dst (filter (\<lambda>(k, _). canonical_key k \<notin> set (hop_by_hop (hget src ''Connection''))) src)"
proof -
  have "foldl (\<lambda>d (k, vals). if canonical_key k \<in> D then d else foldl (\<lambda>d v. hadd d k v) d vals) dst xs
      = hadd_all dst (filter (\<lambda>(k, _). canonical_key k \<notin> D) xs)" for D and xs :: header
    by (induction xs arbitrary: dst) (auto simp: hadd_all_def)
  then show ?thesis by (simp add: copy_header_def Let_def)
qed

text \<open>Reading a key of the copy: nothing when it is dropped, else every value of the key.\<close>

lemma hvalues_copy_header:
  "hvalues (copy_header [] src) k =
     (if canonical_key k \<in> set (hop_by_hop (hget src ''Connection'')) then []
      else concat (map snd (filter (\<lambda>(j, _). canonical_key j = canonical_key k) src)))"
proof -
  let ?D = "set (hop_by_hop (hget src ''Connection''))"
  have "filter (\<lambda>(j, _). canonical_key j = canonical_key k) (filter (\<lambda>(j, _). canonical_key j \<notin> ?D) src)
      = (if canonical_key k \<in> ?D then [] else filter (\<lambda>(j, _). canonical_key j = canonical_key k) src)"
    by (auto simp: filter_empty_conv filter_filter intro: filter_cong)
  then show ?thesis
    by (simp add: copy_header_filter hvalues_hadd_all)
qed

lemma private_keys [simp]:
  "canonical_key ''X-Claviger-Identity'' = ''X-Claviger-Identity''"
  "canonical_key ''X-Claviger-Token'' = ''X-Claviger-Token''"
  by code_simp+

definition private_key :: "string \<Rightarrow> bool" where
  "private_key k \<longleftrightarrow> k = ''X-Claviger-Identity'' \<or> k = ''X-Claviger-Token''"

lemma hvalues_out_header:
  "hvalues (out_header h) k =
     (if private_key (canonical_key k) \<or> canonical_key k \<in> set (hop_by_hop (hget h ''Connection''))
      then [] else concat (map snd (filter (\<lambda>(j, _). canonical_key j = canonical_key k) h)))"
  by (auto simp: out_header_def hvalues_hdel hvalues_copy_header private_key_def)

lemma out_request_simps:
  assumes "out_request target r body = Inr req"
  shows "rq_header req = out_header (ib_header r)" "rq_body req = body"
    "rq_method req = (if ib_method r = [] then ''GET'' else ib_method r)"
  using assms new_request_body new_request_method
  by (auto simp: out_request_def split: sum.splits)

lemma set_csrf_simps [simp]:
  "rq_method (set_csrf a b q) = rq_method q" "rq_url (set_csrf a b q) = rq_url q"
  "rq_body (set_csrf a b q) = rq_body q"
  by (simp_all add: set_csrf_def)

lemma hvalues_set_csrf:
  "hvalues (rq_header (set_csrf a b q)) k =
     (if a \<noteq> [] \<and> b \<noteq> [] \<and> canonical_key k = canonical_key a then [b] else hvalues (rq_header q) k)"
  by (simp add: set_csrf_def hvalues_hset)

lemma pinned_of_ok [simp]: "session_ok i s \<Longrightarrow> pinned s k = []"
  by (simp add: session_ok_def pinned_def)

section \<open>How the state evolves\<close>

definition settings_of :: "'w gateway \<Rightarrow>
    url \<times> (string, 'w recipe) gomap \<times> 'w client \<times> (string, csrf_policy) gomap \<times> string" where
  "settings_of g = (g_target g, g_recipes g, g_client g, g_csrf g, g_require_token g)"

text \<open>
  From \<open>g\<close> to \<open>h\<close> the configuration stays, the exchanges added satisfy \<open>Q\<close>, the store stays well
  formed, and no identity but \<open>i\<close> is touched.
\<close>

definition evolves :: "string \<Rightarrow> (exchange \<Rightarrow> bool) \<Rightarrow> 'w gateway \<Rightarrow> 'w gateway \<Rightarrow> bool" where
  "evolves i Q g h \<longleftrightarrow>
     settings_of h = settings_of g \<and> (\<exists>ts. g_trace h = g_trace g @ ts \<and> list_all Q ts) \<and>
     store_ok (g_store h) \<and> map fst (st_entries (g_store h)) = map fst (st_entries (g_store g)) \<and>
     (\<forall>j. j \<noteq> i \<longrightarrow> lookup j (g_store h) = lookup j (g_store g))"

lemma config_store [simp]: "settings_of (g\<lparr>g_store := st\<rparr>) = settings_of g"
  by (simp add: settings_of_def)

lemma evolves_refl: "store_ok (g_store g) \<Longrightarrow> evolves i Q g g"
  by (simp add: evolves_def)

lemma evolves_trans: "evolves i Q g h \<Longrightarrow> evolves i Q h k \<Longrightarrow> evolves i Q g k"
  by (auto simp: evolves_def)

lemma evolves_ok: "evolves i Q g h \<Longrightarrow> store_ok (g_store h)"
  by (simp add: evolves_def)

lemma evolves_config: "evolves i Q g h \<Longrightarrow> settings_of h = settings_of g"
  by (simp add: evolves_def)

lemma evolves_same:
  "store_ok (g_store h) \<Longrightarrow> settings_of h = settings_of g \<Longrightarrow> g_trace h = g_trace g \<Longrightarrow>
   g_store h = g_store g \<Longrightarrow> evolves i Q g h"
  by (simp add: evolves_def)

lemma gbind_cases:
  assumes "gbind c f g w = (x, g', w')"
  obtains (fails) err where "c g w = (Inl err, g', w')" "x = Inl err"
  | (runs) a g1 w1 where "c g w = (Inr a, g1, w1)" "f a g1 w1 = (x, g', w')"
  using assms by (auto simp: gbind_def split: prod.splits sum.splits)

lemma glift_simp [simp]: "glift y g w = (x, g', w') \<longleftrightarrow> x = y \<and> g' = g \<and> w' = w"
  by (auto simp: glift_def)

lemma session_for_evolves:
  assumes "session_for tick i g w = (x, g', w')" and "store_ok (g_store g)"
  shows "evolves i Q g g'" and "x = Inr s \<Longrightarrow> session_ok i s" and "g_trace g' = g_trace g"
    and "g_csrf_cache g' = g_csrf_cache g"
proof -
  obtain st where run: "store_get tick i (g_store g) w = (x, st, w')" and g': "g' = g\<lparr>g_store := st\<rparr>"
    using assms(1) by (auto simp: session_for_def split: prod.splits)
  show "evolves i Q g g'" "g_trace g' = g_trace g" "g_csrf_cache g' = g_csrf_cache g"
    using store_get_ok(1) [OF run assms(2)] store_get_other [OF run] store_get_keys [OF run]
    by (simp_all add: g' evolves_def settings_of_def)
  show "x = Inr s \<Longrightarrow> session_ok i s" by (rule store_get_ok(2) [OF run assms(2)])
qed

lemma round_trip_state:
  assumes "round_trip tag q g w = (x, g', w')"
  shows "g' = g\<lparr>g_trace := g_trace g @ [tag q]\<rparr>"
  using assms by (auto simp: round_trip_def Let_def split: prod.splits sum.splits option.splits)

lemma round_trip_evolves:
  assumes "round_trip tag q g w = (x, g', w')" and "store_ok (g_store g)" and "Q (tag q)"
  shows "evolves i Q g g'"
  using round_trip_state [OF assms(1)] assms(2,3) by (simp add: evolves_def settings_of_def)

section \<open>What is sent\<close>

text \<open>
  A pair of header and token that \<open>serve\<close> can inject for the identity and the method, and the
  requests it can send for a managed identity.
\<close>

definition csrf_ok :: "(string, csrf_policy) gomap \<Rightarrow> string \<Rightarrow> string \<times> string \<Rightarrow> bool" where
  "csrf_ok policies i csrf \<longleftrightarrow>
     csrf = ([], []) \<or> (\<exists>pol. map_of policies i = Some pol \<and> fst csrf = p_header pol)"

definition managed_exchange ::
  "url \<Rightarrow> (string, csrf_policy) gomap \<Rightarrow> inbound \<Rightarrow> string \<Rightarrow> string \<Rightarrow> exchange \<Rightarrow> bool" where
  "managed_exchange target policies r body i e \<longleftrightarrow>
     (case e of
        Forwarded q \<Rightarrow> \<exists>s csrf req. session_ok i s \<and> csrf_ok policies i csrf \<and>
          out_request target r body = Inr req \<and>
          q = set_csrf (fst csrf) (snd csrf) (apply_session s req)
      | CsrfFetch q \<Rightarrow> \<exists>s pol req. session_ok i s \<and> map_of policies i = Some pol \<and>
          new_request ''GET'' (p_fetch_url pol) [] = Inr req \<and> q = apply_session s req)"

abbreviation exchange_for :: "'w gateway \<Rightarrow> inbound \<Rightarrow> string \<Rightarrow> string \<Rightarrow> exchange \<Rightarrow> bool" where
  "exchange_for g r body i \<equiv> managed_exchange (g_target g) (g_csrf g) r body i"

lemma exchange_forwarded:
  "session_ok i s \<Longrightarrow> csrf_ok policies i csrf \<Longrightarrow> out_request target r body = Inr req \<Longrightarrow>
   managed_exchange target policies r body i
     (Forwarded (set_csrf (fst csrf) (snd csrf) (apply_session s req)))"
  by (cases csrf) (simp add: managed_exchange_def, metis fst_conv snd_conv)

lemma exchange_for_config: "settings_of h = settings_of g \<Longrightarrow> exchange_for h = exchange_for g"
  by (simp add: settings_of_def fun_eq_iff)

lemma fetch_csrf_evolves:
  assumes run: "fetch_csrf tick i pol g w = (x, g', w')" and ok: "store_ok (g_store g)"
    and pol: "map_of (g_csrf g) i = Some pol"
  shows "evolves i (exchange_for g r body i) g g'"
  using run unfolding fetch_csrf_def
proof (cases rule: gbind_cases)
  case (fails err)
  with ok show ?thesis by (simp add: evolves_refl)
next
  case (runs req g1 w1)
  then have req: "new_request ''GET'' (p_fetch_url pol) [] = Inr req" "g1 = g" by auto
  from runs(2) show ?thesis
  proof (cases rule: gbind_cases)
    case (fails err)
    with ok req(2) show ?thesis by (simp add: session_for_evolves)
  next
    case (runs s g2 w2)
    note one = session_for_evolves [OF runs(1) [unfolded req(2)] ok]
    from runs(2) show ?thesis
    proof (cases rule: gbind_cases)
      case (fails err)
      with one req pol show ?thesis
        by (intro evolves_trans [OF one(1) round_trip_evolves [OF fails(1) evolves_ok [OF one(1)]]])
          (auto simp: managed_exchange_def)
    next
      case (runs got g3 w3)
      from runs(2) have "g' = g3" by (auto split: prod.splits)
      with runs one req pol show ?thesis
        by (intro evolves_trans [OF one(1) round_trip_evolves [OF _ evolves_ok [OF one(1)]]])
          (auto simp: managed_exchange_def)
    qed
  qed
qed

lemma csrf_token_evolves:
  assumes run: "csrf_token_for tick i pol g w = (x, g', w')" and ok: "store_ok (g_store g)"
    and pol: "map_of (g_csrf g) i = Some pol"
  shows "evolves i (exchange_for g r body i) g g'"
proof -
  obtain fresh w1 where c: "cache_fresh tick (map_of (g_csrf_cache g) i) w = (fresh, w1)" by fastforce
  show ?thesis
  proof (cases fresh)
    case True
    with run c ok show ?thesis by (simp add: csrf_token_for_def Let_def evolves_refl)
  next
    case False
    obtain y g2 w2 where f: "fetch_csrf tick i pol g w1 = (y, g2, w2)" by (metis prod_cases3)
    note one = fetch_csrf_evolves [OF f ok pol, of r body]
    from run c False f have "g' = g2 \<or> (\<exists>c. g' = g2\<lparr>g_csrf_cache := c\<rparr>)"
      by (cases y) (auto simp: csrf_token_for_def Let_def split: prod.splits)
    with evolves_ok [OF one] have "evolves i (exchange_for g r body i) g2 g'"
      by (auto intro!: evolves_same simp: settings_of_def)
    with one show ?thesis by (rule evolves_trans)
  qed
qed

lemma evolves_log [simp]:
  "g_store (log_to ev g) = g_store g" "g_trace (log_to ev g) = g_trace g"
  "settings_of (log_to ev g) = settings_of g" "g_csrf_cache (log_to ev g) = g_csrf_cache g"
  "g_audit (log_to ev g) = g_audit g" "g_csrf (log_to ev g) = g_csrf g"
  "g_target (log_to ev g) = g_target g"
  by (simp_all add: log_to_def settings_of_def)

lemma covering_policy_map: "covering_policy g i m = Some pol \<Longrightarrow> map_of (g_csrf g) i = Some pol"
  by (auto simp: covering_policy_def split: option.splits if_splits)

lemma csrf_pair_evolves:
  assumes run: "csrf_pair tick ev i m old g w = (csrf, g', w')" and ok: "store_ok (g_store g)"
    and old: "csrf_ok (g_csrf g) i old"
  shows "evolves i (exchange_for g r body i) g g' \<and> csrf_ok (g_csrf g) i csrf"
proof (cases "covering_policy g i m")
  case None
  with assms show ?thesis by (simp add: csrf_pair_def evolves_refl)
next
  case (Some pol)
  note pol = covering_policy_map [OF this]
  obtain y g1 w1 where t: "csrf_token_for tick i pol g w = (y, g1, w1)" by (metis prod_cases3)
  note one = csrf_token_evolves [OF t ok pol, of r body]
  show ?thesis
  proof (cases y)
    case (Inl err)
    with run Some t old have "csrf = old" "g' = log_to (ev err) g1" by (simp_all add: csrf_pair_def)
    with one old evolves_ok [OF one] show ?thesis by (simp add: evolves_def)
  next
    case (Inr tok)
    with run Some t have "csrf = (p_header pol, tok)" "g' = g1" by (simp_all add: csrf_pair_def)
    with one pol show ?thesis by (simp add: csrf_ok_def)
  qed
qed

text \<open>The three stages of \<open>forward\<close>, for a managed identity.\<close>

lemma forward_managed:
  assumes run: "forward tick r body i True csrf g w = (x, g', w')" and ok: "store_ok (g_store g)"
    and csrf: "csrf_ok (g_csrf g) i csrf"
  shows "evolves i (exchange_for g r body i) g g'"
  using run unfolding forward_def
proof (cases rule: gbind_cases)
  case (fails err)
  with ok show ?thesis by (simp add: evolves_refl)
next
  case (runs req g1 w1)
  then have req: "out_request (g_target g) r body = Inr req" "g1 = g" by auto
  from runs(2) show ?thesis
  proof (cases rule: gbind_cases)
    case (fails err)
    from fails(1) have "gbind (session_for tick i)
        (\<lambda>s. glift (Inr (set_csrf (fst csrf) (snd csrf) (apply_session s req)))) g w1 = (Inl err, g', w')"
      by (simp add: req(2))
    then show ?thesis
    proof (cases rule: gbind_cases)
      case (fails err)
      with ok show ?thesis by (simp add: session_for_evolves)
    qed simp
  next
    case (runs req' g2 w2)
    from runs(1) have "gbind (session_for tick i)
        (\<lambda>s. glift (Inr (set_csrf (fst csrf) (snd csrf) (apply_session s req)))) g w1 = (Inr req', g2, w2)"
      by (simp add: req(2))
    then show ?thesis
    proof (cases rule: gbind_cases)
      case (runs s g3 w3)
      note one = session_for_evolves [OF runs(1) ok]
      from runs have "g3 = g2" "req' = set_csrf (fst csrf) (snd csrf) (apply_session s req)" by auto
      with \<open>round_trip Forwarded req' g2 w2 = (x, g', w')\<close> one csrf req(1) show ?thesis
        by (intro evolves_trans [OF one(1) round_trip_evolves [OF _ evolves_ok [OF one(1)]]])
          (auto intro: exchange_forwarded)
    qed simp
  qed
qed

text \<open>An identity without a recipe: the request goes out as it was built, and nothing else changes.\<close>

lemma forward_anonymous:
  assumes run: "forward tick r body i False csrf g w = (x, g', w')"
  shows "g' = g \<and> (\<exists>err. x = Inl err) \<and> w' = w \<or>
    (\<exists>req. out_request (g_target g) r body = Inr req \<and>
       g' = g\<lparr>g_trace := g_trace g @ [Forwarded req]\<rparr>)"
  using run unfolding forward_def
proof (cases rule: gbind_cases)
  case (runs req g1 w1)
  then have req: "out_request (g_target g) r body = Inr req" "g1 = g" by auto
  from runs(2) have "round_trip Forwarded req g w1 = (x, g', w')"
    by (simp add: req(2) gbind_def glift_def)
  with req show ?thesis by (blast dest: round_trip_state)
qed simp

section \<open>Re-authentication\<close>

lemma invalidate_simps [simp]:
  "g_store (invalidate_csrf i g) = g_store g" "g_trace (invalidate_csrf i g) = g_trace g"
  "settings_of (invalidate_csrf i g) = settings_of g" "g_csrf (invalidate_csrf i g) = g_csrf g"
  "g_target (invalidate_csrf i g) = g_target g"
  "g_csrf_cache (invalidate_csrf i g) = AList.delete i (g_csrf_cache g)"
  by (simp_all add: invalidate_csrf_def settings_of_def)

lemma config_csrf: "settings_of h = settings_of g \<Longrightarrow> g_csrf h = g_csrf g"
  by (simp add: settings_of_def)

text \<open>Everything \<open>reauth\<close> can do, as one case rule.\<close>

lemma reauth_cases:
  assumes "reauth tick r body i csrf got g w = (got', g', w')"
  obtains
    (failed) err st where "store_refresh tick i (g_store g) w = (Inl err, st, w')" "got' = got"
      "g' = log_to (ReauthFailed i err) (g\<lparr>g_store := st\<rparr>)"
  | (surfaced) s st where "store_refresh tick i (g_store g) w = (Inr s, st, w')" "got' = got"
      "\<not> is_idempotent (ib_method r)"
      "g' = invalidate_csrf i (log_to (Reauthenticated i) (g\<lparr>g_store := st\<rparr>))"
  | (replayed) s st w1 csrf' g2 w2 y g3 where "store_refresh tick i (g_store g) w = (Inr s, st, w1)"
      "is_idempotent (ib_method r)"
      "csrf_pair tick (CsrfRefetchFailed i) i (ib_method r) csrf
         (invalidate_csrf i (log_to (Reauthenticated i) (g\<lparr>g_store := st\<rparr>))) w1 = (csrf', g2, w2)"
      "forward tick r body i True csrf' g2 w2 = (y, g3, w')"
      "(case y of Inl err \<Rightarrow> got' = got \<and> g' = log_to (RetryFailed i err) g3
                | Inr got'' \<Rightarrow> got' = got'' \<and> g' = g3)"
proof -
  obtain x st w1 where ref: "store_refresh tick i (g_store g) w = (x, st, w1)" by (metis prod_cases3)
  let ?g1 = "invalidate_csrf i (log_to (Reauthenticated i) (g\<lparr>g_store := st\<rparr>))"
  show ?thesis
  proof (cases x)
    case (Inl err)
    with ref assms show ?thesis by (intro failed [of err st]) (simp_all add: reauth_def)
  next
    case (Inr s)
    show ?thesis
    proof (cases "is_idempotent (ib_method r)")
      case False
      with Inr ref assms show ?thesis
        by (intro surfaced [of s st]) (simp_all add: reauth_def Let_def)
    next
      case True
      obtain csrf' g2 w2 where
        c: "csrf_pair tick (CsrfRefetchFailed i) i (ib_method r) csrf ?g1 w1 = (csrf', g2, w2)"
        by (metis prod_cases3)
      obtain y g3 w3 where f: "forward tick r body i True csrf' g2 w2 = (y, g3, w3)"
        by (metis prod_cases3)
      have "w' = w3" and "case y of Inl err \<Rightarrow> got' = got \<and> g' = log_to (RetryFailed i err) g3
          | Inr got'' \<Rightarrow> got' = got'' \<and> g' = g3"
        using assms Inr ref True c f by (cases y; simp add: reauth_def Let_def)+
      with Inr ref True c f show ?thesis by (intro replayed) simp_all
    qed
  qed
qed

lemma refreshed_evolves:
  assumes "store_refresh tick i (g_store g) w = (x, st, w1)" and "store_ok (g_store g)"
    and "settings_of h = settings_of g" and "g_trace h = g_trace g" and "g_store h = st"
  shows "evolves i Q g h"
  using assms store_refresh_ok(1) [OF assms(1,2)] store_refresh_other [OF assms(1)]
    store_refresh_keys [OF assms(1)]
  by (simp add: evolves_def)

lemma reauth_evolves:
  assumes run: "reauth tick r body i csrf got g w = (got', g', w')" and ok: "store_ok (g_store g)"
    and csrf: "csrf_ok (g_csrf g) i csrf"
  shows "evolves i (exchange_for g r body i) g g'"
  using run
proof (cases rule: reauth_cases)
  case (failed err st)
  then show ?thesis
    by (intro refreshed_evolves [OF failed(1) ok]) simp_all
next
  case (surfaced s st)
  then show ?thesis
    by (intro refreshed_evolves [OF surfaced(1) ok]) simp_all
next
  case (replayed s st w1 csrf' g2 w2 y g3)
  let ?g1 = "invalidate_csrf i (log_to (Reauthenticated i) (g\<lparr>g_store := st\<rparr>))"
  let ?Q = "exchange_for g r body i"
  have one: "evolves i ?Q g ?g1"
    by (rule refreshed_evolves [OF replayed(1) ok]) simp_all
  have c1: "settings_of ?g1 = settings_of g" by (rule evolves_config [OF one])
  have "csrf_ok (g_csrf ?g1) i csrf" using csrf by (simp add: config_csrf [OF c1])
  note step = csrf_pair_evolves [OF replayed(3) evolves_ok [OF one] this, of r body]
  have two: "evolves i ?Q ?g1 g2" using step by (simp add: exchange_for_config [OF c1])
  have c2: "settings_of g2 = settings_of g" using evolves_config [OF two] c1 by simp
  have csrf': "csrf_ok (g_csrf g2) i csrf'"
    using step by (simp add: config_csrf [OF c2] config_csrf [OF c1])
  have three: "evolves i ?Q g2 g3"
    using forward_managed [OF replayed(4) evolves_ok [OF two] csrf']
    by (simp add: exchange_for_config [OF c2])
  have "evolves i ?Q g3 g'"
    using replayed(5) evolves_ok [OF three]
    by (cases y) (simp_all add: evolves_same)
  with one two three show ?thesis by (blast intro: evolves_trans)
qed

section \<open>The handler\<close>

lemma audit_simps [simp]:
  "g_store (audit i r n g) = g_store g" "g_trace (audit i r n g) = g_trace g"
  "settings_of (audit i r n g) = settings_of g" "g_csrf_cache (audit i r n g) = g_csrf_cache g"
  by (simp_all add: audit_def settings_of_def)

text \<open>The stages of a request for a managed identity.\<close>

lemma settle_evolves:
  assumes "settle tick r body i csrf rc got g w = (got', g', w')" and "store_ok (g_store g)"
    and "csrf_ok (g_csrf g) i csrf"
  shows "evolves i (exchange_for g r body i) g g'"
  using assms reauth_evolves [of tick r body i csrf got g w got' g' w']
  by (simp add: settle_def evolves_refl split: if_splits)

lemma serve_managed_cases:
  assumes "serve_admitted tick i r body g w = (rp, g', w')" and "map_of (g_recipes g) i = Some rc"
  obtains
    (failed) csrf g1 w1 err where
      "csrf_pair tick (CsrfFetchFailed i) i (ib_method r) ([], []) g w = (csrf, g1, w1)"
      "forward tick r body i True csrf g1 w1 = (Inl err, g', w')"
      "rp = HttpError 502 ''forward: '' (Some err)"
  | (answered) csrf g1 w1 got g2 w2 got' g3 where
      "csrf_pair tick (CsrfFetchFailed i) i (ib_method r) ([], []) g w = (csrf, g1, w1)"
      "forward tick r body i True csrf g1 w1 = (Inr got, g2, w2)"
      "settle tick r body i csrf rc got g2 w2 = (got', g3, w')"
      "rp = relay got'" "g' = audit i r (rs_status (fst got')) g3"
proof -
  obtain csrf g1 w1 where
    c: "csrf_pair tick (CsrfFetchFailed i) i (ib_method r) ([], []) g w = (csrf, g1, w1)"
    by (metis prod_cases3)
  obtain x g2 w2 where f: "forward tick r body i True csrf g1 w1 = (x, g2, w2)"
    by (metis prod_cases3)
  show ?thesis
  proof (cases x)
    case (Inl err)
    with c f assms show ?thesis
      by (intro failed [of csrf g1 w1 err]) (simp_all add: serve_admitted_def)
  next
    case (Inr got)
    obtain got' g3 w3 where s: "settle tick r body i csrf rc got g2 w2 = (got', g3, w3)"
      by (metis prod_cases3)
    with c f Inr assms show ?thesis
      by (intro answered [of csrf g1 w1 got g2 w2 got' g3]) (simp_all add: serve_admitted_def)
  qed
qed

lemma serve_managed_evolves:
  assumes run: "serve_admitted tick i r body g w = (rp, g', w')"
    and rc: "map_of (g_recipes g) i = Some rc" and ok: "store_ok (g_store g)"
  shows "evolves i (exchange_for g r body i) g g'"
proof -
  let ?Q = "exchange_for g r body i"
  have one: "evolves i ?Q g g1 \<and> csrf_ok (g_csrf g1) i csrf \<and> settings_of g1 = settings_of g"
    if "csrf_pair tick (CsrfFetchFailed i) i (ib_method r) ([], []) g w = (csrf, g1, w1)"
    for csrf g1 w1
  proof -
    have "csrf_ok (g_csrf g) i ([], [])" by (simp add: csrf_ok_def)
    note step = csrf_pair_evolves [OF that ok this, of r body]
    from evolves_config [OF conjunct1 [OF step]] have c: "settings_of g1 = settings_of g" .
    with step show ?thesis by (simp add: config_csrf [OF c])
  qed
  have two: "evolves i ?Q g1 g2"
    if "forward tick r body i True csrf g1 w1 = (x, g2, w2)" "store_ok (g_store g1)"
      "csrf_ok (g_csrf g1) i csrf" "settings_of g1 = settings_of g" for csrf g1 w1 x g2 w2
    using forward_managed [OF that(1,2,3)] by (simp add: exchange_for_config [OF that(4)])
  from run rc show ?thesis
  proof (cases rule: serve_managed_cases)
    case (failed csrf g1 w1 err)
    note o1 = one [OF failed(1)]
    then have "store_ok (g_store g1)" by (simp add: evolves_def)
    from two [OF failed(2) this] o1 have "evolves i ?Q g1 g'" by simp
    then show ?thesis by (rule evolves_trans [OF conjunct1 [OF o1]])
  next
    case (answered csrf g1 w1 got g2 w2 got' g3)
    note o1 = one [OF answered(1)]
    then have "store_ok (g_store g1)" by (simp add: evolves_def)
    from two [OF answered(2) this] o1 have o2: "evolves i ?Q g1 g2" by simp
    with o1 have c2: "settings_of g2 = settings_of g" using evolves_config [OF o2] by simp
    have "csrf_ok (g_csrf g2) i csrf"
      using o1 config_csrf [OF evolves_config [OF o2]] by simp
    from settle_evolves [OF answered(3) evolves_ok [OF o2] this]
    have o3: "evolves i ?Q g2 g3" by (simp only: exchange_for_config [OF c2])
    have "evolves i ?Q g3 g'"
      unfolding answered(5) by (rule evolves_same) (simp_all add: evolves_ok [OF o3])
    then have "evolves i ?Q g2 g'" by (rule evolves_trans [OF o3])
    then have "evolves i ?Q g1 g'" by (rule evolves_trans [OF o2])
    then show ?thesis by (rule evolves_trans [OF conjunct1 [OF o1]])
  qed
qed

section \<open>How often a request is forwarded\<close>

fun forwarded :: "exchange \<Rightarrow> request list" where
  "forwarded (Forwarded q) = [q]"
| "forwarded (CsrfFetch _) = []"

definition forwards :: "exchange list \<Rightarrow> request list" where
  "forwards ts = concat (map forwarded ts)"

lemma forwards_simps [simp]:
  "forwards [] = []" "forwards (ts @ us) = forwards ts @ forwards us"
  "forwards [e] = forwarded e"
  by (simp_all add: forwards_def)

text \<open>From \<open>g\<close> to \<open>h\<close> the trace grows by exchanges of which at most \<open>n\<close> are forwards.\<close>

definition sends :: "nat \<Rightarrow> 'w gateway \<Rightarrow> 'w gateway \<Rightarrow> bool" where
  "sends n g h \<longleftrightarrow> (\<exists>ts. g_trace h = g_trace g @ ts \<and> length (forwards ts) \<le> n)"

lemma sends_same: "g_trace h = g_trace g \<Longrightarrow> sends n g h"
  by (simp add: sends_def)

lemma sends_trans: "sends m g h \<Longrightarrow> sends n h k \<Longrightarrow> m + n \<le> l \<Longrightarrow> sends l g k"
  by (fastforce simp: sends_def)

lemma session_for_trace: "session_for tick i g w = (x, g', w') \<Longrightarrow> g_trace g' = g_trace g"
  by (auto simp: session_for_def split: prod.splits)

lemma round_trip_sends:
  "round_trip tag q g w = (x, g', w') \<Longrightarrow> length (forwarded (tag q)) \<le> n \<Longrightarrow> sends n g g'"
  by (drule round_trip_state) (simp add: sends_def)

lemma fetch_csrf_sends:
  assumes "fetch_csrf tick i pol g w = (x, g', w')"
  shows "sends 0 g g'"
  using assms unfolding fetch_csrf_def
proof (cases rule: gbind_cases)
  case (runs req g1 w1)
  then have g1: "g1 = g" by auto
  from runs(2) show ?thesis
  proof (cases rule: gbind_cases)
    case (fails err)
    then show ?thesis by (simp add: g1 sends_same session_for_trace)
  next
    case (runs s g2 w2)
    have t: "g_trace g2 = g_trace g" using session_for_trace [OF runs(1)] g1 by simp
    from runs(2) show ?thesis
    proof (cases rule: gbind_cases)
      case (fails err)
      from round_trip_sends [OF fails(1), of 0] t show ?thesis by (simp add: sends_def)
    next
      case (runs got g3 w3)
      from runs(2) have "g' = g3" by (auto split: prod.splits)
      with round_trip_sends [OF runs(1), of 0] t show ?thesis by (simp add: sends_def)
    qed
  qed
qed (simp add: sends_same)

lemma csrf_token_sends:
  assumes "csrf_token_for tick i pol g w = (x, g', w')"
  shows "sends 0 g g'"
proof -
  obtain fresh w1 where c: "cache_fresh tick (map_of (g_csrf_cache g) i) w = (fresh, w1)" by fastforce
  obtain y g2 w2 where f: "fetch_csrf tick i pol g w1 = (y, g2, w2)" by (metis prod_cases3)
  from assms c f have "g' = g \<or> g_trace g' = g_trace g2"
    by (cases y) (auto simp: csrf_token_for_def Let_def split: prod.splits if_splits)
  with fetch_csrf_sends [OF f] show ?thesis by (auto simp: sends_def)
qed

lemma csrf_pair_sends:
  assumes "csrf_pair tick ev i m old g w = (csrf, g', w')"
  shows "sends 0 g g'"
proof (cases "covering_policy g i m")
  case None
  with assms show ?thesis by (simp add: csrf_pair_def sends_same)
next
  case (Some pol)
  obtain y g1 w1 where t: "csrf_token_for tick i pol g w = (y, g1, w1)" by (metis prod_cases3)
  with assms Some have "g_trace g' = g_trace g1" by (cases y) (auto simp: csrf_pair_def)
  with csrf_token_sends [OF t] show ?thesis by (simp add: sends_def)
qed

lemma forward_sends:
  assumes "forward tick r body i apply csrf g w = (x, g', w')"
  shows "sends 1 g g'"
  using assms unfolding forward_def
proof (cases rule: gbind_cases)
  case (runs req g1 w1)
  then have g1: "g1 = g" by auto
  have auth: "g_trace g2 = g_trace g"
    if "(if apply then gbind (session_for tick i)
           (\<lambda>s. glift (Inr (set_csrf (fst csrf) (snd csrf) (apply_session s req))))
         else glift (Inr req)) g1 w1 = (y, g2, w2)" for y g2 w2
    using that g1 by (auto simp: gbind_def glift_def split: if_splits prod.splits sum.splits
        dest: session_for_trace)
  from runs(2) show ?thesis
  proof (cases rule: gbind_cases)
    case (fails err)
    with auth show ?thesis by (simp add: sends_same)
  next
    case (runs req' g2 w2)
    from round_trip_sends [OF runs(2), of 1] auth [OF runs(1)] show ?thesis by (simp add: sends_def)
  qed
qed (simp add: sends_same)

lemma reauth_sends:
  assumes "reauth tick r body i csrf got g w = (got', g', w')"
  shows "sends (if is_idempotent (ib_method r) then 1 else 0) g g'"
  using assms
proof (cases rule: reauth_cases)
  case (replayed s st w1 csrf' g2 w2 y g3)
  have a: "sends 0 g g2" using csrf_pair_sends [OF replayed(3)] by (simp add: sends_def)
  have b: "sends 1 g2 g3" by (rule forward_sends [OF replayed(4)])
  have "g_trace g' = g_trace g3" using replayed(5) by (cases y) simp_all
  with sends_trans [OF a b, of 1] replayed(2) show ?thesis by (simp add: sends_def)
qed (simp_all add: sends_same)

lemma serve_sends:
  assumes "serve tick i r g w = (rp, g', w')"
  shows "sends (if is_idempotent (ib_method r) then 2 else 1) g g'"
proof (cases "guard_refusal g r")
  case (Some msg)
  with assms show ?thesis by (simp add: serve_def sends_same)
next
  case None
  show ?thesis
  proof (cases "ib_body r")
    case (Inl err)
    with None assms show ?thesis by (simp add: serve_def sends_same)
  next
    case (Inr body)
    with None assms have run: "serve_admitted tick i r body g w = (rp, g', w')"
      by (simp add: serve_def)
    show ?thesis
    proof (cases "map_of (g_recipes g) i")
      case None
      obtain x g2 w2 where f: "forward tick r body i False ([], []) g w = (x, g2, w2)"
        by (metis prod_cases3)
      with run None have "g_trace g' = g_trace g2" by (cases x) (auto simp: serve_admitted_def)
      with forward_sends [OF f] show ?thesis by (auto simp: sends_def intro: le_trans)
    next
      case (Some rc)
      from run Some show ?thesis
      proof (cases rule: serve_managed_cases)
        case (failed csrf g1 w1 err)
        from sends_trans [OF csrf_pair_sends [OF failed(1)] forward_sends [OF failed(2)], of 1]
        show ?thesis by (auto simp: sends_def intro: le_trans)
      next
        case (answered csrf g1 w1 got g2 w2 got' g3)
        have one: "sends 1 g g2"
          by (rule sends_trans [OF csrf_pair_sends [OF answered(1)] forward_sends [OF answered(2)]])
            simp
        have "sends (if is_idempotent (ib_method r) then 1 else 0) g2 g3"
          using answered(3) reauth_sends [of tick r body i csrf got g2 w2 got' g3 w'] sends_same [of g2 g2]
          by (cases "signature_matches (r_logout rc) (fst got) (snd got)") (simp_all add: settle_def)
        with one have "sends (if is_idempotent (ib_method r) then 2 else 1) g g3"
          by (rule sends_trans) simp
        with answered(5) show ?thesis by (simp add: sends_def)
      qed
    qed
  qed
qed

section \<open>Every exchange of a request\<close>

text \<open>An exchange that \<open>serve\<close> adds was built from the inbound request.\<close>

lemma served_exchange:
  assumes run: "serve tick i r g w = (rp, g', w')" and ok: "store_ok (g_store g)"
    and ts: "g_trace g' = g_trace g @ ts" and e: "e \<in> set ts"
  obtains (managed) rc body where "map_of (g_recipes g) i = Some rc" "ib_body r = Inr body"
      "exchange_for g r body i e"
  | (anonymous) body req where "map_of (g_recipes g) i = None" "ib_body r = Inr body"
      "out_request (g_target g) r body = Inr req" "e = Forwarded req"
proof -
  have "g' \<noteq> g" using ts e by auto
  with run obtain body where body: "ib_body r = Inr body"
    and adm: "serve_admitted tick i r body g w = (rp, g', w')"
    by (auto simp: serve_def split: option.splits sum.splits)
  show ?thesis
  proof (cases "map_of (g_recipes g) i")
    case None
    obtain x g2 w2 where f: "forward tick r body i False ([], []) g w = (x, g2, w2)"
      by (metis prod_cases3)
    with adm None have t: "g_trace g' = g_trace g2" by (cases x) (auto simp: serve_admitted_def)
    from forward_anonymous [OF f] obtain req where "out_request (g_target g) r body = Inr req"
      "g_trace g2 = g_trace g @ [Forwarded req]"
      using t ts e by auto
    with t ts e None body show ?thesis by (intro anonymous [of body req]) auto
  next
    case (Some rc)
    from serve_managed_evolves [OF adm Some ok] obtain us where
      "g_trace g' = g_trace g @ us" "list_all (exchange_for g r body i) us"
      by (auto simp: evolves_def)
    with ts e Some body show ?thesis by (intro managed [of rc body]) (auto simp: list_all_iff)
  qed
qed

text \<open>What a header of a forwarded request can be, for a key the session does not write.\<close>

lemma forwarded_other_key:
  assumes "exchange_for g r body i (Forwarded q)"
    and "canonical_key k \<notin> {''Authorization'', ''Cookie'', ''X-Csrf-Token''}"
    and "\<And>pol. map_of (g_csrf g) i = Some pol \<Longrightarrow> canonical_key (p_header pol) \<noteq> canonical_key k"
  shows "hvalues (rq_header q) k = hvalues (out_header (ib_header r)) k"
proof -
  obtain s csrf req where q: "session_ok i s" "csrf_ok (g_csrf g) i csrf"
    "out_request (g_target g) r body = Inr req"
    "q = set_csrf (fst csrf) (snd csrf) (apply_session s req)"
    using assms(1) by (auto simp: managed_exchange_def)
  have "hvalues (rq_header q) k = hvalues (rq_header (apply_session s req)) k"
    using q(2,4) assms(3) by (auto simp: hvalues_set_csrf csrf_ok_def)
  also have "\<dots> = hvalues (rq_header req) k"
    using assms(2) q(1) by (simp add: apply_header_other)
  finally show ?thesis using out_request_simps(1) [OF q(3)] by simp
qed

text \<open>The header of a request as the server delivers it: canonical keys, each once.\<close>

definition canonical_header :: "header \<Rightarrow> bool" where
  "canonical_header h \<longleftrightarrow> wf_header h \<and> list_all (\<lambda>(k, _). canonical_key k = k) h"

lemma canonical_header_values:
  "canonical_header h \<Longrightarrow>
   concat (map snd (filter (\<lambda>(j, _). canonical_key j = canonical_key k) h)) = hvalues h k"
proof (induction h)
  case Nil
  then show ?case by (simp add: hvalues_def)
next
  case (Cons p h)
  obtain j vs where p: "p = (j, vs)" by (cases p)
  from Cons.prems have h: "canonical_header h" and j: "canonical_key j = j" and new: "j \<notin> fst ` set h"
    by (auto simp: canonical_header_def wf_header_def p)
  show ?case
  proof (cases "j = canonical_key k")
    case True
    with new have "hvalues h k = []"
      by (auto simp: hvalues_def split: option.splits dest: map_of_SomeD_key)
    with True Cons.IH [OF h] j show ?thesis by (simp add: p hvalues_def)
  next
    case False
    with Cons.IH [OF h] j show ?thesis by (simp add: p hvalues_def)
  qed
qed

section \<open>The audit record and the token cache\<close>

lemma gbind_audit:
  assumes "gbind c f g w = (x, g', w')"
    and "\<And>y h v. c g w = (y, h, v) \<Longrightarrow> P h" and "\<And>a h v. c g w = (Inr a, h, v) \<Longrightarrow> P h \<Longrightarrow> f a h v = (x, g', w') \<Longrightarrow> P g'"
  shows "P g'"
  using assms(1) by (cases rule: gbind_cases) (use assms(2,3) in blast)+

lemma session_for_audit:
  "session_for tick i g w = (x, g', w') \<Longrightarrow> g_audit g' = g_audit g \<and> g_csrf_cache g' = g_csrf_cache g"
  by (auto simp: session_for_def split: prod.splits)

lemma fetch_csrf_audit:
  assumes "fetch_csrf tick i pol g w = (x, g', w')"
  shows "g_audit g' = g_audit g \<and> g_csrf_cache g' = g_csrf_cache g"
  using assms unfolding fetch_csrf_def
  by (rule gbind_audit [where P = "\<lambda>h. g_audit h = g_audit g \<and> g_csrf_cache h = g_csrf_cache g"], simp)
    (erule gbind_audit, fastforce dest: session_for_audit, erule gbind_audit,
      auto dest: round_trip_state split: prod.splits)

lemma forward_audit:
  fixes g :: "'w gateway"
  assumes "forward tick r body i apply csrf g w = (x, g', w')"
  shows "g_audit g' = g_audit g \<and> g_csrf_cache g' = g_csrf_cache g"
  using assms unfolding forward_def
proof (rule gbind_audit [where P = "\<lambda>h. g_audit h = g_audit g \<and> g_csrf_cache h = g_csrf_cache g"])
  fix req and h :: "'w gateway" and v
  assume h: "g_audit h = g_audit g \<and> g_csrf_cache h = g_csrf_cache g"
  have auth: "g_audit g2 = g_audit g \<and> g_csrf_cache g2 = g_csrf_cache g"
    if "(if apply then gbind (session_for tick i)
           (\<lambda>s. glift (Inr (set_csrf (fst csrf) (snd csrf) (apply_session s req))))
         else glift (Inr req)) h v = (y, g2, w2)" for y g2 w2
    using that h by (auto simp: gbind_def glift_def split: if_splits prod.splits sum.splits
        dest: session_for_audit)
  assume "gbind (if apply then gbind (session_for tick i)
           (\<lambda>s. glift (Inr (set_csrf (fst csrf) (snd csrf) (apply_session s req))))
         else glift (Inr req)) (round_trip Forwarded) h v = (x, g', w')"
  then show "g_audit g' = g_audit g \<and> g_csrf_cache g' = g_csrf_cache g"
    by (rule gbind_audit [where P = "\<lambda>h. g_audit h = g_audit g \<and> g_csrf_cache h = g_csrf_cache g"])
      (auto dest: auth round_trip_state)
qed simp

text \<open>The three ways \<open>csrfTokenFor\<close> can end.\<close>

lemma csrf_token_cases:
  assumes "csrf_token_for tick i pol g w = (x, g', w')"
  obtains
    (cached) ct where "map_of (g_csrf_cache g) i = Some ct" "x = Inr (ct_value ct)" "g' = g"
      "time_sub (fst (tick w)) (ct_at ct) < csrf_ttl"
  | (failed) w1 err where "fetch_csrf tick i pol g w1 = (Inl err, g', w')" "x = Inl err"
  | (fetched) w1 tok g2 w2 where "fetch_csrf tick i pol g w1 = (Inr tok, g2, w2)" "x = Inr tok"
      "g' = g2\<lparr>g_csrf_cache := AList.update i \<lparr>ct_value = tok, ct_at = fst (tick w2)\<rparr> (g_csrf_cache g2)\<rparr>"
proof -
  obtain fresh w1 where c: "cache_fresh tick (map_of (g_csrf_cache g) i) w = (fresh, w1)" by fastforce
  show ?thesis
  proof (cases fresh)
    case True
    with c obtain ct where "map_of (g_csrf_cache g) i = Some ct"
      "time_sub (fst (tick w)) (ct_at ct) < csrf_ttl"
      by (auto simp: cache_fresh_def Let_def split: option.splits prod.splits)
    with c True assms show ?thesis
      by (intro cached [of ct]) (simp_all add: csrf_token_for_def)
  next
    case False
    obtain y g2 w2 where f: "fetch_csrf tick i pol g w1 = (y, g2, w2)" by (metis prod_cases3)
    show ?thesis
    proof (cases y)
      case (Inl err)
      with f c False assms show ?thesis
        by (intro failed [of w1 err]) (simp_all add: csrf_token_for_def)
    next
      case (Inr tok)
      with f c False assms show ?thesis
        by (intro fetched [of w1 tok g2 w2]) (simp_all add: csrf_token_for_def case_prod_beta Let_def)
    qed
  qed
qed

lemma csrf_token_audit:
  assumes "csrf_token_for tick i pol g w = (x, g', w')"
  shows "g_audit g' = g_audit g"
  using assms by (cases rule: csrf_token_cases) (auto dest: fetch_csrf_audit)

lemma csrf_pair_audit:
  assumes "csrf_pair tick ev i m old g w = (csrf, g', w')"
  shows "g_audit g' = g_audit g"
proof (cases "covering_policy g i m")
  case None
  with assms show ?thesis by (simp add: csrf_pair_def)
next
  case (Some pol)
  obtain y g1 w1 where t: "csrf_token_for tick i pol g w = (y, g1, w1)" by (metis prod_cases3)
  with assms Some have "g_audit g' = g_audit g1" by (cases y) (auto simp: csrf_pair_def)
  with csrf_token_audit [OF t] show ?thesis by simp
qed

lemma settle_audit:
  assumes "settle tick r body i csrf rc got g w = (got', g', w')"
  shows "g_audit g' = g_audit g"
proof (cases "signature_matches (r_logout rc) (fst got) (snd got)")
  case False
  with assms show ?thesis by (simp add: settle_def)
next
  case True
  with assms have "reauth tick r body i csrf got g w = (got', g', w')" by (simp add: settle_def)
  then show ?thesis
  proof (cases rule: reauth_cases)
    case (replayed s st w1 csrf' g2 w2 y g3)
    with csrf_pair_audit [OF replayed(3)] forward_audit [OF replayed(4)] show ?thesis
      by (cases y) (simp_all add: invalidate_csrf_def log_to_def)
  qed (simp_all add: invalidate_csrf_def log_to_def)
qed

lemma serve_admitted_audit:
  assumes run: "serve_admitted tick i r body g w = (rp, g', w')"
  shows "(\<exists>n msg err. rp = HttpError n msg err) \<and> g_audit g' = g_audit g \<or>
    (\<exists>st h b. rp = Relay st h b \<and> g_audit g' = map_option (\<lambda>l. l @ [\<lparr>a_identity = i,
       a_method = ib_method r, a_path = u_path (ib_url r), a_status = st\<rparr>]) (g_audit g))"
proof (cases "map_of (g_recipes g) i")
  case None
  obtain x g2 w2 where f: "forward tick r body i False ([], []) g w = (x, g2, w2)"
    by (metis prod_cases3)
  with run None forward_audit [OF f] show ?thesis
    by (cases x) (auto simp: serve_admitted_def relay_def audit_def)
next
  case (Some rc)
  from run Some show ?thesis
  proof (cases rule: serve_managed_cases)
    case (failed csrf g1 w1 err)
    with csrf_pair_audit [OF failed(1)] forward_audit [OF failed(2)] show ?thesis by simp
  next
    case (answered csrf g1 w1 got g2 w2 got' g3)
    with csrf_pair_audit [OF answered(1)] forward_audit [OF answered(2)] settle_audit [OF answered(3)]
    show ?thesis by (simp add: relay_def audit_def)
  qed
qed

text \<open>A token that \<open>csrfTokenFor\<close> adds to an empty place of the cache was fetched on the way.\<close>

definition fetches :: "'w gateway \<Rightarrow> 'w gateway \<Rightarrow> bool" where
  "fetches g h \<longleftrightarrow> (\<exists>ts q. g_trace h = g_trace g @ ts \<and> CsrfFetch q \<in> set ts)"

lemma fetch_csrf_fetches:
  assumes "fetch_csrf tick i pol g w = (Inr tok, g', w')"
  shows "fetches g g'"
  using assms unfolding fetch_csrf_def
proof (cases rule: gbind_cases)
  case (runs req g1 w1)
  then have g1: "g1 = g" by auto
  from runs(2) show ?thesis
  proof (cases rule: gbind_cases)
    case (runs s g2 w2)
    have t: "g_trace g2 = g_trace g" using session_for_trace [OF runs(1)] g1 by simp
    from runs(2) show ?thesis
    proof (cases rule: gbind_cases)
      case (runs got g3 w3)
      from runs(2) have "g' = g3" by (auto split: prod.splits)
      with round_trip_state [OF runs(1)] t show ?thesis by (auto simp: fetches_def)
    qed simp
  qed simp
qed simp

lemma csrf_pair_fetches:
  assumes "csrf_pair tick ev i m old g w = (csrf, g', w')" and "map_of (g_csrf_cache g) i = None"
    and "map_of (g_csrf_cache g') i = Some ct"
  shows "fetches g g'"
proof (cases "covering_policy g i m")
  case None
  with assms show ?thesis by (simp add: csrf_pair_def)
next
  case (Some pol)
  obtain y g1 w1 where t: "csrf_token_for tick i pol g w = (y, g1, w1)" by (metis prod_cases3)
  with assms(1) Some have g': "g_trace g' = g_trace g1" "g_csrf_cache g' = g_csrf_cache g1"
    by (cases y; auto simp: csrf_pair_def)+
  from t show ?thesis
  proof (cases rule: csrf_token_cases)
    case (cached c)
    with assms(2) show ?thesis by simp
  next
    case (failed w2 err)
    with fetch_csrf_audit [OF failed(1)] assms(2,3) g' show ?thesis by simp
  next
    case (fetched w2 tok g2 w3)
    with fetch_csrf_fetches [OF fetched(1)] g' show ?thesis by (simp add: fetches_def)
  qed
qed

end
