(* ===== verification/Go_Url_Facts.thy ===== *)
theory Go_Url_Facts
  imports Go_Http
begin

text \<open>
  Round trips of \<open>net/url\<close>: decoding an escaped string gives it back, the escaped path of a URL
  decodes to its path, and a URL built from a plain host and an escaped path parses back to that
  host and that path, byte for byte.
\<close>

section \<open>Escaping and decoding\<close>

lemma upper_hex_digit:
  assumes "n < 16"
  shows "is_alnum (upper_hex n) \<and> is_hex (upper_hex n) \<and> unhex (upper_hex n) = n"
proof -
  have "list_all (\<lambda>n. is_alnum (upper_hex n) \<and> is_hex (upper_hex n) \<and> unhex (upper_hex n) = n) [0..<16]"
    by code_simp
  with assms show ?thesis by (simp only: list_all_iff) simp
qed

lemma byte_less: "byte c < 256"
  by (cases c) (simp add: byte_def)

lemma hex_pair_back:
  "is_hex (upper_hex (byte c div 16)) \<and> is_hex (upper_hex (byte c mod 16)) \<and>
   unhex_pair (upper_hex (byte c div 16)) (upper_hex (byte c mod 16)) = c"
proof -
  have "byte c div 16 < 16" "byte c mod 16 < 16" using byte_less [of c] by auto
  moreover have "char_of (byte c div 16 * 16 + byte c mod 16) = c" by (simp add: byte_def)
  ultimately show ?thesis by (simp add: upper_hex_digit unhex_pair_def)
qed

lemma plain_not_percent: "\<not> should_escape c mode \<Longrightarrow> c \<noteq> CHR ''%''"
  by (cases mode) (auto simp: should_escape_def is_alnum_def is_digit_def is_lower_def is_upper_def
      byte_def)

lemma plain_not_plus: "\<not> should_escape c EncodeQueryComponent \<Longrightarrow> c \<noteq> CHR ''+''"
  by (auto simp: should_escape_def is_alnum_def is_digit_def is_lower_def is_upper_def byte_def)

lemma escape_simps [simp]:
  "escape [] mode = []" "escape (a @ b) mode = escape a mode @ escape b mode"
  by (simp_all add: escape_def)

lemma unescape_escape:
  assumes "mode \<noteq> EncodeHost" and "mode \<noteq> EncodeZone"
  shows "unescape mode (escape s mode) = Some s"
proof (induction s)
  case Nil
  then show ?case by simp
next
  case (Cons c s)
  have ok: "\<not> bad_triple mode a b" "\<not> bad_plain mode a" for a b
    using assms by (cases mode; simp add: bad_triple_def bad_plain_def)+
  have plus: "\<not> (c = CHR ''+'' \<and> mode = EncodeQueryComponent)" if "\<not> should_escape c mode"
    using that plain_not_plus by auto
  have one: "escape (c # s) mode = escape [c] mode @ escape s mode"
    by (simp add: escape_def)
  have "unescape mode (escape [c] mode) = Some [c]"
    using hex_pair_back [of c] ok plain_not_percent [of c mode] plus
    by (auto simp: escape_def)
  from unescape_append [OF this Cons.IH] one show ?case by simp
qed

lemma valid_escape_mode:
  assumes "mode = EncodePath \<or> mode = EncodePathSegment"
  shows "valid_encoded (escape s mode) EncodePath"
proof (induction s)
  case (Cons c s)
  have "byte c div 16 < 16" "byte c mod 16 < 16" using byte_less [of c] by auto
  then have "valid_encoded (escape [c] EncodePath) EncodePath"
    "valid_encoded (escape [c] EncodePathSegment) EncodePath"
    by (auto simp: escape_def valid_encoded_def should_escape_def upper_hex_digit)
  with assms have "valid_encoded (escape [c] mode) EncodePath" by blast
  moreover have "escape (c # s) mode = escape [c] mode @ escape s mode"
    by (simp add: escape_def)
  ultimately show ?case using Cons by simp
qed simp

lemmas valid_escape = valid_escape_mode [OF disjI1 [OF refl]]
lemmas valid_escape_segment = valid_escape_mode [OF disjI2 [OF refl]]

text \<open>A path segment that was escaped is read back by the rules of a whole path.\<close>

lemma unescape_path_segment: "unescape EncodePath s = unescape EncodePathSegment s"
  by (induction "EncodePathSegment" s rule: unescape.induct)
    (auto simp: bad_triple_def bad_plain_def split: list.splits)

lemma escaped_path_valid: "valid_encoded (escaped_path u) EncodePath"
proof -
  have "valid_encoded ''*'' EncodePath" by code_simp
  then show ?thesis by (simp add: escaped_path_def valid_escape)
qed

lemma escaped_path_decodes: "unescape EncodePath (escaped_path u) = Some (u_path u)"
proof -
  have "unescape EncodePath ''*'' = Some ''*''" by code_simp
  then show ?thesis by (auto simp: escaped_path_def unescape_escape)
qed

text \<open>Bytes that a valid encoding of a path does not contain.\<close>

lemma plain_path_byte:
  "\<not> should_escape c EncodePath \<Longrightarrow>
   is_alnum c \<or> c \<in> set ''-_.~'' \<or> c \<in> set ''$&+,/:;=?@'' \<and> c \<noteq> CHR ''?''"
  unfolding should_escape_def
  by (simp only: encoding.simps encoding.distinct simp_thms split: if_splits)

lemma byte_ranges:
  "is_alnum c \<Longrightarrow> 48 \<le> byte c \<and> byte c < 123 \<and> byte c \<noteq> 63"
  "c \<in> set ''-_.~'' \<Longrightarrow> byte c \<in> {45, 95, 46, 126}"
  "c \<in> set ''$&+,/:;=?@'' \<Longrightarrow> byte c \<in> {36, 38, 43, 44, 47, 58, 59, 61, 63, 64}"
  "c \<in> set ''!$&'()*+,;=:@[]%'' \<Longrightarrow>
     byte c \<in> {33, 36, 38, 39, 40, 41, 42, 43, 44, 59, 61, 58, 64, 91, 93, 37}"
  by (auto simp: is_alnum_def is_digit_def is_lower_def is_upper_def byte_def)

lemma byte_marks: "byte (CHR ''#'') = 35" "byte (CHR ''?'') = 63" "byte (CHR ''/'') = 47"
  by (simp_all add: byte_def)

lemma valid_path_bytes:
  assumes "valid_encoded p EncodePath" and "c \<in> set p"
  shows "byte c \<noteq> 35 \<and> byte c \<noteq> 63 \<and> \<not> (byte c < 32 \<or> byte c = 127)"
proof -
  have "c \<in> set ''!$&'()*+,;=:@[]%'' \<or> \<not> should_escape c EncodePath"
    using assms unfolding valid_encoded_def list_all_iff by blast
  then show ?thesis
  proof
    assume "c \<in> set ''!$&'()*+,;=:@[]%''"
    from byte_ranges(4) [OF this] show ?thesis by auto
  next
    assume "\<not> should_escape c EncodePath"
    from plain_path_byte [OF this] consider "is_alnum c" | "c \<in> set ''-_.~''"
      | "c \<in> set ''$&+,/:;=?@''" "c \<noteq> CHR ''?''"
      by blast
    then show ?thesis
    proof cases
      case 1
      from byte_ranges(1) [OF this] show ?thesis by auto
    next
      case 2
      from byte_ranges(2) [OF this] show ?thesis by auto
    next
      case 3
      then have "byte c \<noteq> 63" using byte_marks(2) byte_eq_iff by metis
      with byte_ranges(3) [OF 3(1)] show ?thesis by auto
    qed
  qed
qed

section \<open>Parsing a URL that was built from its parts\<close>

text \<open>A host of letters, digits and \<open>-_.:\<close> that parses as itself, its port not empty.\<close>

definition plain_host :: "string \<Rightarrow> bool" where
  "plain_host h \<longleftrightarrow> h \<noteq> [] \<and> list_all (\<lambda>c. is_alnum c \<or> c \<in> set ''-_.:'') h \<and>
     parse_host h = Some h \<and> remove_empty_port h = h"

definition plain_query :: "string \<Rightarrow> bool" where
  "plain_query q \<longleftrightarrow> CHR ''#'' \<notin> set q \<and> \<not> has_ctl_byte q"

definition query_part :: "string \<Rightarrow> string" where
  "query_part q = (if q = [] then [] else ''?'' @ q)"

lemma colon_range: "c \<in> set ''-_.:'' \<Longrightarrow> byte c \<in> {45, 95, 46, 58}"
  by (auto simp: byte_def)

lemma plain_host_byte:
  assumes "plain_host h" and "c \<in> set h"
  shows "45 \<le> byte c \<and> byte c < 123 \<and> byte c \<notin> {47, 63, 64}"
proof -
  from assms consider "is_alnum c" | "c \<in> set ''-_.:''"
    by (auto simp only: plain_host_def list_all_iff)
  then show ?thesis
  proof cases
    case 1
    then show ?thesis
      by (auto simp: is_alnum_def is_digit_def is_lower_def is_upper_def)
  next
    case 2
    from colon_range [OF this] show ?thesis by auto
  qed
qed

lemma host_not_escaped:
  assumes "is_alnum c \<or> c \<in> set ''-_.:''"
  shows "\<not> should_escape c EncodeHost"
  using assms by (auto simp: should_escape_def)

lemma escape_plain_host: "plain_host h \<Longrightarrow> escape h EncodeHost = h"
proof -
  assume "plain_host h"
  then have "list_all (\<lambda>c. is_alnum c \<or> c \<in> set ''-_.:'') h" by (simp only: plain_host_def)
  then show ?thesis
  proof (induction h)
    case (Cons c h)
    then have "\<not> should_escape c EncodeHost" and "escape h EncodeHost = h"
      using host_not_escaped [of c] by (simp_all only: list.pred_inject(2) simp_thms)
    then show ?case by (simp add: escape_def)
  qed simp
qed

lemma takeWhile_append_stop:
  "list_all P a \<Longrightarrow> \<not> P c \<Longrightarrow> takeWhile P (a @ c # b) = a \<and> dropWhile P (a @ c # b) = c # b"
  by (induction a) auto

lemma cut_at: "c \<notin> set a \<Longrightarrow> cut c (a @ c # b) = (a, Some b)"
  by (induction a) (auto split: prod.splits)

lemma cut_absent: "c \<notin> set a \<Longrightarrow> cut c a = (a, None)"
  by (induction a) (auto split: prod.splits)

lemma cut_last_absent: "c \<notin> set a \<Longrightarrow> cut_last c a = None"
  by (simp add: cut_last_def cut_absent)

lemma split_query_part:
  assumes "CHR ''?'' \<notin> set a"
  shows "split_query (a @ query_part q) = (a, False, q)"
proof (cases "q = []")
  case True
  with assms have "\<not> has_suffix a ''?''"
    by (auto simp: has_suffix_iff suffix_def)
  with True assms show ?thesis by (simp add: split_query_def query_part_def cut_absent)
next
  case False
  have zero: "count_list a (CHR ''?'') = 0" using assms by (simp add: count_list_0_iff)
  have "\<not> (has_suffix (a @ ''?'' @ q) ''?'' \<and> count_list (a @ ''?'' @ q) (CHR ''?'') = 1)"
  proof
    assume h: "has_suffix (a @ ''?'' @ q) ''?'' \<and> count_list (a @ ''?'' @ q) (CHR ''?'') = 1"
    then have "count_list q (CHR ''?'') = 0" using zero by (simp add: count_list_append)
    then have no: "CHR ''?'' \<notin> set q" by (simp add: count_list_0_iff)
    from h obtain zs where "a @ ''?'' @ q = zs @ ''?''" by (auto simp: has_suffix_iff suffix_def)
    then have "last (a @ ''?'' @ q) = last (zs @ ''?'')" by (rule arg_cong)
    with False have "last q = CHR ''?''" by simp
    with False no show False using last_in_set by metis
  qed
  with False assms show ?thesis by (simp add: split_query_def query_part_def cut_at)
qed

lemma scheme_scan_http:
  "get_scheme (''http://'' @ rest) = Some (''http'', ''//'' @ rest)"
  "get_scheme (''https://'' @ rest) = Some (''https'', ''//'' @ rest)"
  by (simp_all add: get_scheme_def is_lower_def is_upper_def is_digit_def byte_def)

lemma lower_http: "to_lower ''http'' = ''http''" "to_lower ''https'' = ''https''"
  by code_simp+

definition web_scheme :: "string \<Rightarrow> bool" where
  "web_scheme s \<longleftrightarrow> s = ''http'' \<or> s = ''https''"

definition built_url :: "string \<Rightarrow> string \<Rightarrow> string \<Rightarrow> string \<Rightarrow> string \<Rightarrow> url" where
  "built_url scheme h p path q =
     empty_url\<lparr>u_scheme := scheme, u_host := h, u_path := path,
       u_raw_path := (if p = escape path EncodePath then [] else p), u_raw_query := q\<rparr>"

lemma parse_rest_built:
  assumes scheme: "web_scheme scheme" and host: "plain_host h"
    and p: "valid_encoded p EncodePath" "unescape EncodePath p = Some path" "prefix ''/'' p"
  shows "parse_rest scheme (''//'' @ h @ p @ query_part q) = Some (built_url scheme h p path q)"
proof -
  obtain p' where p': "p = CHR ''/'' # p'" using p(3) by (auto simp: prefix_def)
  have marks: "CHR ''/'' \<notin> set h" "CHR ''@'' \<notin> set h" "CHR ''?'' \<notin> set h"
    using plain_host_byte [OF host, of "CHR ''/''"] plain_host_byte [OF host, of "CHR ''@''"]
      plain_host_byte [OF host, of "CHR ''?''"] by (auto simp: byte_def)
  then have slash: "list_all (\<lambda>c. c \<noteq> CHR ''/'') h" by (auto simp: list_all_iff)
  note at = marks(2) and quest = marks(3)
  have "CHR ''?'' \<notin> set p" using valid_path_bytes [OF p(1)] byte_marks(2) by metis
  with quest have split: "split_query ((''//'' @ h @ p) @ query_part q) = (''//'' @ h @ p, False, q)"
    by (intro split_query_part) simp
  have auth: "parse_authority h = Some (None, h)"
    using host at by (simp add: parse_authority_def cut_last_absent plain_host_def)
  from takeWhile_append_stop [OF slash, of "CHR ''/''" p']
  have cuts: "takeWhile (\<lambda>c. c \<noteq> CHR ''/'') (h @ p) = h" "dropWhile (\<lambda>c. c \<noteq> CHR ''/'') (h @ p) = p"
    by (simp_all add: p')
  have ne: "scheme \<noteq> []" using scheme by (auto simp: web_scheme_def)
  from split have "split_query (''//'' @ h @ p @ query_part q) = (''//'' @ h @ p, False, q)" by simp
  with auth cuts ne p(2) show ?thesis
    by (simp add: parse_rest_def set_path_def built_url_def empty_url_def)
qed

lemma url_parse_built:
  assumes scheme: "web_scheme scheme" and host: "plain_host h"
    and p: "valid_encoded p EncodePath" "unescape EncodePath p = Some path" "prefix ''/'' p"
    and q: "plain_query q"
  shows "url_parse (scheme @ ''://'' @ h @ p @ query_part q) = Inr (built_url scheme h p path q)"
proof -
  let ?raw = "scheme @ ''://'' @ h @ p @ query_part q"
  have hb: "byte c \<noteq> 35 \<and> \<not> (byte c < 32 \<or> byte c = 127)" if "c \<in> set h" for c
    using plain_host_byte [OF host that] by auto
  have qb: "byte c \<noteq> 35 \<and> \<not> (byte c < 32 \<or> byte c = 127)" if "c \<in> set (query_part q)" for c
  proof -
    from that consider "byte c = 63" | "c \<in> set q"
      using byte_marks(2) by (auto simp: query_part_def split: if_splits)
    then show ?thesis
    proof cases
      case 2
      with q have "c \<noteq> CHR ''#''" and ctl: "\<not> (byte c < 32 \<or> byte c = 127)"
        by (auto simp: plain_query_def has_ctl_byte_def list_ex_iff)
      then have "byte c \<noteq> 35" using byte_marks(1) byte_eq_iff by metis
      with ctl show ?thesis by simp
    qed simp
  qed
  have sb: "byte c \<noteq> 35 \<and> \<not> (byte c < 32 \<or> byte c = 127)" if "c \<in> set (scheme @ ''://'')" for c
    using scheme that by (auto simp: web_scheme_def byte_def)
  have all: "byte c \<noteq> 35 \<and> \<not> (byte c < 32 \<or> byte c = 127)" if "c \<in> set ?raw" for c
  proof -
    from that consider "c \<in> set (scheme @ ''://'')" | "c \<in> set h" | "c \<in> set p" | "c \<in> set (query_part q)"
      by (auto simp only: set_append)
    then show ?thesis
      by cases (use sb hb qb valid_path_bytes [OF p(1)] in blast)+
  qed
  have hash: "CHR ''#'' \<notin> set ?raw" using all byte_marks(1) by blast
  have ctl: "\<not> has_ctl_byte ?raw" using all by (simp only: has_ctl_byte_def list_ex_iff) blast
  have star: "?raw \<noteq> ''*''" using scheme by (auto simp: web_scheme_def)
  have get: "get_scheme ?raw = Some (scheme, ''//'' @ h @ p @ query_part q) \<and> to_lower scheme = scheme"
    using scheme scheme_scan_http [of "h @ p @ query_part q"] lower_http by (auto simp: web_scheme_def)
  have "url_parse_nofrag ?raw = Some (built_url scheme h p path q)"
    using ctl star get parse_rest_built [OF scheme host p] by (simp only: url_parse_nofrag_def) simp
  then show ?thesis by (simp only: url_parse_def cut_absent [OF hash]) simp
qed

lemma built_url_path:
  assumes "valid_encoded p EncodePath" and "unescape EncodePath p = Some path" and "prefix ''/'' p"
  shows "escaped_path (built_url scheme h p path q) = p"
proof -
  obtain p' where p': "p = CHR ''/'' # p'" using assms(3) by (auto simp: prefix_def)
  with assms(2) have "path \<noteq> ''*''" by (auto simp: bad_plain_def)
  with assms p' show ?thesis by (simp add: built_url_def escaped_path_def empty_url_def)
qed

lemma escaped_path_host: "escaped_path (u\<lparr>u_host := h\<rparr>) = escaped_path u"
  by (simp add: escaped_path_def)

section \<open>Joining paths\<close>

lemma trim_right_snoc:
  "trim_right (s @ [c]) cs = (if c \<in> set cs then trim_right s cs else s @ [c])"
  by (simp add: trim_right_def)

lemma slash_plain: "escape ''/'' EncodePath = ''/''"
  by code_simp

lemma escape_last_not_slash:
  assumes "c \<noteq> CHR ''/''"
  shows "\<exists>ys d. escape [c] EncodePath = ys @ [d] \<and> d \<noteq> CHR ''/''"
proof (cases "should_escape c EncodePath")
  case False
  with assms show ?thesis by (intro exI [of _ "[]"] exI [of _ c]) (simp add: escape_def)
next
  case True
  let ?d = "upper_hex (byte c mod 16)"
  have "is_alnum ?d" using upper_hex_digit [of "byte c mod 16"] by simp
  then have "?d \<noteq> CHR ''/''"
    by (auto simp: is_alnum_def is_digit_def is_lower_def is_upper_def byte_def)
  with True show ?thesis
    by (intro exI [of _ "[CHR ''%'', upper_hex (byte c div 16)]"] exI [of _ ?d])
      (simp add: escape_def)
qed

lemma trim_escape: "trim_right (escape p EncodePath) ''/'' = escape (trim_right p ''/'') EncodePath"
proof (induction p rule: rev_induct)
  case Nil
  then show ?case by (simp add: trim_right_def)
next
  case (snoc c p)
  show ?case
  proof (cases "c = CHR ''/''")
    case True
    with snoc show ?thesis
      by (simp add: trim_right_snoc slash_plain)
  next
    case False
    from escape_last_not_slash [OF False] obtain ys d where
      "escape [c] EncodePath = ys @ [d]" "d \<noteq> CHR ''/''" by auto
    with False show ?thesis
      using trim_right_snoc [of "escape p EncodePath @ ys" d "''/''"] by (simp add: trim_right_snoc)
  qed
qed

text \<open>The path and the raw path that \<open>forward\<close> joins agree, so the escaped path is the raw one.\<close>

lemma joined_path:
  fixes t u :: url
  assumes "u_raw_path t = []" and "u_path t = [] \<or> prefix ''/'' (u_path t)"
  defines "p \<equiv> trim_right (escaped_path t) ''/'' @ escaped_path u"
  shows "valid_encoded p EncodePath"
    and "unescape EncodePath p = Some (trim_right (u_path t) ''/'' @ u_path u)"
proof -
  have t: "escaped_path t = escape (u_path t) EncodePath"
    using assms(1,2) by (auto simp: escaped_path_def)
  have front: "trim_right (escaped_path t) ''/'' = escape (trim_right (u_path t) ''/'') EncodePath"
    by (simp add: t trim_escape)
  show "valid_encoded p EncodePath"
    by (simp add: p_def front valid_escape escaped_path_valid)
  show "unescape EncodePath p = Some (trim_right (u_path t) ''/'' @ u_path u)"
    unfolding p_def front
    by (rule unescape_append [OF unescape_escape escaped_path_decodes]) simp_all
qed

end
