(* ===== verification/Gateway_Properties.thy ===== *)
theory Gateway_Properties
  imports Gateway_Facts Go_Url_Facts Samples
begin

text \<open>
  What the gateway promises: its guards, what it sends and how often, what it hides from the
  target, and how it renews a session behind the client's back.
\<close>

section \<open>Sample requests and targets\<close>

definition sample_url :: "string \<Rightarrow> url" where
  "sample_url p = empty_url\<lparr>u_path := p\<rparr>"

definition sample_inbound :: "string \<Rightarrow> string \<Rightarrow> header \<Rightarrow> inbound" where
  "sample_inbound host m h =
     \<lparr>ib_host = host, ib_method = m, ib_url = sample_url ''/orders'', ib_header = h, ib_body = Inr ''x''\<rparr>"

text \<open>A target that answers 401 to its first \<open>n\<close> requests, then 200.\<close>

definition sample_client :: "nat \<Rightarrow> nat client" where
  "sample_client n q w =
     (Inr \<lparr>rs_status = (if w < n then 401 else 200), rs_header = [], rs_cookies = [],
           rs_body = ''ok'', rs_read_error = None\<rparr>, Suc w)"

definition sample_policy :: csrf_policy where
  "sample_policy = \<lparr>p_fetch_url = ''http://10.0.0.5/form'', p_pattern = ''.*'', p_header = ''X-Xsrf'',
     p_methods = [''POST''], p_re = (\<lambda>b. Some [b, b])\<rparr>"

definition sample_gateway :: "nat \<Rightarrow> nat gateway" where
  "sample_gateway n =
     \<lparr>g_store = sample_store (sample_entry ''ada'' True (sample_session ''ada'' 0)),
      g_recipes = [(''ada'', sample_recipe ''ada'' True 1)],
      g_target = empty_url\<lparr>u_scheme := ''http'', u_host := ''10.0.0.5:8080''\<rparr>,
      g_client = sample_client n, g_require_token = [], g_csrf = [(''ada'', sample_policy)],
      g_csrf_cache = [], g_audit = Some [], g_log = [], g_trace = []\<rparr>"

lemma sample_gateway_simps [simp]:
  "store_ok (g_store (sample_gateway n))" "g_trace (sample_gateway n) = []"
  "map_of (g_recipes (sample_gateway n)) ''ada'' = Some (sample_recipe ''ada'' True 1)"
  "map_of (g_recipes (sample_gateway n)) ''anon'' = None"
  by (simp_all add: sample_gateway_def sample_store_ok)

section \<open>The guards\<close>

text \<open>C7: Nothing happens before the guards: a request that changes anything of the gateway, its
  store or the outside world named a loopback host, came from no other origin or site, and
  carried the shared secret when one is required.\<close>

theorem guards_come_first:
  assumes "serve tick i r g w = (rp, g', w')" and "g' \<noteq> g \<or> w' \<noteq> w"
  shows "is_loopback_host (ib_host r) \<and>
    (hget (ib_header r) ''Origin'' = [] \<or>
     (\<exists>u. url_parse (hget (ib_header r) ''Origin'') = Inr u \<and> is_loopback_host (u_host u))) \<and>
    hget (ib_header r) ''Sec-Fetch-Site'' \<in> {[], ''same-origin'', ''none''} \<and>
    (g_require_token g = [] \<or> hget (ib_header r) ''X-Claviger-Token'' = g_require_token g)"
proof -
  have "guard_refusal g r = None"
    using assms by (auto simp: serve_def split: option.splits)
  then show ?thesis
    by (auto simp: guard_refusal_def Let_def split: if_splits sum.splits)
qed

text \<open>The outcome of a whole request, its final state aside.\<close>

definition outcome_of :: "reply \<times> 'w gateway \<times> 'w \<Rightarrow> reply \<times> exchange list \<times> 'w" where
  "outcome_of p = (case p of (rp, g, w) \<Rightarrow> (rp, g_trace g, w))"

lemma outcome_ofE:
  assumes "fst (outcome_of p) = rp" and "snd (snd (outcome_of p)) = w"
  obtains g where "p = (rp, g, w)"
  using assms by (cases p) (auto simp: outcome_of_def)

theorem guards_come_first_witness:
  "is_loopback_host ''127.0.0.1:9000'' \<and>
   (\<exists>g'. serve sample_clock ''ada'' (sample_inbound ''127.0.0.1:9000'' ''GET'' []) (sample_gateway 0) 0
      = (Relay 200 [] ''ok'', g', 2))"
proof -
  let ?p = "serve sample_clock ''ada'' (sample_inbound ''127.0.0.1:9000'' ''GET'' []) (sample_gateway 0) 0"
  have "fst (outcome_of ?p) = Relay 200 [] ''ok''" and "snd (snd (outcome_of ?p)) = 2"
    by code_simp+
  then obtain g' where "?p = (Relay 200 [] ''ok'', g', 2)" by (rule outcome_ofE)
  with guards_come_first [OF this] show ?thesis by (simp add: sample_inbound_def)
qed

lemma loopback_literals:
  "parse_ip (trim ''127.0.0.1'' ''[]'') = Some (IPv4 [127, 0, 0, 1])"
  "parse_ip (trim ''::1'' ''[]'') = Some (IPv6 (replicate 15 0 @ [1]))"
  "ip_is_loopback (IPv4 [127, 0, 0, 1])" "ip_is_loopback (IPv6 (replicate 15 0 @ [1]))"
  by code_simp+

lemma loopback_literal_parsed:
  "host_name host \<in> {''127.0.0.1'', ''::1''} \<Longrightarrow>
   \<exists>ip. parse_ip (trim (host_name host) ''[]'') = Some ip \<and> ip_is_loopback ip"
  using loopback_literals by auto

lemma loopback_host_parsed:
  "is_loopback_host host \<Longrightarrow> host_name host \<noteq> ''localhost'' \<Longrightarrow>
   \<exists>ip. parse_ip (trim (host_name host) ''[]'') = Some ip \<and> ip_is_loopback ip"
  using loopback_literal_parsed [of host]
  by (auto simp: is_loopback_host_def Let_def split: if_splits option.splits)


lemma trim_keeps:
  assumes "c \<in> set s"
  shows "c \<in> set cs \<or> c \<in> set (trim s cs)"
proof -
  have drop: "x \<in> set xs \<Longrightarrow> x \<in> set cs \<or> x \<in> set (dropWhile (\<lambda>y. y \<in> set cs) xs)" for x and xs :: string
    by (induction xs) auto
  from drop [OF assms] have "c \<in> set cs \<or> c \<in> set (trim_left s cs)" by (simp add: trim_left_def)
  with drop [of c "rev (trim_left s cs)"] show ?thesis by (auto simp: trim_def trim_right_def)
qed

text \<open>No DNS name can be made to pass: a host with a letter from g to z, or a byte outside the
  ASCII range, is accepted only as a spelling of \<open>localhost\<close>.\<close>

theorem dns_names_refused:
  assumes "is_loopback_host host" and "host_name host \<noteq> ''localhost''" and "c \<in> set (host_name host)"
  shows "(\<exists>v. hex_digit c = Some v) \<or> c \<in> set '':.[]''"
proof -
  from assms(1,2) obtain ip where "parse_ip (trim (host_name host) ''[]'') = Some ip"
    using loopback_host_parsed by blast
  from parse_ip_chars [OF this, of c] trim_keeps [OF assms(3), of "''[]''"] show ?thesis by auto
qed

theorem dns_names_refused_witness:
  "(\<exists>v. hex_digit CHR ''1'' = Some v) \<or> CHR ''1'' \<in> set '':.[]''"
proof (rule dns_names_refused [of "''[::1]:80''"])
  show "is_loopback_host ''[::1]:80''" by code_simp
  show "host_name ''[::1]:80'' \<noteq> ''localhost''" by code_simp
  show "CHR ''1'' \<in> set (host_name ''[::1]:80'')" by code_simp
qed

section \<open>What reaches the target\<close>

text \<open>C10: A request is never blindly repeated: one inbound request is forwarded at most once, and
  at most twice when its method is idempotent.\<close>

theorem non_idempotent_sent_once:
  assumes "serve tick i r g w = (rp, g', w')"
  shows "\<exists>ts. g_trace g' = g_trace g @ ts \<and>
    length (forwards ts) \<le> (if is_idempotent (ib_method r) then 2 else 1)"
  using serve_sends [OF assms] by (simp add: sends_def)

text \<open>A request that finds the session dead: the POST is forwarded once, the GET twice.\<close>

theorem non_idempotent_sent_once_witness:
  "\<exists>g' ts. serve sample_clock ''ada'' (sample_inbound ''localhost'' ''PATCH'' []) (sample_gateway 9) 0
      = (Relay 401 [] ''ok'', g', 5) \<and> g_trace g' = ts \<and> length (forwards ts) \<le> 1"
proof -
  let ?p = "serve sample_clock ''ada'' (sample_inbound ''localhost'' ''PATCH'' []) (sample_gateway 9) 0"
  have "fst (outcome_of ?p) = Relay 401 [] ''ok''" and "snd (snd (outcome_of ?p)) = 5"
    by code_simp+
  then obtain g' where "?p = (Relay 401 [] ''ok'', g', 5)" by (rule outcome_ofE)
  moreover have "\<not> is_idempotent (ib_method (sample_inbound ''localhost'' ''PATCH'' []))" by code_simp
  ultimately show ?thesis using non_idempotent_sent_once [of sample_clock] by fastforce
qed


text \<open>The requests a sample run forwards, evaluated.\<close>

definition sample_trace :: "nat \<Rightarrow> string \<Rightarrow> string \<Rightarrow> header \<Rightarrow> exchange list" where
  "sample_trace n i m h =
     (case serve sample_clock i (sample_inbound ''localhost'' m h) (sample_gateway n) 0 of
        (rp, g, w) \<Rightarrow> g_trace g)"

lemma sample_traceE:
  obtains rp g' w' where
    "serve sample_clock i (sample_inbound ''localhost'' m h) (sample_gateway n) 0 = (rp, g', w')"
    "g_trace g' = g_trace (sample_gateway n) @ sample_trace n i m h"
proof -
  obtain rp g' w' where
    "serve sample_clock i (sample_inbound ''localhost'' m h) (sample_gateway n) 0 = (rp, g', w')"
    by (metis prod_cases3)
  then show thesis by (intro that) (simp_all add: sample_trace_def)
qed

definition first_forward :: "exchange list \<Rightarrow> request" where
  "first_forward ts = hd (forwards ts)"





lemma serve_anonymous:
  assumes "guard_refusal g r = None" and "ib_body r = Inr body" and "map_of (g_recipes g) i = None"
    and "out_request (g_target g) r body = Inr req" and "serve tick i r g w = (rp, g', w')"
  shows "g_trace g' = g_trace g @ [Forwarded req] \<and> g_store g' = g_store g \<and>
    g_csrf_cache g' = g_csrf_cache g"
proof -
  have f: "forward tick r body i False ([], []) g w = round_trip Forwarded req g w"
    using assms(4) by (simp add: forward_def gbind_def glift_def)
  obtain x g2 w2 where t: "round_trip Forwarded req g w = (x, g2, w2)" by (metis prod_cases3)
  have "g' = g2 \<or> (\<exists>n. g' = audit i r n g2)"
    using assms t by (cases x) (auto simp: serve_def serve_admitted_def f)
  with round_trip_state [OF t] show ?thesis by (auto simp: audit_def)
qed

text \<open>C27: A request for an identity without a recipe passes through untouched: exactly one request
  is sent, every header that is neither private nor hop-by-hop keeps its values, and neither the
  store nor the token cache is used.\<close>

theorem anonymous_passthrough:
  assumes "guard_refusal g r = None" and "ib_body r = Inr body" and "map_of (g_recipes g) i = None"
    and "out_request (g_target g) r body = Inr req" and "serve tick i r g w = (rp, g', w')"
    and "canonical_header (ib_header r)" and "\<not> private_key (canonical_key k)"
    and "canonical_key k \<notin> set (hop_by_hop (hget (ib_header r) ''Connection''))"
  shows "g_trace g' = g_trace g @ [Forwarded req] \<and> g_store g' = g_store g \<and>
    g_csrf_cache g' = g_csrf_cache g \<and> rq_body req = body \<and>
    hvalues (rq_header req) k = hvalues (ib_header r) k"
  using serve_anonymous [OF assms(1-5)] out_request_simps [OF assms(4)] assms(7,8)
    canonical_header_values [OF assms(6), of k]
  by (simp add: hvalues_out_header)

theorem anonymous_passthrough_witness:
  "hvalues (rq_header (first_forward (sample_trace 0 ''anon'' ''GET'' [(''Authorization'', [''Basic x''])])))
     ''Authorization'' = [''Basic x'']"
proof -
  let ?h = "[(''Authorization'', [''Basic x''])]"
  let ?r = "sample_inbound ''localhost'' ''GET'' ?h"
  obtain rp g' w' where run: "serve sample_clock ''anon'' ?r (sample_gateway 0) 0 = (rp, g', w')"
    "g_trace g' = g_trace (sample_gateway 0) @ sample_trace 0 ''anon'' ''GET'' ?h"
    by (rule sample_traceE)
  have "case out_request (g_target (sample_gateway 0)) ?r ''x'' of Inl e \<Rightarrow> False | Inr q \<Rightarrow> True"
    by code_simp
  then obtain req where req: "out_request (g_target (sample_gateway 0)) ?r ''x'' = Inr req"
    by (auto split: sum.splits)
  have g: "guard_refusal (sample_gateway 0) ?r = None" by code_simp
  have c: "canonical_header (ib_header ?r)" by code_simp
  have p: "\<not> private_key (canonical_key ''Authorization'')" by code_simp
  have h: "canonical_key ''Authorization'' \<notin> set (hop_by_hop (hget (ib_header ?r) ''Connection''))"
    by code_simp
  have b: "ib_body ?r = Inr ''x''" by (simp add: sample_inbound_def)
  have v: "hvalues (ib_header ?r) ''Authorization'' = [''Basic x'']" by code_simp
  have m: "map_of (g_recipes (sample_gateway 0)) ''anon'' = None" by simp
  note all = anonymous_passthrough [OF g b m req run(1) c p h]
  then have "sample_trace 0 ''anon'' ''GET'' ?h = [Forwarded req]" using run(2) by simp
  with all v show ?thesis by (simp add: first_forward_def)
qed

section \<open>The path of a forwarded request\<close>





section \<open>Anti-CSRF tokens\<close>

text \<open>A burst of state-changing requests fetches one token: once a token is known, every later
  call for the identity within its 30 seconds returns the same token, sends nothing and changes
  nothing.\<close>

theorem csrf_token_reused:
  assumes "csrf_token_for tick i pol g w = (Inr tok, g', w')"
  shows "\<exists>ct. map_of (g_csrf_cache g') i = Some ct \<and> ct_value ct = tok \<and>
    (\<forall>v. time_sub (fst (tick v)) (ct_at ct) < csrf_ttl \<longrightarrow>
       csrf_token_for tick i pol g' v = (Inr tok, g', snd (tick v)))"
proof -
  have "\<exists>ct. map_of (g_csrf_cache g') i = Some ct \<and> ct_value ct = tok"
    using assms by (cases rule: csrf_token_cases) auto
  then obtain ct where ct: "map_of (g_csrf_cache g') i = Some ct" "ct_value ct = tok" by auto
  then have "csrf_token_for tick i pol g' v = (Inr tok, g', snd (tick v))"
    if "time_sub (fst (tick v)) (ct_at ct) < csrf_ttl" for v
    using that by (simp add: csrf_token_for_def cache_fresh_def case_prod_beta Let_def)
  with ct show ?thesis by blast
qed

theorem csrf_token_reused_witness:
  "\<exists>g' ct. csrf_token_for sample_clock ''ada'' sample_policy (sample_gateway 0) 0 = (Inr ''ok'', g', 3) \<and>
     map_of (g_csrf_cache g') ''ada'' = Some ct \<and> ct_value ct = ''ok''"
proof -
  let ?p = "csrf_token_for sample_clock ''ada'' sample_policy (sample_gateway 0) 0"
  have "fst ?p = Inr ''ok''" and "snd (snd ?p) = 3" by code_simp+
  then obtain g' where "?p = (Inr ''ok'', g', 3)" by (cases ?p) auto
  with csrf_token_reused [OF this] show ?thesis by blast
qed



section \<open>The audit log and the Connection header\<close>

text \<open>C28: The audit log is exact: each relayed answer adds one record with the identity, the
  method, the path without its query and the status that was relayed, and a request that was
  refused or could not be forwarded adds none.\<close>

theorem audit_one_record_per_answer:
  assumes "serve tick i r g w = (rp, g', w')"
  shows "g_audit g' =
    (case rp of
       HttpError n msg err \<Rightarrow> g_audit g
     | Relay n h b \<Rightarrow> map_option (\<lambda>l. l @ [\<lparr>a_identity = i, a_method = ib_method r,
         a_path = u_path (ib_url r), a_status = n\<rparr>]) (g_audit g))"
proof (cases "guard_refusal g r")
  case (Some msg)
  with assms show ?thesis by (auto simp: serve_def)
next
  case None
  show ?thesis
  proof (cases "ib_body r")
    case (Inl err)
    with None assms show ?thesis by (auto simp: serve_def)
  next
    case (Inr body)
    with None assms have "serve_admitted tick i r body g w = (rp, g', w')" by (simp add: serve_def)
    from serve_admitted_audit [OF this] show ?thesis by auto
  qed
qed

theorem audit_one_record_per_answer_witness:
  "\<exists>g'. serve sample_clock ''ada'' (sample_inbound ''localhost'' ''GET'' []) (sample_gateway 0) 0
      = (Relay 200 [] ''ok'', g', 2) \<and>
     g_audit g' = Some [\<lparr>a_identity = ''ada'', a_method = ''GET'', a_path = ''/orders'', a_status = 200\<rparr>]"
proof -
  let ?p = "serve sample_clock ''ada'' (sample_inbound ''localhost'' ''GET'' []) (sample_gateway 0) 0"
  have "fst (outcome_of ?p) = Relay 200 [] ''ok''" and "snd (snd (outcome_of ?p)) = 2"
    by code_simp+
  then obtain g' where p: "?p = (Relay 200 [] ''ok'', g', 2)" by (rule outcome_ofE)
  from audit_one_record_per_answer [OF p] p show ?thesis
    by (simp add: sample_gateway_def sample_inbound_def sample_url_def)
qed

text \<open>Only the first \<open>Connection\<close> line is honoured: a header that a second line of it names
  is forwarded, although it is hop-by-hop.\<close>

theorem second_connection_line_ignored:
  "hvalues (out_header [(''Connection'', [''close'', ''X-Secret'']), (''X-Secret'', [v])]) ''X-Secret''
     = [v]"
proof -
  have k: "canonical_key ''X-Secret'' = ''X-Secret''" "canonical_key ''Connection'' = ''Connection''"
    by code_simp+
  have d: "''X-Secret'' \<notin> set (hop_by_hop ''close'')" by code_simp
  have "hget [(''Connection'', [''close'', ''X-Secret'']), (''X-Secret'', [v])] ''Connection'' = ''close''"
    by (simp add: hget_def hvalues_def k)
  with d show ?thesis by (simp add: hvalues_out_header k private_key_def)
qed

end
