(* ===== verification/Go_Values.thy ===== *)
theory Go_Values
  imports Go_Url_Facts
begin

text \<open>
  \<open>url.Values\<close> with one value per key, as the login forms build them: \<open>Set\<close>, and \<open>Encode\<close>,
  which writes the pairs sorted by key.  \<open>parse_form\<close> is the reading of such a body by a server,
  and reading back an encoded form gives its pairs.
\<close>

type_synonym url_values = "(string, string) gomap"

definition values_set :: "string \<Rightarrow> string \<Rightarrow> url_values \<Rightarrow> url_values" where
  "values_set k v m = AList.update k v m"

fun join_with :: "char \<Rightarrow> string list \<Rightarrow> string" where
  "join_with c [] = []"
| "join_with c [x] = x"
| "join_with c (x # y # zs) = x @ c # join_with c (y # zs)"

definition encode_pair :: "string \<times> string \<Rightarrow> string" where
  "encode_pair p =
     escape (fst p) EncodeQueryComponent @ ''='' @ escape (snd p) EncodeQueryComponent"

definition sorted_pairs :: "url_values \<Rightarrow> (string \<times> string) list" where
  "sorted_pairs m = map (\<lambda>k. (k, the (map_of m k))) (sort (map fst m))"

definition values_encode :: "url_values \<Rightarrow> string" where
  "values_encode m = join_with (CHR ''&'') (map encode_pair (sorted_pairs m))"

section \<open>Reading a form back\<close>

definition parse_pair :: "string \<Rightarrow> (string \<times> string) option" where
  "parse_pair s =
     (let (k, v) = cut (CHR ''='') s in
      case (unescape EncodeQueryComponent k,
            unescape EncodeQueryComponent (case v of None \<Rightarrow> [] | Some x \<Rightarrow> x)) of
        (Some a, Some b) \<Rightarrow> Some (a, b) | _ \<Rightarrow> None)"

definition parse_form :: "string \<Rightarrow> (string \<times> string) option list" where
  "parse_form s = (if s = [] then [] else map parse_pair (split_on (CHR ''&'') s))"

lemma escape_member: "c \<in> set (escape s mode) \<Longrightarrow> \<exists>d. c \<in> set (escape [d] mode)"
proof (induction s)
  case (Cons x s)
  have "escape (x # s) mode = escape [x] mode @ escape s mode"
    using escape_simps(2) [of "[x]" s mode] by simp
  with Cons.prems have "c \<in> set (escape [x] mode) \<or> c \<in> set (escape s mode)" by (simp only: set_append Un_iff)
  with Cons.IH show ?case by blast
qed simp

lemma query_byte:
  assumes "c \<in> set (escape s EncodeQueryComponent)"
  shows "c \<noteq> CHR ''&'' \<and> c \<noteq> CHR ''=''"
proof -
  obtain d where d: "c \<in> set (escape [d] EncodeQueryComponent)"
    using escape_member [OF assms] by blast
  show ?thesis
  proof (cases "should_escape d EncodeQueryComponent")
    case False
    then have "d \<noteq> CHR ''&''" "d \<noteq> CHR ''=''"
      by (auto simp: should_escape_def is_alnum_def is_digit_def is_lower_def is_upper_def byte_def)
    with d False show ?thesis by (simp add: escape_def)
  next
    case True
    have "is_alnum (upper_hex (byte d div 16))" "is_alnum (upper_hex (byte d mod 16))"
      using upper_hex_digit byte_less [of d] by auto
    moreover have "\<not> is_alnum (CHR ''&'')" "\<not> is_alnum (CHR ''='')"
      by (simp_all add: is_alnum_def is_digit_def is_lower_def is_upper_def byte_def)
    ultimately show ?thesis using d True by (auto simp: escape_def split: if_splits)
  qed
qed

lemma parse_encode_pair: "parse_pair (encode_pair p) = Some p"
proof -
  have "CHR ''='' \<notin> set (escape (fst p) EncodeQueryComponent)" using query_byte by blast
  then have "cut (CHR ''='') (encode_pair p)
      = (escape (fst p) EncodeQueryComponent, Some (escape (snd p) EncodeQueryComponent))"
    by (simp add: encode_pair_def cut_at)
  then show ?thesis by (simp add: parse_pair_def unescape_escape)
qed

lemma encode_pair_plain: "CHR ''&'' \<notin> set (encode_pair p)" "encode_pair p \<noteq> []"
  using query_byte by (auto simp: encode_pair_def)

lemma split_on_plain: "c \<notin> set x \<Longrightarrow> split_on c x = [x]"
  by (induction x) auto

lemma split_on_sep: "c \<notin> set x \<Longrightarrow> split_on c (x @ c # y) = x # split_on c y"
  by (induction x) auto

lemma split_join:
  "xs \<noteq> [] \<Longrightarrow> (\<And>x. x \<in> set xs \<Longrightarrow> c \<notin> set x) \<Longrightarrow> split_on c (join_with c xs) = xs"
  by (induction c xs rule: join_with.induct) (auto simp: split_on_plain split_on_sep)

text \<open>A server reads exactly the pairs that were encoded.\<close>

lemma parse_encode: "parse_form (values_encode m) = map Some (sorted_pairs m)"
proof (cases "sorted_pairs m = []")
  case True
  then show ?thesis by (simp add: values_encode_def parse_form_def)
next
  case False
  let ?xs = "map encode_pair (sorted_pairs m)"
  have split: "split_on (CHR ''&'') (join_with (CHR ''&'') ?xs) = ?xs"
    using False encode_pair_plain(1) by (intro split_join) auto
  have "join_with (CHR ''&'') ?xs \<noteq> []"
  proof
    assume "join_with (CHR ''&'') ?xs = []"
    with split have "?xs = [[]]" by simp
    with encode_pair_plain(2) show False by (auto simp: map_eq_Cons_conv)
  qed
  with split show ?thesis
    by (simp add: values_encode_def parse_form_def parse_encode_pair)
qed

lemma sorted_pairs_mem:
  assumes "distinct (map fst m)"
  shows "set (sorted_pairs m) = set m"
  using assms by (auto simp: sorted_pairs_def image_iff) (metis fst_conv)+

section \<open>Hexadecimal text\<close>

text \<open>\<open>hex.EncodeToString\<close>, and the verb \<open>%x\<close> for bytes.\<close>

definition lower_hex :: "nat \<Rightarrow> char" where
  "lower_hex n = ''0123456789abcdef'' ! n"

definition hex_encode :: "string \<Rightarrow> string" where
  "hex_encode s = concat (map (\<lambda>c. [lower_hex (byte c div 16), lower_hex (byte c mod 16)]) s)"

end
