(* ===== verification/Http_Recipes.thy ===== *)
theory Http_Recipes
  imports Recipe Go_Values
begin

text \<open>
  Component \<open>internal/recipe\<close>, the two recipes that log in with one request: \<open>FormPost\<close>
  (\<open>formpost.go\<close>) and \<open>OAuth2\<close> (\<open>oauth.go\<close>).  The HTTP client and the JSON decoder are
  parameters; a recipe without a client of its own uses the default one.  Both recipes interpret
  the contract \<open>login_recipe\<close>.
\<close>

section \<open>FormPost\<close>

record 'w form_post =
  fp_id :: string
  fp_login_url :: string
  fp_username :: string
  fp_password :: string
  fp_user_field :: string
  fp_pass_field :: string
  fp_signature :: logout_signature
  fp_client :: "'w client option"

definition own_client :: "'w client \<Rightarrow> 'w client option \<Rightarrow> 'w client" where
  "own_client dflt c = (case c of None \<Rightarrow> dflt | Some cl \<Rightarrow> cl)"

definition form_values :: "'w form_post \<Rightarrow> url_values" where
  "form_values r =
     (let uf = (if fp_user_field r = [] then ''username'' else fp_user_field r);
          pf = (if fp_pass_field r = [] then ''password'' else fp_pass_field r)
      in values_set pf (fp_password r) (values_set uf (fp_username r) []))"

definition form_content_type :: string where
  "form_content_type = ''application/x-www-form-urlencoded''"

text \<open>\<open>http.NewRequestWithContext\<close> with an encoded form, and the content type set.\<close>

definition post_form :: "string \<Rightarrow> url_values \<Rightarrow> gerror + request" where
  "post_form url form =
     (case new_request ''POST'' url (values_encode form) of
        Inl err \<Rightarrow> Inl err
      | Inr req \<Rightarrow> Inr (req\<lparr>rq_header := hset (rq_header req) ''Content-Type'' form_content_type\<rparr>))"

definition form_session :: "'w form_post \<Rightarrow> response \<Rightarrow> token_payload \<Rightarrow> gtime \<Rightarrow> session" where
  "form_session r resp payload expiry =
     empty_session\<lparr>s_identity := fp_id r, s_cookies := rs_cookies resp,
       s_bearer := tp_access_token payload, s_refresh_token := tp_refresh_token payload,
       s_expires_at := expiry\<rparr>"

definition form_establish ::
  "'w client \<Rightarrow> token_decoder \<Rightarrow> 'w ticker \<Rightarrow> 'w form_post \<Rightarrow> ('w, gerror + session) io" where
  "form_establish dflt decode tick r w =
     (case post_form (fp_login_url r) (form_values r) of
        Inl err \<Rightarrow> (Inl err, w)
      | Inr req \<Rightarrow>
          (case own_client dflt (fp_client r) req w of
             (Inl err, w1) \<Rightarrow> (Inl err, w1)
           | (Inr resp, w1) \<Rightarrow>
               if 400 \<le> rs_status resp then (Inl (LoginStatus (fp_id r) (rs_status resp)), w1)
               else
                 (let payload = fst (decode (rs_body resp) (rs_read_error resp));
                      (expiry, w2) = expires_at tick (tp_expires_in payload) w1;
                      sess = form_session r resp payload expiry
                  in if s_cookies sess = [] \<and> s_bearer sess = []
                     then (Inl (NoSessionMaterial (fp_id r)), w2) else (Inr sess, w2))))"

definition form_recipe ::
  "'w client \<Rightarrow> token_decoder \<Rightarrow> 'w ticker \<Rightarrow> 'w form_post \<Rightarrow> 'w recipe" where
  "form_recipe dflt decode tick r =
     \<lparr>r_identity = fp_id r, r_establish = form_establish dflt decode tick r,
      r_refresh = (\<lambda>_. form_establish dflt decode tick r), r_logout = fp_signature r\<rparr>"

section \<open>OAuth2\<close>

record 'w oauth2 =
  oa_id :: string
  oa_token_url :: string
  oa_username :: string
  oa_password :: string
  oa_signature :: logout_signature
  oa_client :: "'w client option"

definition oauth_session :: "'w oauth2 \<Rightarrow> session option \<Rightarrow> token_payload \<Rightarrow> gtime \<Rightarrow> session" where
  "oauth_session r prev payload expiry =
     (let refresh = (case prev of
            Some p \<Rightarrow> if tp_refresh_token payload = [] then s_refresh_token p
                      else tp_refresh_token payload
          | None \<Rightarrow> tp_refresh_token payload)
      in empty_session\<lparr>s_identity := oa_id r, s_bearer := tp_access_token payload,
           s_refresh_token := refresh, s_expires_at := expiry\<rparr>)"

definition oauth_token ::
  "'w client \<Rightarrow> token_decoder \<Rightarrow> 'w ticker \<Rightarrow> 'w oauth2 \<Rightarrow> url_values \<Rightarrow> session option
     \<Rightarrow> ('w, gerror + session) io" where
  "oauth_token dflt decode tick r form prev w =
     (case post_form (oa_token_url r) form of
        Inl err \<Rightarrow> (Inl err, w)
      | Inr req \<Rightarrow>
          (case own_client dflt (oa_client r) req w of
             (Inl err, w1) \<Rightarrow> (Inl err, w1)
           | (Inr resp, w1) \<Rightarrow>
               if 400 \<le> rs_status resp then (Inl (TokenStatus (oa_id r) (rs_status resp)), w1)
               else
                 (case decode (rs_body resp) (rs_read_error resp) of
                    (_, Some err) \<Rightarrow> (Inl err, w1)
                  | (payload, None) \<Rightarrow>
                      if tp_access_token payload = [] then (Inl (NoAccessToken (oa_id r)), w1)
                      else
                        (let (expiry, w2) = expires_at tick (tp_expires_in payload) w1
                         in (Inr (oauth_session r prev payload expiry), w2)))))"

definition password_grant :: "'w oauth2 \<Rightarrow> url_values" where
  "password_grant r =
     [(''grant_type'', ''password''), (''username'', oa_username r), (''password'', oa_password r)]"

definition refresh_grant :: "session \<Rightarrow> url_values" where
  "refresh_grant cur =
     [(''grant_type'', ''refresh_token''), (''refresh_token'', s_refresh_token cur)]"

definition oauth_establish ::
  "'w client \<Rightarrow> token_decoder \<Rightarrow> 'w ticker \<Rightarrow> 'w oauth2 \<Rightarrow> ('w, gerror + session) io" where
  "oauth_establish dflt decode tick r =
     oauth_token dflt decode tick r (password_grant r) None"

definition oauth_refresh ::
  "'w client \<Rightarrow> token_decoder \<Rightarrow> 'w ticker \<Rightarrow> 'w oauth2 \<Rightarrow> session option \<Rightarrow> ('w, gerror + session) io"
where
  "oauth_refresh dflt decode tick r cur w =
     (case cur of
        None \<Rightarrow> oauth_establish dflt decode tick r w
      | Some c \<Rightarrow>
          if s_refresh_token c = [] then oauth_establish dflt decode tick r w
          else
            (case oauth_token dflt decode tick r (refresh_grant c) cur w of
               (Inl _, w1) \<Rightarrow> oauth_establish dflt decode tick r w1
             | (Inr s, w1) \<Rightarrow> (Inr s, w1)))"

definition oauth_recipe ::
  "'w client \<Rightarrow> token_decoder \<Rightarrow> 'w ticker \<Rightarrow> 'w oauth2 \<Rightarrow> 'w recipe" where
  "oauth_recipe dflt decode tick r =
     \<lparr>r_identity = oa_id r, r_establish = oauth_establish dflt decode tick r,
      r_refresh = oauth_refresh dflt decode tick r, r_logout = oa_signature r\<rparr>"

section \<open>Forms on the wire\<close>

lemma post_form_simps:
  assumes "post_form url form = Inr req"
  shows "rq_body req = values_encode form" "rq_method req = ''POST''"
    "hget (rq_header req) ''Content-Type'' = form_content_type"
proof -
  from assms obtain q where q: "new_request ''POST'' url (values_encode form) = Inr q"
    "req = q\<lparr>rq_header := hset (rq_header q) ''Content-Type'' form_content_type\<rparr>"
    by (auto simp: post_form_def split: sum.splits)
  then show "rq_body req = values_encode form" "rq_method req = ''POST''"
    "hget (rq_header req) ''Content-Type'' = form_content_type"
    using new_request_body [OF q(1)] new_request_method [OF q(1)] by (simp_all add: hget_hset)
qed

lemma post_form_roundtrip:
  assumes "post_form url form = Inr req" and "distinct (map fst form)"
  shows "parse_form (rq_body req) = map Some (sorted_pairs form) \<and> set (sorted_pairs form) = set form"
  using assms by (simp add: post_form_simps parse_encode sorted_pairs_mem)

section \<open>The contract\<close>

lemma form_establish_ok:
  assumes "form_establish dflt decode tick r w = (Inr s, w')"
  shows "session_ok (fp_id r) s"
  using assms
  by (auto simp: form_establish_def form_session_def session_ok_def has_material_def empty_session_def
      Let_def split: sum.splits prod.splits if_splits)

interpretation form: login_recipe "form_recipe dflt decode tick r" for dflt decode tick r
  by unfold_locales (auto simp: form_recipe_def form_establish_ok)

text \<open>Everything a token request can do when it succeeds.\<close>

lemma oauth_token_cases:
  assumes "oauth_token dflt decode tick r form prev w = (Inr s, w')"
  obtains req resp w1 payload where "post_form (oa_token_url r) form = Inr req"
    "own_client dflt (oa_client r) req w = (Inr resp, w1)" "rs_status resp < 400"
    "decode (rs_body resp) (rs_read_error resp) = (payload, None)" "tp_access_token payload \<noteq> []"
    "s = oauth_session r prev payload (fst (expires_at tick (tp_expires_in payload) w1))"
proof -
  from assms obtain req where req: "post_form (oa_token_url r) form = Inr req"
    by (auto simp: oauth_token_def split: sum.splits)
  with assms obtain resp w1 where resp: "own_client dflt (oa_client r) req w = (Inr resp, w1)"
    by (auto simp: oauth_token_def split: sum.splits prod.splits)
  obtain payload err where dec: "decode (rs_body resp) (rs_read_error resp) = (payload, err)" by fastforce
  obtain expiry w2 where e: "expires_at tick (tp_expires_in payload) w1 = (expiry, w2)" by fastforce
  from assms req resp dec e show thesis
    by (intro that [OF req resp]) (auto simp: oauth_token_def split: if_splits option.splits)
qed

lemma oauth_session_ok: "tp_access_token payload \<noteq> [] \<Longrightarrow> session_ok (oa_id r) (oauth_session r prev payload t)"
  by (simp add: oauth_session_def session_ok_def has_material_def empty_session_def Let_def)

lemma oauth_token_ok:
  "oauth_token dflt decode tick r form prev w = (Inr s, w') \<Longrightarrow> session_ok (oa_id r) s"
  by (erule oauth_token_cases) (simp add: oauth_session_ok)

lemma oauth_refresh_ok:
  assumes "oauth_refresh dflt decode tick r cur w = (Inr s, w')"
  shows "session_ok (oa_id r) s"
  using assms oauth_token_ok
  by (auto simp: oauth_refresh_def oauth_establish_def split: option.splits if_splits prod.splits
      sum.splits)

interpretation oauth: login_recipe "oauth_recipe dflt decode tick r" for dflt decode tick r
proof unfold_locales
  fix w s w'
  show "session_ok (r_identity (oauth_recipe dflt decode tick r)) s"
    if "r_establish (oauth_recipe dflt decode tick r) w = (Inr s, w')"
    using that oauth_token_ok by (simp add: oauth_recipe_def oauth_establish_def)
  show "session_ok (r_identity (oauth_recipe dflt decode tick r)) s"
    if "r_refresh (oauth_recipe dflt decode tick r) cur w = (Inr s, w')" for cur
    using that oauth_refresh_ok by (simp add: oauth_recipe_def)
qed

end
