(* ===== verification/Go_Json.thy ===== *)
theory Go_Json
  imports Go_Strings
begin

text \<open>
  JSON values as the program reads and writes them with \<open>encoding/json\<close>.  A number is represented
  by its rendering \<open>strconv.FormatFloat(v, 'f', -1, 64)\<close>, the only use the code makes of it.  The
  text that carries a value is left out, save for what it does to strings: the encoder replaces
  every byte that is not part of a valid UTF-8 sequence by U+FFFD.
\<close>

datatype json =
    JNull | JBool bool | JNum string | JStr string | JArr "json list"
  | JObj "(string \<times> json) list"

section \<open>Valid UTF-8\<close>

definition continuation :: "nat \<Rightarrow> nat \<Rightarrow> char \<Rightarrow> bool" where
  "continuation lo hi c \<longleftrightarrow> lo \<le> byte c \<and> byte c \<le> hi"

text \<open>
  The length of the valid sequence at the start, or 0 when there is none: the table of
  \<open>utf8.DecodeRune\<close>, with its restricted second bytes (no overlong forms, no surrogates, nothing
  above U+10FFFF).
\<close>

definition utf8_length :: "string \<Rightarrow> nat" where
  "utf8_length s =
     (case s of
        [] \<Rightarrow> 0
      | a # r \<Rightarrow>
          if byte a < 128 then 1
          else if 194 \<le> byte a \<and> byte a \<le> 223 then
            (case r of b # _ \<Rightarrow> if continuation 128 191 b then 2 else 0 | [] \<Rightarrow> 0)
          else if 224 \<le> byte a \<and> byte a \<le> 239 then
            (case r of
               b # c # _ \<Rightarrow>
                 if continuation (if byte a = 224 then 160 else 128) (if byte a = 237 then 159 else 191) b
                    \<and> continuation 128 191 c then 3 else 0
             | _ \<Rightarrow> 0)
          else if 240 \<le> byte a \<and> byte a \<le> 244 then
            (case r of
               b # c # d # _ \<Rightarrow>
                 if continuation (if byte a = 240 then 144 else 128) (if byte a = 244 then 143 else 191) b
                    \<and> continuation 128 191 c \<and> continuation 128 191 d then 4 else 0
             | _ \<Rightarrow> 0)
          else 0)"

definition replacement :: string where
  "replacement = [CHR 0xEF, CHR 0xBF, CHR 0xBD]"

lemma utf8_length_le: "utf8_length s \<le> length s"
  by (auto simp: utf8_length_def split: list.splits)

lemma utf8_length_ascii: "byte c < 128 \<Longrightarrow> utf8_length (c # s) = 1"
  by (simp add: utf8_length_def)

function to_valid_utf8 :: "string \<Rightarrow> string" where
  "to_valid_utf8 s =
     (if s = [] then []
      else if utf8_length s = 0 then replacement @ to_valid_utf8 (tl s)
      else take (utf8_length s) s @ to_valid_utf8 (drop (utf8_length s) s))"
  by pat_completeness auto
termination
  by (relation "measure length") (auto simp: neq_Nil_conv)

declare to_valid_utf8.simps [simp del]

lemma to_valid_utf8_Nil [simp]: "to_valid_utf8 [] = []"
  by (simp add: to_valid_utf8.simps)

function valid_utf8 :: "string \<Rightarrow> bool" where
  "valid_utf8 s =
     (if s = [] then True
      else if utf8_length s = 0 then False else valid_utf8 (drop (utf8_length s) s))"
  by pat_completeness auto
termination
  by (relation "measure length") (auto simp: neq_Nil_conv)

declare valid_utf8.simps [simp del]

lemma to_valid_utf8_id: "valid_utf8 s \<Longrightarrow> to_valid_utf8 s = s"
proof (induction s rule: valid_utf8.induct)
  case (1 s)
  then show ?case
    by (auto simp: valid_utf8.simps [of s] to_valid_utf8.simps [of s] split: if_splits)
qed

lemma to_valid_utf8_empty [simp]: "to_valid_utf8 s = [] \<longleftrightarrow> s = []"
  by (simp add: to_valid_utf8.simps [of s] replacement_def)

lemma valid_utf8_ascii: "list_all (\<lambda>c. byte c < 128) s \<Longrightarrow> valid_utf8 s"
  by (induction s) (simp_all add: valid_utf8.simps utf8_length_ascii)

section \<open>Writing and reading\<close>

definition jstring :: "string \<Rightarrow> json" where
  "jstring s = JStr (to_valid_utf8 s)"

text \<open>A field with \<open>omitempty\<close>.\<close>

definition optional_field :: "string \<Rightarrow> bool \<Rightarrow> json \<Rightarrow> (string \<times> json) list" where
  "optional_field k present v = (if present then [(k, v)] else [])"

text \<open>Reading a string field into a Go string: an absent field leaves it empty.\<close>

definition field :: "(string \<times> json) list \<Rightarrow> string \<Rightarrow> json" where
  "field m k = (case map_of m k of None \<Rightarrow> JNull | Some v \<Rightarrow> v)"

fun read_string :: "json \<Rightarrow> string option" where
  "read_string (JStr s) = Some s"
| "read_string JNull = Some []"
| "read_string _ = None"

fun read_bool :: "json \<Rightarrow> bool option" where
  "read_bool (JBool b) = Some b"
| "read_bool JNull = Some False"
| "read_bool _ = None"

fun read_list :: "(json \<Rightarrow> 'a option) \<Rightarrow> json \<Rightarrow> 'a list option" where
  "read_list f (JArr vs) = (if \<forall>v \<in> set vs. f v \<noteq> None then Some (map (\<lambda>v. the (f v)) vs) else None)"
| "read_list f JNull = Some []"
| "read_list f _ = None"

lemma read_jstring [simp]: "valid_utf8 s \<Longrightarrow> read_string (jstring s) = Some s"
  by (simp add: jstring_def to_valid_utf8_id)

lemma read_list_map:
  "(\<And>x. x \<in> set xs \<Longrightarrow> f (g x) = Some (h x)) \<Longrightarrow> read_list f (JArr (map g xs)) = Some (map h xs)"
  by simp

end
