(* ===== verification/Multi_Recipe.thy ===== *)
theory Multi_Recipe
  imports Http_Recipes Go_Json
begin

text \<open>
  Component \<open>internal/recipe\<close>, \<open>multistep.go\<close>: a scripted login of several requests with
  cookies in a jar and \<open>{{name}}\<close> templates.

  The environment of the recipe is the record \<open>login_env\<close>: the client with its cookie jar, the
  regular expression compiler, the JSON decoder, and the order in which Go visits a map, which
  the world chooses anew at every \<open>range\<close>.
\<close>

section \<open>JSON paths\<close>

type_synonym json_decoder = "string \<Rightarrow> gerror + (string \<times> json) list"

fun json_walk :: "json \<Rightarrow> string list \<Rightarrow> json option" where
  "json_walk cur [] = Some cur"
| "json_walk cur (part # parts) =
     (case cur of
        JObj m \<Rightarrow> (case map_of m part of None \<Rightarrow> None | Some v \<Rightarrow> json_walk v parts)
      | _ \<Rightarrow> None)"

definition json_leaf :: "json \<Rightarrow> string" where
  "json_leaf v =
     (case v of
        JStr s \<Rightarrow> s
      | JNum s \<Rightarrow> s
      | JBool b \<Rightarrow> if b then ''true'' else ''false''
      | _ \<Rightarrow> [])"

definition json_path :: "(string \<times> json) list \<Rightarrow> string \<Rightarrow> string" where
  "json_path data path =
     (case json_walk (JObj data) (split_on (CHR ''.'') path) of
        None \<Rightarrow> [] | Some v \<Rightarrow> json_leaf v)"

section \<open>Data of a multistep login\<close>

record extract_rule =
  x_name :: string
  x_from :: string
  x_pattern :: string

record login_step =
  ls_method :: string
  ls_url :: string
  ls_form :: "(string, string) gomap"
  ls_body :: string
  ls_extract :: "extract_rule list"

record capture_spec =
  cs_csrf :: string
  cs_bearer :: "extract_rule option"

record multistep =
  ms_id :: string
  ms_password :: string
  ms_steps :: "login_step list"
  ms_capture :: capture_spec
  ms_signature :: logout_signature

type_synonym vars = "(string, string) gomap"

record ('j, 'w) login_env =
  le_jar :: 'j
  le_do :: "'j \<Rightarrow> request \<Rightarrow> 'w \<Rightarrow> (gerror + response) \<times> 'j \<times> 'w"
  le_cookies :: "'j \<Rightarrow> url \<Rightarrow> cookie list"
  le_regexp :: regexp_compiler
  le_json :: json_decoder
  le_order :: "vars \<Rightarrow> ('w, vars) io"

section \<open>Templates\<close>

definition template :: "string \<Rightarrow> string" where
  "template k = ''{{'' @ k @ ''}}''"

text \<open>The loop of \<open>subst\<close> over the variables in the order of the list.\<close>

definition subst_ordered :: "string \<Rightarrow> vars \<Rightarrow> string" where
  "subst_ordered s vs = foldl (\<lambda>s (k, v). replace_all s (template k) v) s vs"

definition subst :: "('j, 'w) login_env \<Rightarrow> string \<Rightarrow> vars \<Rightarrow> ('w, string) io" where
  "subst env s vs w = (let (order, w1) = le_order env vs w in (subst_ordered s order, w1))"

section \<open>Extraction\<close>

definition apply_extract ::
  "('j, 'w) login_env \<Rightarrow> extract_rule \<Rightarrow> response \<Rightarrow> string \<Rightarrow> gerror + string" where
  "apply_extract env rule resp body =
     (if x_from rule = [] \<or> x_from rule = ''body'' then
        (case le_regexp env (x_pattern rule) of
           Inl err \<Rightarrow> Inl (ExtractBadPattern (x_name rule) err)
         | Inr re \<Rightarrow>
             (case re body of
                None \<Rightarrow> Inr []
              | Some m \<Rightarrow> if 1 < length m then Inr (m ! 1) else Inr (hd m)))
      else if x_from rule = ''header'' then Inr (hget (rs_header resp) (x_pattern rule))
      else if x_from rule = ''json'' then
        (case le_json env body of
           Inl err \<Rightarrow> Inl (ExtractNotJSON (x_name rule) err)
         | Inr data \<Rightarrow> Inr (json_path data (x_pattern rule)))
      else Inl (ExtractUnknownSource (x_name rule) (x_from rule)))"

fun run_extracts ::
  "('j, 'w) login_env \<Rightarrow> string \<Rightarrow> nat \<Rightarrow> extract_rule list \<Rightarrow> response \<Rightarrow> string \<Rightarrow> vars \<Rightarrow> gerror + vars"
where
  "run_extracts env i n [] resp body vs = Inr vs"
| "run_extracts env i n (rule # rules) resp body vs =
     (case apply_extract env rule resp body of
        Inl err \<Rightarrow> Inl (StepFailed i n err)
      | Inr val \<Rightarrow>
          if val = [] then Inl (ExtractEmpty i n (x_name rule))
          else run_extracts env i n rules resp body (AList.update (x_name rule) val vs))"

section \<open>Steps\<close>

fun subst_form :: "('j, 'w) login_env \<Rightarrow> vars \<Rightarrow> (string \<times> string) list \<Rightarrow> url_values \<Rightarrow> ('w, url_values) io"
where
  "subst_form env vs [] form w = (form, w)"
| "subst_form env vs ((k, v) # kvs) form w =
     (let (v', w1) = subst env v vs w in subst_form env vs kvs (values_set k v' form) w1)"

text \<open>Body and content type of a step (lines 99-110).\<close>

definition step_body :: "('j, 'w) login_env \<Rightarrow> vars \<Rightarrow> login_step \<Rightarrow> ('w, string \<times> string) io" where
  "step_body env vs step w =
     (if ls_form step \<noteq> [] then
        (let (form, w1) = subst_form env vs (ls_form step) [] w
         in ((values_encode form, form_content_type), w1))
      else if ls_body step \<noteq> [] then
        (let (b, w1) = subst env (ls_body step) vs w in ((b, []), w1))
      else (([], []), w))"

definition step_request :: "string \<Rightarrow> string \<Rightarrow> string \<times> string \<Rightarrow> gerror + request" where
  "step_request meth url bc =
     (case new_request meth url (fst bc) of
        Inl err \<Rightarrow> Inl err
      | Inr req \<Rightarrow>
          Inr (if snd bc \<noteq> [] then req\<lparr>rq_header := hset (rq_header req) ''Content-Type'' (snd bc)\<rparr>
               else req))"

record 'j progress =
  pr_jar :: 'j
  pr_vars :: vars
  pr_last :: "(response \<times> string \<times> string) option"

definition run_step ::
  "('j, 'w) login_env \<Rightarrow> string \<Rightarrow> nat \<Rightarrow> login_step \<Rightarrow> 'j progress \<Rightarrow> ('w, gerror + 'j progress) io"
where
  "run_step env i n step p w =
     (let meth = (if ls_method step = [] then ''GET'' else ls_method step);
          (url, w1) = subst env (ls_url step) (pr_vars p) w;
          (bc, w2) = step_body env (pr_vars p) step w1
      in case step_request meth url bc of
           Inl err \<Rightarrow> (Inl (StepFailed i n err), w2)
         | Inr req \<Rightarrow>
             (case le_do env (pr_jar p) req w2 of
                (Inl err, jar, w3) \<Rightarrow> (Inl (StepFailed i n err), w3)
              | (Inr resp, jar, w3) \<Rightarrow>
                  (case rs_read_error resp of
                     Some err \<Rightarrow> (Inl (StepFailed i n (Wrapped ''reading body'' err)), w3)
                   | None \<Rightarrow>
                       if 400 \<le> rs_status resp then (Inl (StepStatus i n (rs_status resp)), w3)
                       else
                         (case run_extracts env i n (ls_extract step) resp (rs_body resp) (pr_vars p) of
                            Inl err \<Rightarrow> (Inl err, w3)
                          | Inr vs \<Rightarrow>
                              (Inr \<lparr>pr_jar = jar, pr_vars = vs,
                                    pr_last = Some (resp, rs_body resp, url)\<rparr>, w3)))))"

fun run_steps ::
  "('j, 'w) login_env \<Rightarrow> string \<Rightarrow> nat \<Rightarrow> login_step list \<Rightarrow> 'j progress \<Rightarrow> ('w, gerror + 'j progress) io"
where
  "run_steps env i n [] p w = (Inr p, w)"
| "run_steps env i n (step # steps) p w =
     (case run_step env i (Suc n) step p w of
        (Inl err, w1) \<Rightarrow> (Inl err, w1)
      | (Inr p', w1) \<Rightarrow> run_steps env i (Suc n) steps p' w1)"

section \<open>Establish\<close>

text \<open>From the last step to the session (lines 147-171).\<close>

definition capture_session ::
  "('j, 'w) login_env \<Rightarrow> multistep \<Rightarrow> 'j progress \<Rightarrow> response \<Rightarrow> string \<Rightarrow> string \<Rightarrow> ('w, gerror + session) io"
where
  "capture_session env r p resp body url w =
     (case url_parse url of
        Inl err \<Rightarrow> (Inl (Wrapped ''parsing last url'' err), w)
      | Inr u \<Rightarrow>
          (let (csrf, w1) =
                 (if cs_csrf (ms_capture r) \<noteq> [] then subst env (cs_csrf (ms_capture r)) (pr_vars p) w
                  else ([], w));
               bearer = (case cs_bearer (ms_capture r) of
                           None \<Rightarrow> Inr []
                         | Some rule \<Rightarrow> apply_extract env rule resp body)
           in case bearer of
                Inl err \<Rightarrow> (Inl (CaptureFailed (ms_id r) err), w1)
              | Inr token \<Rightarrow>
                  (let sess = empty_session\<lparr>s_identity := ms_id r, s_cookies := le_cookies env (pr_jar p) u,
                                s_csrf := csrf, s_bearer := token\<rparr>
                   in if s_cookies sess = [] \<and> s_bearer sess = []
                      then (Inl (NoSessionMaterial (ms_id r)), w1) else (Inr sess, w1))))"

definition multi_establish :: "('j, 'w) login_env \<Rightarrow> multistep \<Rightarrow> ('w, gerror + session) io" where
  "multi_establish env r w =
     (if ms_steps r = [] then (Inl (NoSteps (ms_id r)), w)
      else
        (case run_steps env (ms_id r) 0 (ms_steps r)
                \<lparr>pr_jar = le_jar env, pr_vars = [(''password'', ms_password r)], pr_last = None\<rparr> w of
           (Inl err, w1) \<Rightarrow> (Inl err, w1)
         | (Inr p, w1) \<Rightarrow>
             (case pr_last p of
                None \<Rightarrow> (Inl (NoSteps (ms_id r)), w1)
              | Some (resp, body, url) \<Rightarrow> capture_session env r p resp body url w1)))"

definition multi_recipe :: "('j, 'w) login_env \<Rightarrow> multistep \<Rightarrow> 'w recipe" where
  "multi_recipe env r =
     \<lparr>r_identity = ms_id r, r_establish = multi_establish env r,
      r_refresh = (\<lambda>_. multi_establish env r), r_logout = ms_signature r\<rparr>"

section \<open>The contract\<close>

lemma capture_session_ok:
  "capture_session env r p resp body url w = (Inr s, w') \<Longrightarrow> session_ok (ms_id r) s"
  by (auto simp: capture_session_def session_ok_def has_material_def empty_session_def Let_def
      split: sum.splits prod.splits if_splits option.splits)

lemma multi_establish_ok:
  assumes "multi_establish env r w = (Inr s, w')"
  shows "session_ok (ms_id r) s"
proof -
  obtain x w1 where "run_steps env (ms_id r) 0 (ms_steps r)
      \<lparr>pr_jar = le_jar env, pr_vars = [(''password'', ms_password r)], pr_last = None\<rparr> w = (x, w1)"
    by fastforce
  with assms obtain p resp body url where "capture_session env r p resp body url w1 = (Inr s, w')"
    by (auto simp: multi_establish_def split: sum.splits option.splits if_splits)
  then show ?thesis by (rule capture_session_ok)
qed

interpretation multi: login_recipe "multi_recipe env r" for env r
  by unfold_locales (auto simp: multi_recipe_def multi_establish_ok)

end
