(* ===== verification/Browser.thy ===== *)
theory Browser
  imports Recipe
begin

text \<open>
  Component \<open>internal/recipe\<close>, \<open>browser.go\<close>: a login through a real browser.  The tasks that the
  code hands to chromedp are data here (\<open>browser_action\<close>), and chromedp itself, which runs them,
  is the parameter \<open>be_run\<close> of the record \<open>browser_env\<close>; so are the environment and the files that
  decide which executable is used.  The poll that waits for the success URL is a loop that may not
  end: \<open>poll_success\<close> is a partial function whose value is \<open>None\<close> when it does not.
\<close>

record browser =
  br_id :: string
  br_login_url :: string
  br_username_selector :: string
  br_password_selector :: string
  br_submit_selector :: string
  br_success_url_contains :: string
  br_success_selector :: string
  br_headful :: bool
  br_insecure :: bool
  br_bearer_local_storage :: string
  br_username :: string
  br_password :: string
  br_signature :: logout_signature

section \<open>The tasks of a login\<close>

datatype browser_action =
    Navigate string
  | WaitVisible string
  | SendKeys string string
  | Click string
  | PollUrl string
  | ReadCookies
  | ReadLocalStorage string

definition wait_for_success :: "browser \<Rightarrow> browser_action" where
  "wait_for_success r =
     (if br_success_selector r \<noteq> [] then WaitVisible (br_success_selector r)
      else PollUrl (br_success_url_contains r))"

definition browser_tasks :: "browser \<Rightarrow> browser_action list" where
  "browser_tasks r =
     [Navigate (br_login_url r), WaitVisible (br_username_selector r),
      SendKeys (br_username_selector r) (br_username r),
      SendKeys (br_password_selector r) (br_password r),
      Click (br_submit_selector r), wait_for_success r, ReadCookies]
     @ (if br_bearer_local_storage r \<noteq> [] then [ReadLocalStorage (br_bearer_local_storage r)] else [])"

text \<open>
  The action that \<open>PollUrl\<close> stands for (browser.go 163-178): \<open>href\<close> evaluates the page's URL,
  \<open>pause\<close> waits 200 ms and reports the error of the context when its deadline comes first.
\<close>

partial_function (option) poll_success ::
  "('w, gerror + string) io \<Rightarrow> ('w, gerror option) io \<Rightarrow> string \<Rightarrow> 'w
     \<Rightarrow> (gerror option \<times> 'w) option" where
  "poll_success href pause fragment w =
     (case href w of
        (Inl err, w1) \<Rightarrow> Some (Some err, w1)
      | (Inr h, w1) \<Rightarrow>
          if fragment \<noteq> [] \<and> contains h fragment then Some (None, w1)
          else (case pause w1 of
                  (Some err, w2) \<Rightarrow> Some (Some err, w2)
                | (None, w2) \<Rightarrow> poll_success href pause fragment w2))"

section \<open>The executable\<close>

record chrome_options =
  co_exec_path :: string
  co_headless :: bool
  co_ignore_certificate_errors :: bool

record 'w browser_env =
  be_getenv :: "string \<Rightarrow> string"
  be_is_file :: "string \<Rightarrow> bool"
  be_look_path :: "string \<Rightarrow> string option"
  be_run :: "chrome_options \<Rightarrow> duration \<Rightarrow> browser_action list
    \<Rightarrow> ('w, gerror + cookie list \<times> string option) io"

definition chrome_candidates :: "string list" where
  "chrome_candidates =
     [''/Applications/Google Chrome.app/Contents/MacOS/Google Chrome'', ''/usr/bin/google-chrome'',
      ''/usr/bin/chromium'', ''/usr/bin/chromium-browser'']"

definition chrome_names :: "string list" where
  "chrome_names = [''google-chrome'', ''google-chrome-stable'', ''chromium'', ''chromium-browser'', ''chrome'']"

fun first_some :: "('a \<Rightarrow> 'b option) \<Rightarrow> 'a list \<Rightarrow> 'b option" where
  "first_some f [] = None"
| "first_some f (x # xs) = (case f x of None \<Rightarrow> first_some f xs | Some y \<Rightarrow> Some y)"

definition chrome_path :: "'w browser_env \<Rightarrow> string" where
  "chrome_path env =
     (if be_getenv env ''CLAVIGER_CHROME'' \<noteq> [] then be_getenv env ''CLAVIGER_CHROME''
      else (case find (be_is_file env) chrome_candidates of
              Some c \<Rightarrow> c
            | None \<Rightarrow> (case first_some (be_look_path env) chrome_names of None \<Rightarrow> [] | Some p \<Rightarrow> p)))"

definition chrome_options_of :: "string \<Rightarrow> browser \<Rightarrow> chrome_options" where
  "chrome_options_of path r =
     \<lparr>co_exec_path = path, co_headless = (\<not> br_headful r), co_ignore_certificate_errors = br_insecure r\<rparr>"

section \<open>Establish\<close>

definition login_timeout :: "browser \<Rightarrow> duration" where
  "login_timeout r = (if br_headful r then 300 * second else 60 * second)"

definition browser_establish :: "'w browser_env \<Rightarrow> browser \<Rightarrow> ('w, gerror + session) io" where
  "browser_establish env r w =
     (if chrome_path env = [] then (Inl ChromeNotFound, w)
      else
        (case be_run env (chrome_options_of (chrome_path env) r) (login_timeout r) (browser_tasks r) w of
           (Inl err, w1) \<Rightarrow> (Inl (Wrapped (br_id r) err), w1)
         | (Inr (cookies, token), w1) \<Rightarrow>
             (let sess = empty_session\<lparr>s_identity := br_id r, s_cookies := cookies,
                           s_bearer := (case token of None \<Rightarrow> [] | Some t \<Rightarrow> t)\<rparr>
              in if s_cookies sess = [] \<and> s_bearer sess = []
                 then (Inl (NoSessionMaterial (br_id r)), w1) else (Inr sess, w1))))"

definition browser_recipe :: "'w browser_env \<Rightarrow> browser \<Rightarrow> 'w recipe" where
  "browser_recipe env r =
     \<lparr>r_identity = br_id r, r_establish = browser_establish env r,
      r_refresh = (\<lambda>_. browser_establish env r), r_logout = br_signature r\<rparr>"

section \<open>The contract\<close>

lemma browser_establish_ok:
  "browser_establish env r w = (Inr s, w') \<Longrightarrow> session_ok (br_id r) s"
  by (auto simp: browser_establish_def session_ok_def has_material_def empty_session_def Let_def
      split: sum.splits prod.splits if_splits option.splits)

interpretation browser: login_recipe "browser_recipe env r" for env r
  by unfold_locales (auto simp: browser_recipe_def browser_establish_ok)

section \<open>The poll\<close>

text \<open>One turn of the loop, and the induction over a measure that every pause decreases.\<close>

lemma poll_success_simps [simp]:
  "href w = (Inl err, w1) \<Longrightarrow> poll_success href pause f w = Some (Some err, w1)"
  "href w = (Inr h, w1) \<Longrightarrow> f \<noteq> [] \<Longrightarrow> contains h f \<Longrightarrow> poll_success href pause f w = Some (None, w1)"
  "href w = (Inr h, w1) \<Longrightarrow> f = [] \<or> \<not> contains h f \<Longrightarrow> pause w1 = (Some err, w2) \<Longrightarrow>
   poll_success href pause f w = Some (Some err, w2)"
  "href w = (Inr h, w1) \<Longrightarrow> f = [] \<or> \<not> contains h f \<Longrightarrow> pause w1 = (None, w2) \<Longrightarrow>
   poll_success href pause f w = poll_success href pause f w2"
  by (subst poll_success.simps; auto)+

lemma poll_result:
  "poll_success href pause f w = Some y \<Longrightarrow>
   fst y = None \<longrightarrow> f \<noteq> [] \<and> (\<exists>v h. href v = (Inr h, snd y) \<and> contains h f)"
proof (erule poll_success.raw_induct [rotated, where P = "\<lambda>href pause f w y.
    fst y = None \<longrightarrow> f \<noteq> [] \<and> (\<exists>v h. href v = (Inr h, snd y) \<and> contains h f)"])
  fix poll :: "('w, gerror + string) io \<Rightarrow> ('w, gerror option) io \<Rightarrow> string \<Rightarrow> 'w
      \<Rightarrow> (gerror option \<times> 'w) option"
    and href :: "('w, gerror + string) io" and pause f w y
  assume ih: "\<And>href pause f w y. poll href pause f w = Some y \<Longrightarrow>
      fst y = None \<longrightarrow> f \<noteq> [] \<and> (\<exists>v h. href v = (Inr h, snd y) \<and> contains h f)"
    and body: "(case href w of
        (Inl err, w1) \<Rightarrow> Some (Some err, w1)
      | (Inr h, w1) \<Rightarrow>
          if f \<noteq> [] \<and> contains h f then Some (None, w1)
          else (case pause w1 of
                  (Some err, w2) \<Rightarrow> Some (Some err, w2)
                | (None, w2) \<Rightarrow> poll href pause f w2)) = Some y"
  have ih': "f \<noteq> [] \<and> (\<exists>v h. href v = (Inr h, b) \<and> contains h f)"
    if "poll href pause f w' = Some (None, b)" for w' b
    using ih [OF that] by simp
  show "fst y = None \<longrightarrow> f \<noteq> [] \<and> (\<exists>v h. href v = (Inr h, snd y) \<and> contains h f)"
    using body ih' by (cases y, cases "fst y", cases "f = []") (auto split: prod.splits sum.splits option.splits if_splits)
qed

text \<open>
  The loop ends when there is a deadline: \<open>left\<close> bounds the pauses that are left before the
  context reports that it is done.
\<close>

lemma poll_terminates:
  assumes pause: "\<And>v v'. pause v = (None, v') \<Longrightarrow> (left v' :: nat) < left v"
    and href: "\<And>v x v'. href v = (x, v') \<Longrightarrow> left v' \<le> left v"
  shows "\<exists>r. poll_success href pause f w = Some r"
proof (induction "left w" arbitrary: w rule: less_induct)
  case less
  obtain x w1 where h: "href w = (x, w1)" by fastforce
  obtain e w2 where p: "pause w1 = (e, w2)" by fastforce
  show ?case
  proof (cases "e = None")
    case True
    with p pause href [OF h] have "left w2 < left w" by (metis order_less_le_trans)
    from less [OF this] show ?thesis
      using h p True by (subst poll_success.simps) (auto split: sum.splits)
  next
    case False
    with h p show ?thesis by (subst poll_success.simps) (auto split: sum.splits)
  qed
qed

end
