(* ===== verification/Recipe_Properties.thy ===== *)
theory Recipe_Properties
  imports Multi_Recipe Browser Samples
begin

text \<open>
  What the login recipes promise: sessions fit for their identity, lifetimes that never wrap,
  credentials that reach the server as configured, refresh tokens that are kept, and the way a
  multistep login carries values from one step to the next.
\<close>

section \<open>Sample servers and recipes\<close>

text \<open>A token endpoint that refuses its first \<open>n\<close> requests, and the payload it answers.\<close>

definition token_server :: "nat \<Rightarrow> nat client" where
  "token_server n q w =
     (Inr \<lparr>rs_status = (if w < n then 400 else 200), rs_header = [], rs_cookies = [],
           rs_body = ''{}'', rs_read_error = None\<rparr>, Suc w)"

definition sample_payload :: token_payload where
  "sample_payload = \<lparr>tp_access_token = ''new'', tp_refresh_token = [], tp_expires_in = 0\<rparr>"

definition sample_decoder :: token_decoder where
  "sample_decoder body err = (sample_payload, err)"

definition sample_oauth :: "nat oauth2" where
  "sample_oauth = \<lparr>oa_id = ''ada'', oa_token_url = ''http://idp/token'', oa_username = ''ada'',
     oa_password = ''s3cret&'', oa_signature = \<lparr>status_codes = [401], location_contains = [],
     body_contains = []\<rparr>, oa_client = None\<rparr>"

definition sample_form :: "nat form_post" where
  "sample_form = \<lparr>fp_id = ''ada'', fp_login_url = ''http://target/login'', fp_username = ''ada'',
     fp_password = ''a b&c'', fp_user_field = [], fp_pass_field = ''pw'',
     fp_signature = \<lparr>status_codes = [401], location_contains = [], body_contains = []\<rparr>,
     fp_client = None\<rparr>"

section \<open>Lifetimes\<close>

text \<open>C35: The expiry of a session that a server reports with a positive lifetime lies after the
  login, never more than \<open>2 ^ 62\<close> nanoseconds after it, and is exact as long as the lifetime is
  within that bound: no lifetime that fits an \<open>int\<close> makes the 64-bit product wrap.\<close>

theorem expires_at_bounds:
  assumes "0 < sint n"
  shows "fst (tick w) < fst (expires_at tick n w) \<and>
    fst (expires_at tick n w) \<le> fst (tick w) + 2 ^ 62 \<and>
    (sint n * second \<le> 2 ^ 62 \<longrightarrow> fst (expires_at tick n w) = fst (tick w) + sint n * second)"
  using assms by (simp add: expires_at_known min_def)

theorem expires_at_bounds_witness:
  "0 < fst (expires_at (\<lambda>w::nat. (0, w)) (2 ^ 63 - 1) 0)"
proof -
  have "0 < sint (2 ^ 63 - 1 :: 64 word)" by simp
  from expires_at_bounds [OF this, of "\<lambda>w::nat. (0, w)" 0] show ?thesis by simp
qed

section \<open>Every recipe keeps the contract of the store\<close>

text \<open>C19: Whatever a login or a renewal of a configured recipe returns as a success is a session
  of that identity which carries a cookie or a token.\<close>

theorem recipe_sessions_ok:
  assumes "rc \<in> {form_recipe dflt decode tick f, oauth_recipe dflt decode tick o2,
      multi_recipe env ms, browser_recipe be br}"
    and "r_establish rc w = (Inr s, w') \<or> r_refresh rc cur w = (Inr s, w')"
  shows "s_identity s = r_identity rc \<and> (s_cookies s \<noteq> [] \<or> s_bearer s \<noteq> [])"
proof -
  from assms(1) have rc: "login_recipe rc"
    using form.login_recipe_axioms oauth.login_recipe_axioms multi.login_recipe_axioms
      browser.login_recipe_axioms by blast
  from assms(2) login_recipe.establish_ok [OF rc] login_recipe.refresh_ok [OF rc] have "session_ok (r_identity rc) s" by blast
  then show ?thesis by (simp add: session_ok_def has_material_def)
qed

definition renewable :: session where
  "renewable = empty_session\<lparr>s_identity := ''ada'', s_bearer := ''old'', s_refresh_token := ''keep''\<rparr>"

lemma sample_grants:
  "\<exists>req. post_form (oa_token_url sample_oauth) (password_grant sample_oauth) = Inr req"
  "\<exists>req. post_form (oa_token_url sample_oauth) (refresh_grant renewable) = Inr req"
  "\<exists>req. post_form (fp_login_url sample_form) (form_values sample_form) = Inr req"
  by (rule not_isl_Inr, code_simp)+

lemma sample_oauth_login:
  "oauth_establish (token_server 0) sample_decoder tick sample_oauth w
     = (Inr (oauth_session sample_oauth None sample_payload 0), Suc w)"
  using sample_grants(1)
  by (auto simp: oauth_establish_def oauth_token_def own_client_def token_server_def sample_decoder_def
      sample_payload_def expires_at_unknown sample_oauth_def)

theorem recipe_sessions_ok_witness:
  "\<exists>s w'. r_establish (oauth_recipe (token_server 0) sample_decoder sample_clock sample_oauth) 0 = (Inr s, w')
     \<and> s_identity s = ''ada'' \<and> (s_cookies s \<noteq> [] \<or> s_bearer s = ''new'')"
proof -
  let ?rc = "oauth_recipe (token_server 0) sample_decoder sample_clock sample_oauth"
  let ?s = "oauth_session sample_oauth None sample_payload 0"
  have run: "r_establish ?rc 0 = (Inr ?s, Suc 0)"
    using sample_oauth_login by (simp add: oauth_recipe_def)
  have "?rc \<in> {form_recipe (token_server 0) sample_decoder sample_clock sample_form, ?rc,
      multi_recipe env ms, browser_recipe be br}" for env :: "(nat, nat) login_env" and ms be br
    by simp
  from recipe_sessions_ok [OF this disjI1 [OF run]] run show ?thesis
    by (simp add: oauth_recipe_def sample_oauth_def oauth_session_def sample_payload_def)
qed

section \<open>OAuth2 renewals\<close>

text \<open>A server that answers a refresh grant without a new refresh token does not make the
  identity lose the old one: the renewed session has the new access token, and the new refresh
  token if there is one, otherwise the one it was renewed with.\<close>

theorem oauth_refresh_keeps_token:
  assumes "s_refresh_token cur \<noteq> []" and "post_form (oa_token_url r) (refresh_grant cur) = Inr req"
    and "own_client dflt (oa_client r) req w = (Inr resp, w1)" and "rs_status resp < 400"
    and "decode (rs_body resp) (rs_read_error resp) = (payload, None)" and "tp_access_token payload \<noteq> []"
  shows "\<exists>s w'. oauth_refresh dflt decode tick r (Some cur) w = (Inr s, w') \<and>
    s_identity s = oa_id r \<and> s_bearer s = tp_access_token payload \<and>
    s_refresh_token s = (if tp_refresh_token payload = [] then s_refresh_token cur
                         else tp_refresh_token payload)"
proof -
  obtain expiry w2 where e: "expires_at tick (tp_expires_in payload) w1 = (expiry, w2)" by fastforce
  have "oauth_refresh dflt decode tick r (Some cur) w = (Inr (oauth_session r (Some cur) payload expiry), w2)"
    using assms e by (simp add: oauth_refresh_def oauth_token_def)
  then show ?thesis by (simp add: oauth_session_def empty_session_def Let_def)
qed

theorem oauth_refresh_keeps_token_witness:
  "\<exists>s w'. oauth_refresh (token_server 0) sample_decoder sample_clock sample_oauth (Some renewable) 0
       = (Inr s, w') \<and> s_bearer s = ''new'' \<and> s_refresh_token s = ''keep''"
proof -
  obtain req where req: "post_form (oa_token_url sample_oauth) (refresh_grant renewable) = Inr req"
    using sample_grants(2) by blast
  have tok: "s_refresh_token renewable = ''keep''" by (simp add: renewable_def)
  let ?resp = "\<lparr>rs_status = 200, rs_header = [], rs_cookies = [], rs_body = ''{}'', rs_read_error = None\<rparr>"
  have c: "own_client (token_server 0) (oa_client sample_oauth) req 0 = (Inr ?resp, Suc 0)"
    by (simp add: own_client_def sample_oauth_def token_server_def)
  have d: "sample_decoder (rs_body ?resp) (rs_read_error ?resp) = (sample_payload, None)"
    by (simp add: sample_decoder_def)
  from oauth_refresh_keeps_token
    [where decode = sample_decoder and payload = sample_payload, OF _ req c _ d, of sample_clock] tok
  show ?thesis by (auto simp: sample_payload_def)
qed

text \<open>A dead refresh token does not strand the identity: a renewal reports an error only after
  a full password login has been tried and has failed with that very error.\<close>

theorem oauth_refresh_recovers:
  assumes "oauth_refresh dflt decode tick r cur w = (Inl err, w')"
  shows "\<exists>w1. oauth_establish dflt decode tick r w1 = (Inl err, w') \<and>
    (w1 = w \<or> (\<exists>c e. cur = Some c \<and>
       oauth_token dflt decode tick r (refresh_grant c) cur w = (Inl e, w1)))"
  using assms by (auto simp: oauth_refresh_def split: option.splits if_splits prod.splits sum.splits)

theorem oauth_refresh_recovers_witness:
  "\<exists>w1. oauth_establish (token_server 2) sample_decoder sample_clock sample_oauth w1
      = (Inl (TokenStatus ''ada'' 400), 2)"
proof -
  have "oauth_refresh (token_server 2) sample_decoder sample_clock sample_oauth (Some renewable) 0
      = (Inl (TokenStatus ''ada'' 400), 2)"
    using sample_grants(1,2)
    by (auto simp: oauth_refresh_def oauth_establish_def oauth_token_def own_client_def
        token_server_def sample_oauth_def renewable_def)
  from oauth_refresh_recovers [OF this] show ?thesis by blast
qed

section \<open>Credentials on the wire\<close>

lemma form_values_set:
  "distinct (map fst (form_values r))"
  "uf = (if fp_user_field r = [] then ''username'' else fp_user_field r) \<Longrightarrow>
   pf = (if fp_pass_field r = [] then ''password'' else fp_pass_field r) \<Longrightarrow> uf \<noteq> pf \<Longrightarrow>
   set (form_values r) = {(uf, fp_username r), (pf, fp_password r)}"
  by (auto simp: form_values_def values_set_def Let_def)

text \<open>C36: The login form loses nothing: a server that decodes the body of the login request reads
  exactly the configured user name and password under the two field names, whatever bytes they
  contain; an OAuth password grant is read back the same way.\<close>

theorem login_form_roundtrip:
  assumes "post_form (fp_login_url r) (form_values r) = Inr req"
    and "uf = (if fp_user_field r = [] then ''username'' else fp_user_field r)"
    and "pf = (if fp_pass_field r = [] then ''password'' else fp_pass_field r)" and "uf \<noteq> pf"
    and "post_form (oa_token_url o2) (password_grant o2) = Inr req2"
  shows "set (parse_form (rq_body req)) = {Some (uf, fp_username r), Some (pf, fp_password r)} \<and>
    set (parse_form (rq_body req2)) = {Some (''grant_type'', ''password''),
      Some (''username'', oa_username o2), Some (''password'', oa_password o2)} \<and>
    rq_method req = ''POST'' \<and> hget (rq_header req) ''Content-Type'' = form_content_type"
proof -
  have d2: "distinct (map fst (password_grant o2))" by (simp add: password_grant_def)
  show ?thesis
    using post_form_roundtrip [OF assms(1) form_values_set(1)] post_form_roundtrip [OF assms(5) d2]
      post_form_simps [OF assms(1)] form_values_set(2) [OF assms(2-4)]
    by (simp add: password_grant_def)
qed

theorem login_form_roundtrip_witness:
  "\<exists>req. post_form (fp_login_url sample_form) (form_values sample_form) = Inr req \<and>
     set (parse_form (rq_body req)) = {Some (''username'', ''ada''), Some (''pw'', ''a b&c'')}"
proof -
  obtain req req2 where req: "post_form (fp_login_url sample_form) (form_values sample_form) = Inr req"
    and req2: "post_form (oa_token_url sample_oauth) (password_grant sample_oauth) = Inr req2"
    using sample_grants by blast
  from login_form_roundtrip [OF req refl refl _ req2] req show ?thesis
    by (simp add: sample_form_def)
qed

section \<open>Multistep logins\<close>

definition bound :: "vars \<Rightarrow> string \<Rightarrow> bool" where
  "bound vs k \<longleftrightarrow> (case map_of vs k of None \<Rightarrow> False | Some v \<Rightarrow> v \<noteq> [])"

lemma bound_update: "v \<noteq> [] \<Longrightarrow> bound (AList.update j v vs) k \<longleftrightarrow> k = j \<or> bound vs k"
  by (simp add: bound_def)

lemma run_extracts_bound:
  "run_extracts env i n rules resp body vs = Inr vs' \<Longrightarrow>
   (bound vs k \<or> k \<in> x_name ` set rules \<longrightarrow> bound vs' k)"
  by (induction env i n rules resp body vs rule: run_extracts.induct)
    (auto simp: bound_update split: sum.splits if_splits)

lemma run_step_bound:
  assumes "run_step env i n step p w = (Inr p', w')"
    and "bound (pr_vars p) k \<or> k \<in> x_name ` set (ls_extract step)"
  shows "bound (pr_vars p') k"
proof -
  from assms(1) obtain resp vs jar url where
    "run_extracts env i n (ls_extract step) resp (rs_body resp) (pr_vars p) = Inr vs"
    "p' = \<lparr>pr_jar = jar, pr_vars = vs, pr_last = Some (resp, rs_body resp, url)\<rparr>"
    by (auto simp: run_step_def Let_def split: prod.splits sum.splits option.splits if_splits)
  with run_extracts_bound assms(2) show ?thesis by fastforce
qed

text \<open>A multistep login that gets through its steps has found everything it was told to
  extract: every variable a step names has a non-empty value afterwards, and none that was known
  before is lost.\<close>

theorem multistep_extracts_bound:
  assumes "run_steps env i n steps p w = (Inr p', w')"
    and "bound (pr_vars p) k \<or> (\<exists>step \<in> set steps. k \<in> x_name ` set (ls_extract step))"
  shows "\<exists>v. map_of (pr_vars p') k = Some v \<and> v \<noteq> []"
proof -
  have "bound (pr_vars p') k"
    using assms
  proof (induction steps arbitrary: n p w)
    case (Cons step steps)
    then obtain p1 w1 where s: "run_step env i (Suc n) step p w = (Inr p1, w1)"
      "run_steps env i (Suc n) steps p1 w1 = (Inr p', w')"
      by (auto split: prod.splits sum.splits)
    with Cons.prems(2) run_step_bound [OF s(1)] show ?case by (intro Cons.IH [OF s(2)]) auto
  qed simp
  then show ?thesis by (auto simp: bound_def split: option.splits)
qed

text \<open>A login page that sets a token in a header, and a login that reads it.\<close>

definition sample_env :: "(unit, nat) login_env" where
  "sample_env = \<lparr>le_jar = (),
     le_do = (\<lambda>j q w. (Inr \<lparr>rs_status = 200, rs_header = [(''X-Token'', [''t1''])], rs_cookies = [],
                rs_body = [], rs_read_error = None\<rparr>, j, Suc w)),
     le_cookies = (\<lambda>j u. []), le_regexp = (\<lambda>p. Inl (LibError p)), le_json = (\<lambda>b. Inr []),
     le_order = (\<lambda>vs w. (vs, w))\<rparr>"

definition sample_steps :: "login_step list" where
  "sample_steps = [\<lparr>ls_method = [], ls_url = ''http://target/login'', ls_form = [], ls_body = [],
     ls_extract = [\<lparr>x_name = ''tok'', x_from = ''header'', x_pattern = ''X-Token''\<rparr>]\<rparr>]"

definition sample_progress :: "unit progress" where
  "sample_progress = \<lparr>pr_jar = (), pr_vars = [(''password'', ''pw'')], pr_last = None\<rparr>"

theorem multistep_extracts_bound_witness:
  "\<exists>p' w' v. run_steps sample_env ''ada'' 0 sample_steps sample_progress 0 = (Inr p', w') \<and>
     map_of (pr_vars p') ''tok'' = Some v \<and> v \<noteq> []"
proof -
  let ?run = "run_steps sample_env ''ada'' 0 sample_steps sample_progress 0"
  have "\<not> isl (fst ?run)" by code_simp
  then obtain p' where "fst ?run = Inr p'" by (metis not_isl_Inr)
  then have run: "?run = (Inr p', snd ?run)" by (metis prod.collapse)
  have "\<exists>step \<in> set sample_steps. ''tok'' \<in> x_name ` set (ls_extract step)"
    by (simp add: sample_steps_def)
  from multistep_extracts_bound [OF run disjI2 [OF this]] run show ?thesis by blast
qed

text \<open>The result of a template may depend on the order in which Go happens to visit the map of
  variables: when the value of one variable contains the token of another, one order substitutes
  that token too and another order leaves it in the request.\<close>

theorem subst_depends_on_map_order:
  "subst_ordered ''/p/{{a}}'' [(''a'', ''{{b}}''), (''b'', ''1'')] = ''/p/1'' \<and>
   subst_ordered ''/p/{{a}}'' [(''b'', ''1''), (''a'', ''{{b}}'')] = ''/p/{{b}}''"
  by code_simp

section \<open>The wait for the success URL\<close>

text \<open>C37: The wait of the browser login always returns when pausing runs against a deadline: it ends
  with an error, or at a moment when the page's URL contains the fragment that was configured.\<close>

theorem browser_poll_terminates:
  assumes "\<And>v v'. pause v = (None, v') \<Longrightarrow> (left v' :: nat) < left v"
    and "\<And>v x v'. href v = (x, v') \<Longrightarrow> left v' \<le> left v"
  shows "\<exists>err w'. poll_success href pause fragment w = Some (err, w') \<and>
    (err \<noteq> None \<or> fragment \<noteq> [] \<and> (\<exists>v url. href v = (Inr url, w') \<and> contains url fragment))"
proof -
  have "\<exists>r. poll_success href pause fragment w = Some r"
    by (rule poll_terminates [where left = left]) (erule assms(1), erule assms(2))
  then obtain r where r: "poll_success href pause fragment w = Some r" ..
  with poll_result [OF r] show ?thesis by (cases r) auto
qed

text \<open>A browser that reaches the success page when seven pauses of its deadline are left.\<close>

definition sample_href :: "nat \<Rightarrow> (gerror + string) \<times> nat" where
  "sample_href w = (Inr (if w \<le> 7 then ''http://target/home?x'' else ''http://target/login''), w)"

definition sample_pause :: "nat \<Rightarrow> gerror option \<times> nat" where
  "sample_pause w = (if w = 0 then (Some (LibError ''deadline''), 0) else (None, w - 1))"

theorem browser_poll_terminates_witness:
  "\<exists>err w'. poll_success sample_href sample_pause ''/home'' 10 = Some (err, w') \<and>
     (err \<noteq> None \<or> ''/home'' \<noteq> [] \<and> (\<exists>v url. sample_href v = (Inr url, w') \<and> contains url ''/home''))"
proof (rule browser_poll_terminates [where left = "\<lambda>v. v"])
  show "sample_pause v = (None, v') \<Longrightarrow> v' < v" for v v'
    by (auto simp: sample_pause_def split: if_splits)
  show "sample_href v = (x, v') \<Longrightarrow> v' \<le> v" for v x v' by (simp add: sample_href_def)
qed

end
