(* ===== verification/Httpx.thy ===== *)
theory Httpx
  imports Prelude
begin

text \<open>
  Component \<open>internal/httpx\<close> (\<open>httpx.go\<close>): from the TLS settings to the transport of an HTTP
  client.  A transport is the part of \<open>tls.Config\<close> that the code fills (everything else is that of
  Go's default transport).  Certificates and key pairs are values of unknown types \<open>'c\<close> and \<open>'k\<close>;
  the file system and Go's x509 parsing are the parameters in the record \<open>tls_env\<close>.
\<close>

record httpx_config =
  hx_insecure_skip_verify :: bool
  hx_ca_cert_file :: string
  hx_client_cert_file :: string
  hx_client_key_file :: string

datatype tls_error =
    ReadCaCert string gerror
  | NoCertificatesFound string
  | ClientCertWithoutKey
  | LoadClientCert gerror

text \<open>No \<open>tr_root_cas\<close> stands for a nil pool: the roots of the system are trusted.\<close>

record ('c, 'k) transport =
  tr_insecure_skip_verify :: bool
  tr_root_cas :: "'c list option"
  tr_certificates :: "'k list"

record ('c, 'k, 'w) tls_env =
  te_system_pool :: "'c list option"
  te_read_file :: "string \<Rightarrow> ('w, gerror + string) io"
  te_certs_of_pem :: "string \<Rightarrow> 'c list"
  te_load_key_pair :: "string \<Rightarrow> string \<Rightarrow> ('w, gerror + 'k) io"

text \<open>The pool of roots (httpx.go 25-41).\<close>

definition root_pool ::
  "('c, 'k, 'w) tls_env \<Rightarrow> string \<Rightarrow> ('w, tls_error + 'c list option) io" where
  "root_pool env file w =
     (if file = [] then (Inr None, w)
      else
        (let pool = (case te_system_pool env of None \<Rightarrow> [] | Some cs \<Rightarrow> cs)
         in case te_read_file env file w of
              (Inl err, w1) \<Rightarrow> (Inl (ReadCaCert file err), w1)
            | (Inr pem, w1) \<Rightarrow>
                if te_certs_of_pem env pem = [] then (Inl (NoCertificatesFound file), w1)
                else (Inr (Some (pool @ te_certs_of_pem env pem)), w1)))"

text \<open>The client certificate (httpx.go 43-52).\<close>

definition client_certificates ::
  "('c, 'k, 'w) tls_env \<Rightarrow> string \<Rightarrow> string \<Rightarrow> ('w, tls_error + 'k list) io" where
  "client_certificates env cert key w =
     (if cert \<noteq> [] \<or> key \<noteq> [] then
        (if cert = [] \<or> key = [] then (Inl ClientCertWithoutKey, w)
         else
           (case te_load_key_pair env cert key w of
              (Inl err, w1) \<Rightarrow> (Inl (LoadClientCert err), w1)
            | (Inr pair, w1) \<Rightarrow> (Inr [pair], w1)))
      else (Inr [], w))"

definition transport_of ::
  "('c, 'k, 'w) tls_env \<Rightarrow> httpx_config \<Rightarrow> ('w, tls_error + ('c, 'k) transport) io" where
  "transport_of env cfg w =
     (case root_pool env (hx_ca_cert_file cfg) w of
        (Inl err, w1) \<Rightarrow> (Inl err, w1)
      | (Inr roots, w1) \<Rightarrow>
          (case client_certificates env (hx_client_cert_file cfg) (hx_client_key_file cfg) w1 of
             (Inl err, w2) \<Rightarrow> (Inl err, w2)
           | (Inr certs, w2) \<Rightarrow>
               (Inr \<lparr>tr_insecure_skip_verify = hx_insecure_skip_verify cfg, tr_root_cas = roots,
                     tr_certificates = certs\<rparr>, w2)))"

text \<open>The client of a transport is net/http's; \<open>'h\<close> is what the caller makes of it.\<close>

definition http_client ::
  "('c, 'k, 'w) tls_env \<Rightarrow> (('c, 'k) transport \<Rightarrow> 'h) \<Rightarrow> httpx_config \<Rightarrow> ('w, tls_error + 'h) io" where
  "http_client env mk cfg w =
     (case transport_of env cfg w of
        (Inl err, w1) \<Rightarrow> (Inl err, w1)
      | (Inr t, w1) \<Rightarrow> (Inr (mk t), w1))"

section \<open>What a transport trusts\<close>

lemma root_pool_some:
  assumes "root_pool env file w = (Inr roots, w1)"
  shows "(case roots of
            None \<Rightarrow> file = [] \<and> w1 = w
          | Some cs \<Rightarrow> file \<noteq> [] \<and> (\<exists>pem. te_read_file env file w = (Inr pem, w1) \<and>
              te_certs_of_pem env pem \<noteq> [] \<and>
              cs = (case te_system_pool env of None \<Rightarrow> [] | Some sys \<Rightarrow> sys) @ te_certs_of_pem env pem))"
  using assms by (auto simp: root_pool_def Let_def split: if_splits prod.splits sum.splits)

lemma client_certificates_some:
  assumes "client_certificates env cert key w = (Inr certs, w1)"
  shows "(cert = [] \<longleftrightarrow> key = []) \<and> (certs = [] \<longleftrightarrow> cert = []) \<and>
    (certs \<noteq> [] \<longrightarrow> (\<exists>k. certs = [k] \<and> te_load_key_pair env cert key w = (Inr k, w1)))"
  using assms by (auto simp: client_certificates_def split: if_splits prod.splits sum.splits)

lemma transport_parts:
  assumes "transport_of env cfg w = (Inr t, w')"
  obtains w1 where "root_pool env (hx_ca_cert_file cfg) w = (Inr (tr_root_cas t), w1)"
    "client_certificates env (hx_client_cert_file cfg) (hx_client_key_file cfg) w1
       = (Inr (tr_certificates t), w')"
    "tr_insecure_skip_verify t = hx_insecure_skip_verify cfg"
  using assms by (fastforce simp: transport_of_def split: prod.splits sum.splits)

text \<open>The zero configuration reads nothing and yields the default trust.\<close>

lemma transport_default:
  "transport_of env \<lparr>hx_insecure_skip_verify = False, hx_ca_cert_file = [], hx_client_cert_file = [],
     hx_client_key_file = []\<rparr> w =
   (Inr \<lparr>tr_insecure_skip_verify = False, tr_root_cas = None, tr_certificates = []\<rparr>, w)"
  by (simp add: transport_of_def root_pool_def client_certificates_def)

end
