(* ===== verification/Config.thy ===== *)
theory Config
  imports Multi_Recipe Browser Httpx
begin

text \<open>
  Component \<open>internal/config\<close> (\<open>config.go\<close>, \<open>secrets.go\<close>): the configuration file as data, its
  checks, the resolution of the passwords, and the recipes that are built from it.

  The YAML decoder, the file system, the environment and the shell are parameters (\<open>os_env\<close>).
  A recipe that is built is a value of \<open>built\<close>, one constructor per Go type that
  implements the interface; \<open>to_recipe\<close> gives its methods, over the clients that net/http makes
  of a transport.
\<close>

section \<open>The configuration file\<close>

record logout_config =
  lc_status_codes :: "int list"
  lc_location_contains :: string
  lc_body_contains :: string

record tls_settings =
  tls_insecure :: bool
  tls_ca_cert :: string
  tls_client_cert :: string
  tls_client_key :: string

definition to_httpx :: "tls_settings \<Rightarrow> httpx_config" where
  "to_httpx t =
     \<lparr>hx_insecure_skip_verify = tls_insecure t, hx_ca_cert_file = tls_ca_cert t,
      hx_client_cert_file = tls_client_cert t, hx_client_key_file = tls_client_key t\<rparr>"

record backoff_config =
  bo_max_burst :: int
  bo_window :: duration

record extract_config =
  xc_name :: string
  xc_from :: string
  xc_pattern :: string

record step_config =
  sc_method :: string
  sc_url :: string
  sc_form :: "(string, string) gomap"
  sc_body :: string
  sc_extract :: "extract_config list"

record capture_config =
  cc_csrf :: string
  cc_bearer :: "extract_config option"
  cc_bearer_local_storage :: string

record csrf_config =
  cf_fetch_url :: string
  cf_pattern :: string
  cf_header :: string
  cf_methods :: "string list"

record identity_config =
  ic_name :: string
  ic_type :: string
  ic_login_url :: string
  ic_token_url :: string
  ic_username :: string
  ic_password :: string
  ic_password_file :: string
  ic_password_command :: string
  ic_tls :: "tls_settings option"
  ic_logout :: logout_config
  ic_steps :: "step_config list"
  ic_capture :: "capture_config option"
  ic_csrf :: "csrf_config option"
  ic_username_selector :: string
  ic_password_selector :: string
  ic_submit_selector :: string
  ic_success_url_contains :: string
  ic_success_selector :: string
  ic_headful :: bool

record config =
  cfg_target :: string
  cfg_tls :: tls_settings
  cfg_backoff :: backoff_config
  cfg_identities :: "identity_config list"

datatype config_error =
    ReadConfig gerror
  | ParseConfig string gerror
  | TargetRequired string
  | TargetNotAbsolute string string
  | PasswordEnv string string
  | PasswordFile string gerror
  | PasswordCommand string
  | EmptyName
  | ReservedName string
  | DuplicateName string
  | IdentityTls string tls_error
  | BadEndpoint string string
  | MultistepWithoutSteps string
  | UnknownType string string

section \<open>Secrets\<close>

text \<open>
  A match of the expression of \<open>envRef\<close> at the start of the string: a dollar sign, an opening
  brace, a name and a closing brace.  The result is the name and what follows.
\<close>

definition name_start :: "char \<Rightarrow> bool" where
  "name_start c \<longleftrightarrow> is_lower c \<or> is_upper c \<or> c = CHR ''_''"

definition name_byte :: "char \<Rightarrow> bool" where
  "name_byte c \<longleftrightarrow> name_start c \<or> is_digit c"

definition env_ref :: "string \<Rightarrow> (string \<times> string) option" where
  "env_ref s =
     (if prefix ''${'' s then
        (let name = takeWhile name_byte (drop 2 s); after = dropWhile name_byte (drop 2 s)
         in if name \<noteq> [] \<and> name_start (hd name) \<and> after \<noteq> [] \<and> hd after = CHR ''}''
            then Some (name, tl after) else None)
      else None)"

lemma env_ref_shorter:
  assumes "env_ref s = Some (name, r)"
  shows "length r < length s"
proof -
  from assms have p: "prefix ''${'' s" and r: "r = tl (dropWhile name_byte (drop 2 s))"
    by (auto simp: env_ref_def Let_def split: if_splits)
  have "length r \<le> length (drop 2 s)"
    unfolding r by (metis diff_le_self le_trans length_dropWhile_le length_tl)
  with p show ?thesis by (auto simp: prefix_def)
qed

text \<open>
  \<open>expandEnv\<close> (secrets.go 14-28): the expanded string, and the last name that is not set (empty
  when all are).
\<close>

function expand_refs :: "(string \<Rightarrow> string option) \<Rightarrow> string \<Rightarrow> string \<times> string" where
  "expand_refs look s =
     (case env_ref s of
        Some (name, r) \<Rightarrow>
          (let (out, missing) = expand_refs look r in
           case look name of
             Some v \<Rightarrow> (v @ out, missing)
           | None \<Rightarrow> (out, if missing = [] then name else missing))
      | None \<Rightarrow>
          (case s of
             [] \<Rightarrow> ([], [])
           | c # cs \<Rightarrow> (let (out, missing) = expand_refs look cs in (c # out, missing))))"
  by pat_completeness auto
termination
  by (relation "measure (\<lambda>(look, s). length s)") (auto dest: env_ref_shorter)

declare expand_refs.simps [simp del]

definition expand_env :: "(string \<Rightarrow> string option) \<Rightarrow> string \<Rightarrow> string + string" where
  "expand_env look s =
     (let (out, missing) = expand_refs look s in if missing \<noteq> [] then Inl missing else Inr out)"

record 'w os_env =
  os_read_file :: "string \<Rightarrow> ('w, gerror + string) io"
  os_lookup_env :: "string \<Rightarrow> string option"
  os_shell :: "string \<Rightarrow> ('w, gerror + string) io"
  os_yaml :: "string \<Rightarrow> gerror + config"

definition trim_newlines :: "string \<Rightarrow> string" where
  "trim_newlines s = trim_right s [CHR 0x0D, CHR 0x0A]"

text \<open>One turn of the loop of \<open>resolveSecrets\<close> (secrets.go 36-60).\<close>

definition resolve_password ::
  "'w os_env \<Rightarrow> identity_config \<Rightarrow> ('w, config_error + identity_config) io" where
  "resolve_password env c w =
     (if ic_password c \<noteq> [] then
        (case expand_env (os_lookup_env env) (ic_password c) of
           Inl name \<Rightarrow> (Inl (PasswordEnv (ic_name c) name), w)
         | Inr pw \<Rightarrow> (Inr (c\<lparr>ic_password := pw\<rparr>), w))
      else if ic_password_file c \<noteq> [] then
        (case os_read_file env (ic_password_file c) w of
           (Inl err, w1) \<Rightarrow> (Inl (PasswordFile (ic_name c) err), w1)
         | (Inr b, w1) \<Rightarrow> (Inr (c\<lparr>ic_password := trim_newlines b\<rparr>), w1))
      else if ic_password_command c \<noteq> [] then
        (case os_shell env (ic_password_command c) w of
           (Inl _, w1) \<Rightarrow> (Inl (PasswordCommand (ic_name c)), w1)
         | (Inr out, w1) \<Rightarrow> (Inr (c\<lparr>ic_password := trim_newlines out\<rparr>), w1))
      else (Inr c, w))"

fun resolve_secrets ::
  "'w os_env \<Rightarrow> identity_config list \<Rightarrow> ('w, config_error + identity_config list) io" where
  "resolve_secrets env [] w = (Inr [], w)"
| "resolve_secrets env (c # cs) w =
     (case resolve_password env c w of
        (Inl err, w1) \<Rightarrow> (Inl err, w1)
      | (Inr c', w1) \<Rightarrow>
          (case resolve_secrets env cs w1 of
             (Inl err, w2) \<Rightarrow> (Inl err, w2) | (Inr cs', w2) \<Rightarrow> (Inr (c' # cs'), w2)))"

section \<open>Load\<close>

text \<open>\<open>u, err := url.Parse(s); err != nil || (scheme) || u.Host == ""\<close>, negated.\<close>

definition absolute_http :: "string \<Rightarrow> bool" where
  "absolute_http s =
     (case url_parse s of
        Inl _ \<Rightarrow> False
      | Inr u \<Rightarrow> (u_scheme u = ''http'' \<or> u_scheme u = ''https'') \<and> u_host u \<noteq> [])"

definition load_config :: "'w os_env \<Rightarrow> string \<Rightarrow> ('w, config_error + config) io" where
  "load_config env path w =
     (case os_read_file env path w of
        (Inl err, w1) \<Rightarrow> (Inl (ReadConfig err), w1)
      | (Inr raw, w1) \<Rightarrow>
          (case os_yaml env raw of
             Inl err \<Rightarrow> (Inl (ParseConfig path err), w1)
           | Inr c \<Rightarrow>
               if cfg_target c = [] then (Inl (TargetRequired path), w1)
               else if \<not> absolute_http (cfg_target c)
                 then (Inl (TargetNotAbsolute path (cfg_target c)), w1)
               else
                 (case resolve_secrets env (cfg_identities c) w1 of
                    (Inl err, w2) \<Rightarrow> (Inl err, w2)
                  | (Inr cs, w2) \<Rightarrow> (Inr (c\<lparr>cfg_identities := cs\<rparr>), w2))))"

section \<open>Recipes\<close>

definition valid_endpoint :: "string \<Rightarrow> string \<Rightarrow> config_error option" where
  "valid_endpoint name endpoint =
     (if absolute_http endpoint then None else Some (BadEndpoint name endpoint))"

text \<open>
  A built recipe; the transport stands for the client that was made of it (a browser gets one too
  but does not use it).
\<close>

datatype ('c, 'k) built =
    BuiltForm string string string string logout_signature "('c, 'k) transport"
  | BuiltOAuth string string string string logout_signature "('c, 'k) transport"
  | BuiltMultiStep multistep "('c, 'k) transport"
  | BuiltBrowser browser "('c, 'k) transport"

definition extract_rule_of :: "extract_config \<Rightarrow> extract_rule" where
  "extract_rule_of e = \<lparr>x_name = xc_name e, x_from = xc_from e, x_pattern = xc_pattern e\<rparr>"

fun login_steps_of :: "string \<Rightarrow> step_config list \<Rightarrow> config_error + login_step list" where
  "login_steps_of name [] = Inr []"
| "login_steps_of name (sc # scs) =
     (case (if contains (sc_url sc) ''{{'' then None else valid_endpoint name (sc_url sc)) of
        Some err \<Rightarrow> Inl err
      | None \<Rightarrow>
          (let step = \<lparr>ls_method = sc_method sc, ls_url = sc_url sc, ls_form = sc_form sc,
                       ls_body = sc_body sc, ls_extract = map extract_rule_of (sc_extract sc)\<rparr>
           in case login_steps_of name scs of
                Inl err \<Rightarrow> Inl err | Inr steps \<Rightarrow> Inr (step # steps)))"

definition capture_spec_of :: "capture_config option \<Rightarrow> capture_spec" where
  "capture_spec_of c =
     (case c of
        None \<Rightarrow> \<lparr>cs_csrf = [], cs_bearer = None\<rparr>
      | Some cc \<Rightarrow> \<lparr>cs_csrf = cc_csrf cc, cs_bearer = map_option extract_rule_of (cc_bearer cc)\<rparr>)"

definition build_multistep ::
  "identity_config \<Rightarrow> logout_signature \<Rightarrow> config_error + multistep" where
  "build_multistep c sig =
     (if ic_steps c = [] then Inl (MultistepWithoutSteps (ic_name c))
      else
        (case login_steps_of (ic_name c) (ic_steps c) of
           Inl err \<Rightarrow> Inl err
         | Inr steps \<Rightarrow>
             Inr \<lparr>ms_id = ic_name c, ms_password = ic_password c, ms_steps = steps,
                  ms_capture = capture_spec_of (ic_capture c), ms_signature = sig\<rparr>))"

definition signature_of :: "logout_config \<Rightarrow> logout_signature" where
  "signature_of l =
     \<lparr>status_codes = lc_status_codes l, location_contains = lc_location_contains l,
      body_contains = lc_body_contains l\<rparr>"

definition effective_tls :: "config \<Rightarrow> identity_config \<Rightarrow> tls_settings" where
  "effective_tls cfg c = (case ic_tls c of None \<Rightarrow> cfg_tls cfg | Some t \<Rightarrow> t)"

definition browser_of :: "identity_config \<Rightarrow> logout_signature \<Rightarrow> bool \<Rightarrow> browser" where
  "browser_of c sig insecure =
     \<lparr>br_id = ic_name c, br_login_url = ic_login_url c,
      br_username_selector = ic_username_selector c, br_password_selector = ic_password_selector c,
      br_submit_selector = ic_submit_selector c,
      br_success_url_contains = ic_success_url_contains c,
      br_success_selector = ic_success_selector c, br_headful = ic_headful c,
      br_insecure = insecure,
      br_bearer_local_storage =
        (case ic_capture c of None \<Rightarrow> [] | Some cc \<Rightarrow> cc_bearer_local_storage cc),
      br_username = ic_username c, br_password = ic_password c, br_signature = sig\<rparr>"

text \<open>The switch on the type of the identity (config.go 189-238).\<close>

definition build_recipe ::
  "identity_config \<Rightarrow> bool \<Rightarrow> ('c, 'k) transport \<Rightarrow> config_error + ('c, 'k) built" where
  "build_recipe c insecure client =
     (let sig = signature_of (ic_logout c) in
      if ic_type c = ''form'' then
        (case valid_endpoint (ic_name c) (ic_login_url c) of
           Some err \<Rightarrow> Inl err
         | None \<Rightarrow> Inr (BuiltForm (ic_name c) (ic_login_url c) (ic_username c) (ic_password c) sig client))
      else if ic_type c = ''oauth'' then
        (case valid_endpoint (ic_name c) (ic_token_url c) of
           Some err \<Rightarrow> Inl err
         | None \<Rightarrow> Inr (BuiltOAuth (ic_name c) (ic_token_url c) (ic_username c) (ic_password c) sig client))
      else if ic_type c = ''multistep'' then
        (case build_multistep c sig of
           Inl err \<Rightarrow> Inl err | Inr ms \<Rightarrow> Inr (BuiltMultiStep ms client))
      else if ic_type c = ''browser'' then
        (case valid_endpoint (ic_name c) (ic_login_url c) of
           Some err \<Rightarrow> Inl err
         | None \<Rightarrow> Inr (BuiltBrowser (browser_of c sig insecure) client))
      else Inl (UnknownType (ic_name c) (ic_type c)))"

text \<open>One identity (config.go 161-238), given the map of those before it.\<close>

definition add_identity ::
  "('c, 'k, 'w) tls_env \<Rightarrow> config \<Rightarrow> identity_config \<Rightarrow> (string, ('c, 'k) built) gomap
     \<Rightarrow> ('w, config_error + (string, ('c, 'k) built) gomap) io" where
  "add_identity env cfg c out w =
     (if ic_name c = [] then (Inl EmptyName, w)
      else if ic_name c = ''anon'' then (Inl (ReservedName (ic_name c)), w)
      else if map_of out (ic_name c) \<noteq> None then (Inl (DuplicateName (ic_name c)), w)
      else
        (case http_client env id (to_httpx (effective_tls cfg c)) w of
           (Inl err, w1) \<Rightarrow> (Inl (IdentityTls (ic_name c) err), w1)
         | (Inr client, w1) \<Rightarrow>
             (case build_recipe c (tls_insecure (effective_tls cfg c)) client of
                Inl err \<Rightarrow> (Inl err, w1)
              | Inr b \<Rightarrow> (Inr (AList.update (ic_name c) b out), w1))))"

fun add_identities ::
  "('c, 'k, 'w) tls_env \<Rightarrow> config \<Rightarrow> identity_config list \<Rightarrow> (string, ('c, 'k) built) gomap
     \<Rightarrow> ('w, config_error + (string, ('c, 'k) built) gomap) io" where
  "add_identities env cfg [] out w = (Inr out, w)"
| "add_identities env cfg (c # cs) out w =
     (case add_identity env cfg c out w of
        (Inl err, w1) \<Rightarrow> (Inl err, w1)
      | (Inr out', w1) \<Rightarrow> add_identities env cfg cs out' w1)"

definition config_recipes ::
  "('c, 'k, 'w) tls_env \<Rightarrow> config \<Rightarrow> ('w, config_error + (string, ('c, 'k) built) gomap) io" where
  "config_recipes env cfg = add_identities env cfg (cfg_identities cfg) []"

section \<open>The methods of a built recipe\<close>

text \<open>What the recipes run on: the clients that net/http makes of a transport, and the libraries.\<close>

record ('c, 'k, 'j, 'w) recipe_env =
  re_client :: "('c, 'k) transport \<Rightarrow> 'w client"
  re_login_env :: "('c, 'k) transport \<Rightarrow> ('j, 'w) login_env"
  re_browser_env :: "'w browser_env"
  re_decode :: token_decoder
  re_tick :: "'w ticker"

fun to_recipe :: "('c, 'k, 'j, 'w) recipe_env \<Rightarrow> ('c, 'k) built \<Rightarrow> 'w recipe" where
  "to_recipe env (BuiltForm i url user pw sig t) =
     form_recipe (re_client env t) (re_decode env) (re_tick env)
       \<lparr>fp_id = i, fp_login_url = url, fp_username = user, fp_password = pw, fp_user_field = [],
        fp_pass_field = [], fp_signature = sig, fp_client = Some (re_client env t)\<rparr>"
| "to_recipe env (BuiltOAuth i url user pw sig t) =
     oauth_recipe (re_client env t) (re_decode env) (re_tick env)
       \<lparr>oa_id = i, oa_token_url = url, oa_username = user, oa_password = pw, oa_signature = sig,
        oa_client = Some (re_client env t)\<rparr>"
| "to_recipe env (BuiltMultiStep ms t) = multi_recipe (re_login_env env t) ms"
| "to_recipe env (BuiltBrowser br t) = browser_recipe (re_browser_env env) br"

fun built_identity :: "('c, 'k) built \<Rightarrow> string" where
  "built_identity (BuiltForm i url user pw sig t) = i"
| "built_identity (BuiltOAuth i url user pw sig t) = i"
| "built_identity (BuiltMultiStep ms t) = ms_id ms"
| "built_identity (BuiltBrowser br t) = br_id br"

fun built_transport :: "('c, 'k) built \<Rightarrow> ('c, 'k) transport" where
  "built_transport (BuiltForm i url user pw sig t) = t"
| "built_transport (BuiltOAuth i url user pw sig t) = t"
| "built_transport (BuiltMultiStep ms t) = t"
| "built_transport (BuiltBrowser br t) = t"

lemma to_recipe_identity [simp]: "r_identity (to_recipe env b) = built_identity b"
  by (cases b) (simp_all add: form_recipe_def oauth_recipe_def multi_recipe_def browser_recipe_def)

lemma to_recipe_login: "login_recipe (to_recipe env b)"
  by (cases b) (simp_all add: form.login_recipe_axioms oauth.login_recipe_axioms
      multi.login_recipe_axioms browser.login_recipe_axioms)

section \<open>What Recipes builds\<close>

lemma build_recipe_some:
  "build_recipe c insecure client = Inr b \<Longrightarrow> built_identity b = ic_name c \<and> built_transport b = client"
  by (auto simp: build_recipe_def build_multistep_def browser_of_def Let_def
      split: if_splits option.splits sum.splits)

text \<open>The entry of one identity: its name is new and usable, and it was built from its own settings.\<close>

definition built_from ::
  "('c, 'k, 'w) tls_env \<Rightarrow> config \<Rightarrow> identity_config \<Rightarrow> ('c, 'k) built \<Rightarrow> bool" where
  "built_from env cfg c b \<longleftrightarrow>
     build_recipe c (tls_insecure (effective_tls cfg c)) (built_transport b) = Inr b \<and>
     (\<exists>w w'. transport_of env (to_httpx (effective_tls cfg c)) w = (Inr (built_transport b), w'))"

lemma http_client_some:
  "http_client env id cfg w = (Inr t, w') \<Longrightarrow> transport_of env cfg w = (Inr t, w')"
  by (auto simp: http_client_def split: prod.splits sum.splits)

lemma add_identity_some:
  assumes "add_identity env cfg c out w = (Inr out', w')"
  obtains b where "out' = out @ [(ic_name c, b)]" "built_from env cfg c b"
    "ic_name c \<notin> fst ` set out" "ic_name c \<noteq> []" "ic_name c \<noteq> ''anon''"
proof -
  from assms have fresh: "map_of out (ic_name c) = None" "ic_name c \<noteq> []" "ic_name c \<noteq> ''anon''"
    by (auto simp: add_identity_def split: if_splits)
  with assms obtain t w1 b where t: "http_client env id (to_httpx (effective_tls cfg c)) w = (Inr t, w1)"
    and b: "build_recipe c (tls_insecure (effective_tls cfg c)) t = Inr b"
    and out: "out' = AList.update (ic_name c) b out"
    by (auto simp: add_identity_def split: prod.splits sum.splits)
  from fresh(1) have new: "ic_name c \<notin> fst ` set out" by (simp add: map_of_eq_None_iff)
  then have "AList.update (ic_name c) b out = out @ [(ic_name c, b)]"
    by (induction out) auto
  moreover have "built_from env cfg c b"
    using build_recipe_some [OF b] b http_client_some [OF t] by (auto simp: built_from_def)
  ultimately show thesis using that out new fresh by blast
qed

lemma add_identities_some:
  assumes "add_identities env cfg cs out w = (Inr out', w')"
  shows "\<exists>bs. out' = out @ bs \<and> map fst bs = map ic_name cs \<and>
    list_all2 (\<lambda>c p. built_from env cfg c (snd p)) cs bs \<and>
    (distinct (map fst out) \<longrightarrow> distinct (map fst out')) \<and>
    list_all (\<lambda>c. ic_name c \<noteq> [] \<and> ic_name c \<noteq> ''anon'') cs"
  using assms
proof (induction cs arbitrary: out w)
  case (Cons c cs)
  then obtain out1 w1 where step: "add_identity env cfg c out w = (Inr out1, w1)"
    and rest: "add_identities env cfg cs out1 w1 = (Inr out', w')"
    by (auto split: prod.splits sum.splits)
  from add_identity_some [OF step] obtain b where b: "out1 = out @ [(ic_name c, b)]"
    "built_from env cfg c b" "ic_name c \<notin> fst ` set out" "ic_name c \<noteq> []" "ic_name c \<noteq> ''anon''" .
  from Cons.IH [OF rest] obtain bs where bs: "out' = out1 @ bs" "map fst bs = map ic_name cs"
    "list_all2 (\<lambda>c p. built_from env cfg c (snd p)) cs bs"
    "distinct (map fst out1) \<longrightarrow> distinct (map fst out')"
    "list_all (\<lambda>c. ic_name c \<noteq> [] \<and> ic_name c \<noteq> ''anon'') cs" by blast
  from b bs show ?case by (intro exI [of _ "(ic_name c, b) # bs"]) auto
qed simp

end
