(* ===== verification/Config_Properties.thy ===== *)
theory Config_Properties
  imports Config
begin

text \<open>
  What the configuration promises: the identities it admits, the recipes it builds of them, the
  trust their clients get and the resolution of references to the environment.
\<close>

section \<open>Sample configuration\<close>

definition sample_tls_env :: "(string, string, nat) tls_env" where
  "sample_tls_env =
     \<lparr>te_system_pool = Some [''os''], te_read_file = (\<lambda>f w. (Inr f, Suc w)),
      te_certs_of_pem = (\<lambda>pem. [pem]), te_load_key_pair = (\<lambda>c k w. (Inr (c @ k), Suc w))\<rparr>"

definition plain_tls :: tls_settings where
  "plain_tls = \<lparr>tls_insecure = False, tls_ca_cert = [], tls_client_cert = [], tls_client_key = []\<rparr>"

definition sample_identity :: "string \<Rightarrow> string \<Rightarrow> identity_config" where
  "sample_identity i ty =
     \<lparr>ic_name = i, ic_type = ty, ic_login_url = ''http://target/login'',
      ic_token_url = ''https://idp/token'', ic_username = i, ic_password = ''pw'',
      ic_password_file = [], ic_password_command = [],
      ic_tls = (if ty = ''browser'' then Some (plain_tls\<lparr>tls_insecure := True\<rparr>) else None),
      ic_logout = \<lparr>lc_status_codes = [401], lc_location_contains = [], lc_body_contains = []\<rparr>,
      ic_steps = [], ic_capture = None, ic_csrf = None, ic_username_selector = ''#u'',
      ic_password_selector = ''#p'', ic_submit_selector = ''#s'', ic_success_url_contains = ''/home'',
      ic_success_selector = [], ic_headful = False\<rparr>"

definition sample_config :: config where
  "sample_config =
     \<lparr>cfg_target = ''http://target'', cfg_tls = plain_tls,
      cfg_backoff = \<lparr>bo_max_burst = 0, bo_window = 0\<rparr>,
      cfg_identities = [sample_identity ''ada'' ''oauth'', sample_identity ''bob'' ''browser'']\<rparr>"

lemma sample_recipes: "\<exists>out. config_recipes sample_tls_env sample_config 0 = (Inr out, 0)"
  by (rule ran_to; code_simp)

lemma sample_names: "map ic_name (cfg_identities sample_config) = [''ada'', ''bob'']"
  by (simp add: sample_config_def sample_identity_def)

section \<open>Names\<close>

lemma config_recipes_some:
  assumes "config_recipes env cfg w = (Inr out, w')"
  shows "map fst out = map ic_name (cfg_identities cfg)"
    "list_all2 (\<lambda>c p. built_from env cfg c (snd p)) (cfg_identities cfg) out"
    "distinct (map fst out)"
    "list_all (\<lambda>c. ic_name c \<noteq> [] \<and> ic_name c \<noteq> ''anon'') (cfg_identities cfg)"
  using add_identities_some [OF assms [unfolded config_recipes_def]] by auto

lemma built_from_identity: "built_from env cfg c b \<Longrightarrow> built_identity b = ic_name c"
  by (auto simp: built_from_def dest: build_recipe_some)

text \<open>C18: Of a configuration that is accepted, each identity has exactly one recipe under its own
  name, in order; no name is used twice, none is blank and none is the name \<open>anon\<close> that
  stands for the unauthenticated baseline.\<close>

theorem config_names_distinct:
  assumes "config_recipes env cfg w = (Inr out, w')"
  shows "map fst out = map ic_name (cfg_identities cfg) \<and> distinct (map fst out) \<and>
    map (\<lambda>p. built_identity (snd p)) out = map fst out \<and> [] \<notin> fst ` set out \<and>
    ''anon'' \<notin> fst ` set out"
proof -
  note some = config_recipes_some [OF assms]
  have "map (\<lambda>p. built_identity (snd p)) out = map ic_name (cfg_identities cfg)"
    using some(2) by (induction rule: list_all2_induct) (auto dest: built_from_identity)
  moreover have "fst ` set out = ic_name ` set (cfg_identities cfg)"
    using some(1) by (metis image_set)
  ultimately show ?thesis using some by (auto simp: list_all_iff)
qed

theorem config_names_distinct_witness:
  "\<exists>out. config_recipes sample_tls_env sample_config 0 = (Inr out, 0) \<and>
     map fst out = [''ada'', ''bob''] \<and> map (\<lambda>p. built_identity (snd p)) out = [''ada'', ''bob'']"
proof -
  obtain out where out: "config_recipes sample_tls_env sample_config 0 = (Inr out, 0)"
    using sample_recipes by blast
  from config_names_distinct [OF out] have "map fst out = [''ada'', ''bob'']"
    and "map (\<lambda>p. built_identity (snd p)) out = map fst out"
    unfolding sample_names by blast+
  with out show ?thesis by metis
qed

section \<open>What is built of an identity\<close>

text \<open>The URLs of a recipe that are known before it runs.\<close>

fun built_endpoints :: "('c, 'k) built \<Rightarrow> string list" where
  "built_endpoints (BuiltForm i url user pw sig t) = [url]"
| "built_endpoints (BuiltOAuth i url user pw sig t) = [url]"
| "built_endpoints (BuiltMultiStep ms t) = filter (\<lambda>u. \<not> contains u ''{{'') (map ls_url (ms_steps ms))"
| "built_endpoints (BuiltBrowser br t) = [br_login_url br]"

fun built_password :: "('c, 'k) built \<Rightarrow> string" where
  "built_password (BuiltForm i url user pw sig t) = pw"
| "built_password (BuiltOAuth i url user pw sig t) = pw"
| "built_password (BuiltMultiStep ms t) = ms_password ms"
| "built_password (BuiltBrowser br t) = br_password br"

lemma valid_endpoint_None: "valid_endpoint name s = None \<longleftrightarrow> absolute_http s"
  by (simp add: valid_endpoint_def)

lemma login_steps_endpoints:
  "login_steps_of name scs = Inr steps \<Longrightarrow> length steps = length scs \<and>
   list_all (\<lambda>s. contains (ls_url s) ''{{'' \<or> absolute_http (ls_url s)) steps"
  by (induction name scs arbitrary: steps rule: login_steps_of.induct)
    (auto simp: Let_def valid_endpoint_None split: if_splits option.splits sum.splits)

lemma build_recipe_endpoints:
  assumes "build_recipe c insecure client = Inr b"
  shows "list_all absolute_http (built_endpoints b) \<and> built_password b = ic_password c"
  using assms
  by (auto simp: build_recipe_def build_multistep_def browser_of_def valid_endpoint_None Let_def
      list_all_iff dest!: login_steps_endpoints split: if_splits option.splits sum.splits)

lemma built_from_trust:
  assumes "built_from env cfg c b"
  shows "tr_insecure_skip_verify (built_transport b) = tls_insecure (effective_tls cfg c)"
proof -
  obtain v v' where "transport_of env (to_httpx (effective_tls cfg c)) v = (Inr (built_transport b), v')"
    using assms by (auto simp: built_from_def)
  then show ?thesis by (rule transport_parts) (simp add: to_httpx_def)
qed

text \<open>C17: Each recipe is built of its own identity's settings: it logs in with that identity's
  password, every URL it is going to contact that is not a template is an absolute http or https
  URL, and its client skips the verification of certificates exactly when the identity's own TLS
  settings say so, or the global ones when it has none.\<close>

theorem config_recipe_of_identity:
  assumes "config_recipes env cfg w = (Inr out, w')" and "c \<in> set (cfg_identities cfg)"
  shows "\<exists>b. map_of out (ic_name c) = Some b \<and> built_password b = ic_password c \<and>
    list_all absolute_http (built_endpoints b) \<and>
    tr_insecure_skip_verify (built_transport b) =
      (case ic_tls c of None \<Rightarrow> tls_insecure (cfg_tls cfg) | Some t \<Rightarrow> tls_insecure t)"
proof -
  note some = config_recipes_some [OF assms(1)]
  from assms(2) obtain n where n: "n < length (cfg_identities cfg)" "cfg_identities cfg ! n = c"
    by (auto simp: in_set_conv_nth)
  from list_all2_nthD [OF some(2) n(1)] n have b: "built_from env cfg c (snd (out ! n))" by simp
  have len: "n < length out" using n(1) some(1) by (metis length_map)
  have "fst (out ! n) = ic_name c" using some(1) n len by (metis nth_map)
  with len have "(ic_name c, snd (out ! n)) \<in> set out" by (metis nth_mem prod.collapse)
  with some(3) have "map_of out (ic_name c) = Some (snd (out ! n))" by (simp add: map_of_is_SomeI)
  then show ?thesis
    using b build_recipe_endpoints built_from_trust [OF b]
    by (auto simp: built_from_def effective_tls_def split: option.splits)
qed

theorem config_recipe_of_identity_witness:
  "\<exists>out b. config_recipes sample_tls_env sample_config 0 = (Inr out, 0) \<and>
     map_of out ''bob'' = Some b \<and> tr_insecure_skip_verify (built_transport b)"
proof -
  obtain out where out: "config_recipes sample_tls_env sample_config 0 = (Inr out, 0)"
    using sample_recipes by blast
  have "sample_identity ''bob'' ''browser'' \<in> set (cfg_identities sample_config)"
    by (simp add: sample_config_def)
  from config_recipe_of_identity [OF out this] out show ?thesis
    by (auto simp: sample_identity_def)
qed

section \<open>References to the environment\<close>

lemma env_ref_at:
  assumes "name \<noteq> []" and "name_start (hd name)" and "list_all name_byte name"
  shows "env_ref (''${'' @ name @ ''}'' @ b) = Some (name, b)"
proof -
  have stop: "\<not> name_byte (CHR ''}'')"
    by (simp add: name_byte_def name_start_def is_lower_def is_upper_def is_digit_def byte_def)
  have "takeWhile name_byte (name @ ''}'' @ b) = name" "dropWhile name_byte (name @ ''}'' @ b) = ''}'' @ b"
    using assms(3) stop by (simp_all add: takeWhile_append dropWhile_append list_all_iff)
  with assms(1,2) show ?thesis by (simp add: env_ref_def)
qed

lemma expand_refs_text:
  "CHR ''$'' \<notin> set a \<Longrightarrow> expand_refs look (a @ s) = (let (out, m) = expand_refs look s in (a @ out, m))"
proof (induction a)
  case (Cons c a)
  then have "env_ref ((c # a) @ s) = None" by (auto simp: env_ref_def)
  with Cons show ?case by (subst expand_refs.simps) (simp add: case_prod_beta Let_def)
qed (simp add: case_prod_beta)

text \<open>A reference in a password is replaced by the value of its variable, once: the text
  before it is kept, the value is not searched for further references, and the rest is expanded
  independently.  When the variable is not set, the password is rejected.\<close>

theorem expand_env_reference:
  assumes "CHR ''$'' \<notin> set a" and "name \<noteq> []" and "name_start (hd name)" and "list_all name_byte name"
  shows "expand_env look (a @ ''${'' @ name @ ''}'' @ b) =
    (case (look name, expand_env look b) of
       (_, Inl missing) \<Rightarrow> Inl missing
     | (None, _) \<Rightarrow> Inl name
     | (Some v, Inr b') \<Rightarrow> Inr (a @ v @ b'))"
proof -
  obtain out m where b: "expand_refs look b = (out, m)" by fastforce
  have "expand_refs look (''${'' @ name @ ''}'' @ b)
      = (case look name of Some v \<Rightarrow> (v @ out, m) | None \<Rightarrow> (out, if m = [] then name else m))"
    using env_ref_at [OF assms(2-4)] b by (subst expand_refs.simps) simp
  with expand_refs_text [OF assms(1)] b assms(2) show ?thesis
    by (auto simp: expand_env_def split: option.splits)
qed

theorem expand_env_reference_witness:
  "expand_env (\<lambda>n. if n = ''PW'' then Some ''${X}'' else None) (''a-'' @ ''${'' @ ''PW'' @ ''}'' @ ''!'')
     = Inr ''a-${X}!''"
proof -
  have n: "name_start (hd ''PW'')" "list_all name_byte ''PW''" by code_simp+
  have r: "expand_env (\<lambda>n. if n = ''PW'' then Some ''${X}'' else None) ''!'' = Inr ''!''" by code_simp
  from expand_env_reference [of "''a-''" "''PW''" "\<lambda>n. if n = ''PW'' then Some ''${X}'' else None" "''!''"]
    n r show ?thesis by simp
qed

section \<open>Trust\<close>

text \<open>A transport trusts no more than it was told to: certificates go unverified only when the
  settings ask for it, a CA file adds to the roots of the system and never replaces them, and a
  client certificate is presented exactly when both its files are given.\<close>

theorem transport_trust:
  assumes "transport_of env cfg w = (Inr t, w')" and "te_system_pool env = Some sys"
  shows "tr_insecure_skip_verify t = hx_insecure_skip_verify cfg \<and>
    (case tr_root_cas t of
       None \<Rightarrow> hx_ca_cert_file cfg = []
     | Some roots \<Rightarrow> hx_ca_cert_file cfg \<noteq> [] \<and> (\<exists>extra. extra \<noteq> [] \<and> roots = sys @ extra)) \<and>
    (tr_certificates t = [] \<longleftrightarrow> hx_client_cert_file cfg = []) \<and>
    (hx_client_cert_file cfg = [] \<longleftrightarrow> hx_client_key_file cfg = [])"
proof -
  from assms(1) show ?thesis
  proof (rule transport_parts)
    fix w1
    assume t: "root_pool env (hx_ca_cert_file cfg) w = (Inr (tr_root_cas t), w1)"
      "client_certificates env (hx_client_cert_file cfg) (hx_client_key_file cfg) w1
         = (Inr (tr_certificates t), w')"
      "tr_insecure_skip_verify t = hx_insecure_skip_verify cfg"
    from root_pool_some [OF t(1)] client_certificates_some [OF t(2)] t(3) assms(2)
    show ?thesis by (auto split: option.splits)
  qed
qed

theorem transport_trust_witness:
  "\<exists>t w'. transport_of sample_tls_env (to_httpx (plain_tls\<lparr>tls_ca_cert := ''ca''\<rparr>)) 0 = (Inr t, w') \<and>
     \<not> tr_insecure_skip_verify t \<and> (\<exists>extra. extra \<noteq> [] \<and> tr_root_cas t = Some (''os'' # extra))"
proof -
  let ?cfg = "to_httpx (plain_tls\<lparr>tls_ca_cert := ''ca''\<rparr>)"
  have run: "transport_of sample_tls_env ?cfg 0
      = (Inr \<lparr>tr_insecure_skip_verify = False, tr_root_cas = Some [''os'', ''ca''], tr_certificates = []\<rparr>, 1)"
    by code_simp
  from transport_trust [OF run, of "[''os'']"] run show ?thesis
    by (auto simp: sample_tls_env_def to_httpx_def plain_tls_def)
qed

end
