(* ===== verification/Session_Source.thy ===== *)
theory Session_Source
  imports Store
begin

text \<open>
  The interface \<open>SessionSource\<close> of \<open>internal/replay\<close>: something that hands out a live session for an
  identity.  A source has a state \<open>'s\<close>; \<open>ok\<close> is what must hold of it, \<open>fits\<close> says for which names it
  is used.  The contract: a session that is handed out belongs to the identity that was asked for
  and carries a cookie or a token.  The store is one provider; the control client is the other.
\<close>

type_synonym ('e, 's, 'w) source = "string \<Rightarrow> 's \<Rightarrow> 'w \<Rightarrow> ('e + session) \<times> 's \<times> 'w"

locale session_source =
  fixes get :: "('e, 's, 'w) source"
    and ok :: "'s \<Rightarrow> bool"
    and fits :: "string \<Rightarrow> bool"
  assumes get_keeps: "ok st \<Longrightarrow> get i st w = (x, st', w') \<Longrightarrow> ok st'"
    and get_own: "ok st \<Longrightarrow> fits i \<Longrightarrow> get i st w = (Inr s, st', w') \<Longrightarrow> session_ok i s"

interpretation store_source: session_source "store_get tick" store_ok "\<lambda>_. True" for tick
  by unfold_locales (auto dest: store_get_ok)

end
