(* ===== verification/Go_Time.thy ===== *)
theory Go_Time
  imports Go_Strings
begin

text \<open>
  The RFC 3339 stamps of Go's package \<open>time\<close>: \<open>Format\<close> of an instant in UTC and \<open>Parse\<close>.  The
  calendar is computed by search: the year and the month are the last ones that begin no later than
  the day.  \<open>parse_rfc3339\<close> reads the form that \<open>Format\<close> writes for a time in UTC; a fraction of a
  second or an offset, which the program never writes, is not read.
\<close>

section \<open>The calendar\<close>

text \<open>Days from January 1, year 1 to January 1 of the year \<open>y\<close>.\<close>

definition days_before_year :: "nat \<Rightarrow> nat" where
  "days_before_year y = 365 * (y - 1) + (y - 1) div 4 - (y - 1) div 100 + (y - 1) div 400"

definition is_leap :: "nat \<Rightarrow> bool" where
  "is_leap y \<longleftrightarrow> 4 dvd y \<and> (\<not> 100 dvd y \<or> 400 dvd y)"

definition month_lengths :: "nat \<Rightarrow> nat list" where
  "month_lengths y = [31, if is_leap y then 29 else 28, 31, 30, 31, 30, 31, 31, 30, 31, 30, 31]"

lemma leap_sum:
  fixes n a b c :: nat
  assumes "b \<le> a" and "c \<le> b" and "a \<le> n"
  shows "365 * n \<le> 365 * n + a - b + c" "365 * n + a - b + c \<le> 366 * n"
  using assms by simp_all

lemma leap_sum_Suc:
  fixes n a b c x y v :: nat
  assumes "b \<le> a" and "y \<le> x"
  shows "365 * Suc n + (a + x) - (b + y) + (c + v) = (365 * n + a - b + c) + (365 + x - y + v)"
  using assms by simp

lemma leap_quotients: "n div 100 \<le> n div 4" "n div 400 \<le> n div 100" "n div 4 \<le> (n :: nat)"
  by (rule div_le_mono2; simp)+ (rule div_le_dividend)

lemma days_before_year_ge: "365 * (y - 1) \<le> days_before_year y"
  unfolding days_before_year_def by (rule leap_sum(1) [OF leap_quotients])

lemma days_before_year_less: "days_before_year y \<le> 366 * (y - 1)"
  unfolding days_before_year_def by (rule leap_sum(2) [OF leap_quotients])

text \<open>The search for the year: from a year that has begun, up to the last one that has.\<close>

function year_from :: "nat \<Rightarrow> nat \<Rightarrow> nat" where
  "year_from y d = (if days_before_year (Suc y) \<le> d then year_from (Suc y) d else y)"
  by pat_completeness auto
termination
proof (relation "measure (\<lambda>(y, d). Suc d - y)", simp)
  fix y d
  assume "days_before_year (Suc y) \<le> d"
  with days_before_year_ge [of "Suc y"] have "365 * y \<le> d" by simp
  then have "y \<le> d" by simp
  then show "((Suc y, d), y, d) \<in> measure (\<lambda>(y, d). Suc d - y)" by simp
qed

declare year_from.simps [simp del]

definition year_of_day :: "nat \<Rightarrow> nat" where
  "year_of_day d = year_from (d div 366 + 1) d"

lemma year_from_bounds:
  "days_before_year y \<le> d \<Longrightarrow>
   days_before_year (year_from y d) \<le> d \<and> d < days_before_year (Suc (year_from y d)) \<and> y \<le> year_from y d"
proof (induction y d rule: year_from.induct)
  case (1 y d)
  show ?case
  proof (cases "days_before_year (Suc y) \<le> d")
    case True
    with "1.IH" [OF True True] show ?thesis by (simp add: year_from.simps [of y])
  next
    case False
    with "1.prems" show ?thesis by (simp add: year_from.simps [of y])
  qed
qed

lemma year_of_day_bounds:
  "days_before_year (year_of_day d) \<le> d" "d < days_before_year (Suc (year_of_day d))"
  "1 \<le> year_of_day d"
proof -
  have "days_before_year (d div 366 + 1) \<le> 366 * (d div 366)"
    using days_before_year_less [of "d div 366 + 1"] by simp
  then have start: "days_before_year (d div 366 + 1) \<le> d"
    by (metis le_trans mult.commute div_times_less_eq_dividend)
  from year_from_bounds [OF start]
  show "days_before_year (year_of_day d) \<le> d" "d < days_before_year (Suc (year_of_day d))"
    "1 \<le> year_of_day d"
    by (auto simp: year_of_day_def)
qed

fun month_day :: "nat \<Rightarrow> nat list \<Rightarrow> nat \<Rightarrow> nat \<times> nat" where
  "month_day m [] k = (m, k)"
| "month_day m (l # ls) k = (if k < l then (m, k) else month_day (Suc m) ls (k - l))"

lemma month_day_sum:
  "month_day m ls k = (m', k') \<Longrightarrow>
   m \<le> m' \<and> m' \<le> m + length ls \<and> sum_list (take (m' - m) ls) + k' = k \<and>
   (k < sum_list ls \<longrightarrow> m' < m + length ls \<and> k' < ls ! (m' - m))"
proof (induction m ls k arbitrary: m' k' rule: month_day.induct)
  case (2 m l ls k)
  show ?case
  proof (cases "k < l")
    case False
    with "2.prems" have "month_day (Suc m) ls (k - l) = (m', k')" by simp
    note ih = "2.IH" [OF False this]
    then have "m' - m = Suc (m' - Suc m)" by linarith
    with ih False show ?thesis by auto
  qed (use "2.prems" in auto)
qed auto

section \<open>Decimal fields\<close>

definition digit_char :: "nat \<Rightarrow> char" where
  "digit_char n = char_of (48 + n mod 10)"

fun pad :: "nat \<Rightarrow> nat \<Rightarrow> string" where
  "pad 0 n = []"
| "pad (Suc w) n = pad w (n div 10) @ [digit_char n]"

definition read_digits :: "string \<Rightarrow> nat" where
  "read_digits s = foldl (\<lambda>v c. v * 10 + (byte c - 48)) 0 s"

lemma byte_digit_char: "byte (digit_char n) = 48 + n mod 10"
  by (simp add: digit_char_def byte_char_of)

lemma length_pad [simp]: "length (pad w n) = w"
  by (induction w n rule: pad.induct) auto

lemma pad_digits: "list_all is_digit (pad w n)"
  by (induction w n rule: pad.induct) (auto simp: is_digit_def byte_digit_char)

lemma read_pad: "n < 10 ^ w \<Longrightarrow> read_digits (pad w n) = n"
proof (induction w n rule: pad.induct)
  case (2 w n)
  then have "n div 10 < 10 ^ w" by (simp add: less_mult_imp_div_less mult.commute)
  with 2 show ?case by (simp add: read_digits_def byte_digit_char)
qed (simp add: read_digits_def)

section \<open>Format and Parse\<close>

definition format_year :: "nat \<Rightarrow> string" where
  "format_year y = (if y < 10000 then pad 4 y else pad 5 y)"

text \<open>\<open>t.UTC().Format(time.RFC3339)\<close> of an instant from year 1 on, before year 100000.\<close>

definition format_rfc3339 :: "gtime \<Rightarrow> string" where
  "format_rfc3339 t =
     (let s = nat (t div second); d = s div 86400; r = s mod 86400; y = year_of_day d;
          (m, k) = month_day 1 (month_lengths y) (d - days_before_year y)
      in format_year y @ ''-'' @ pad 2 m @ ''-'' @ pad 2 (k + 1) @ ''T'' @
         pad 2 (r div 3600) @ '':'' @ pad 2 (r div 60 mod 60) @ '':'' @ pad 2 (r mod 60) @ ''Z'')"

definition take_field :: "nat \<Rightarrow> char \<Rightarrow> string \<Rightarrow> (nat \<times> string) option" where
  "take_field w sep s =
     (if list_all is_digit (take w s) \<and> w < length s \<and> s ! w = sep
      then Some (read_digits (take w s), drop (Suc w) s) else None)"

fun take_fields :: "(nat \<times> char) list \<Rightarrow> string \<Rightarrow> nat list option" where
  "take_fields [] s = (if s = [] then Some [] else None)"
| "take_fields ((w, sep) # fs) s =
     (case take_field w sep s of
        None \<Rightarrow> None
      | Some (n, r) \<Rightarrow> map_option (Cons n) (take_fields fs r))"

definition rfc3339_layout :: "(nat \<times> char) list" where
  "rfc3339_layout = [(4, CHR ''-''), (2, CHR ''-''), (2, CHR ''T''), (2, CHR '':''), (2, CHR '':''), (2, CHR ''Z'')]"

definition parse_rfc3339 :: "string \<Rightarrow> gtime option" where
  "parse_rfc3339 s =
     (case take_fields rfc3339_layout s of
        Some [y, m, d, hh, mm, ss] \<Rightarrow>
          if 1 \<le> y \<and> 1 \<le> m \<and> m \<le> 12 \<and> 1 \<le> d \<and> d \<le> month_lengths y ! (m - 1)
             \<and> hh < 24 \<and> mm < 60 \<and> ss < 60
          then Some (int (((days_before_year y + sum_list (take (m - 1) (month_lengths y)) + (d - 1)) * 86400
                           + hh * 3600 + mm * 60 + ss)) * second)
          else None
      | _ \<Rightarrow> None)"

lemma take_field_pad:
  "n < 10 ^ w \<Longrightarrow> take_field w sep (pad w n @ sep # r) = Some (n, r)"
  by (simp add: take_field_def pad_digits read_pad nth_append)

lemma year_length: "days_before_year (Suc y) = days_before_year y + sum_list (month_lengths y)"
  if "1 \<le> y"
proof -
  obtain z where z: "y = Suc z" using \<open>1 \<le> y\<close> by (cases y) auto
  have d4: "Suc z div 4 = z div 4 + (if 4 dvd Suc z then 1 else 0)"
    and d100: "Suc z div 100 = z div 100 + (if 100 dvd Suc z then 1 else 0)"
    and d400: "Suc z div 400 = z div 400 + (if 400 dvd Suc z then 1 else 0)"
    by (simp_all add: div_Suc dvd_eq_mod_eq_0)
  let ?x = "if 4 dvd Suc z then 1 else 0 :: nat" and ?y = "if 100 dvd Suc z then 1 else 0 :: nat"
  let ?v = "if 400 dvd Suc z then 1 else 0 :: nat"
  have i: "400 dvd Suc z \<Longrightarrow> 100 dvd Suc z" "100 dvd Suc z \<Longrightarrow> 4 dvd Suc z"
    by (auto elim: dvd_trans [rotated])
  then have "?y \<le> ?x" by simp
  from leap_sum_Suc [OF leap_quotients(1) this, of z z "z div 400" ?v]
  have "days_before_year (Suc y) = days_before_year y + (365 + ?x - ?y + ?v)"
    unfolding days_before_year_def z diff_Suc_1 d4 d100 d400 .
  moreover have "sum_list (month_lengths y) = 365 + ?x - ?y + ?v"
    using i by (auto simp: z month_lengths_def is_leap_def)
  ultimately show ?thesis by simp
qed

lemma take_fields_pad:
  assumes "list_all2 (\<lambda>n (w, sep). n < 10 ^ w) ns fs"
  shows "take_fields fs (concat (map2 (\<lambda>n (w, sep). pad w n @ [sep]) ns fs)) = Some ns"
  using assms
proof (induction rule: list_all2_induct)
  case (Cons n ns f fs)
  obtain w sep where f: "f = (w, sep)" by (cases f)
  from Cons take_field_pad [of n w sep] show ?case by (simp add: f)
qed simp

lemma month_of_day:
  assumes "month_day 1 (month_lengths y) k = (m, j)" and "k < sum_list (month_lengths y)"
  shows "1 \<le> m" "m \<le> 12" "j < month_lengths y ! (m - 1)"
    "sum_list (take (m - 1) (month_lengths y)) + j = k" "j < 31"
proof -
  note s = month_day_sum [OF assms(1)]
  from s assms(2) have m: "1 \<le> m" "m < 13" by (auto simp: month_lengths_def)
  then show "1 \<le> m" "m \<le> 12" by auto
  from s assms(2) show j: "j < month_lengths y ! (m - 1)" by simp
  from s show "sum_list (take (m - 1) (month_lengths y)) + j = k" by simp
  have "month_lengths y ! (m - 1) \<in> set (month_lengths y)"
    using m by (intro nth_mem) (auto simp: month_lengths_def)
  then have "month_lengths y ! (m - 1) \<le> 31" by (auto simp: month_lengths_def split: if_splits)
  with j show "j < 31" by simp
qed

text \<open>An instant in the years 1 to 9999 is read back to the second.\<close>

lemma parse_format:
  assumes "0 \<le> t" and "year_of_day (nat (t div second) div 86400) < 10000"
  shows "parse_rfc3339 (format_rfc3339 t) = Some ((t div second) * second)"
proof -
  define s where "s = nat (t div second)"
  define d where "d = s div 86400"
  define r where "r = s mod 86400"
  define y where "y = year_of_day d"
  obtain m k where mk: "month_day 1 (month_lengths y) (d - days_before_year y) = (m, k)" by fastforce
  have y: "days_before_year y \<le> d" "d < days_before_year (Suc y)" "1 \<le> y" "y < 10000"
    using year_of_day_bounds [of d] assms(2) by (auto simp: y_def d_def s_def)
  have "d - days_before_year y < sum_list (month_lengths y)"
    using y(1,2) year_length [OF y(3)] by linarith
  note m = month_of_day [OF mk this]
  have r: "r div 3600 < 24" "r div 60 mod 60 < 60" "r mod 60 < 60"
    by (simp_all add: r_def less_mult_imp_div_less)
  then have small: "r div 3600 < 100" "r div 60 mod 60 < 100" "r mod 60 < 100" by linarith+
  have fields: "list_all2 (\<lambda>n (w, sep). n < 10 ^ w)
      [y, m, k + 1, r div 3600, r div 60 mod 60, r mod 60] rfc3339_layout"
    using y(4) m small by (simp add: rfc3339_layout_def)
  have "format_rfc3339 t = concat (map2 (\<lambda>n (w, sep). pad w n @ [sep])
      [y, m, k + 1, r div 3600, r div 60 mod 60, r mod 60] rfc3339_layout)"
    using mk y(4) by (simp add: format_rfc3339_def Let_def rfc3339_layout_def format_year_def
        flip: s_def d_def r_def y_def)
  with take_fields_pad [OF fields]
  have "take_fields rfc3339_layout (format_rfc3339 t)
      = Some [y, m, k + 1, r div 3600, r div 60 mod 60, r mod 60]" by simp
  moreover have "days_before_year y + sum_list (take (m - 1) (month_lengths y)) + (k + 1 - 1) = d"
    using m(4) y(1) by linarith
  moreover have "d * 86400 + r div 3600 * 3600 + (r div 60 mod 60) * 60 + r mod 60 = s"
  proof -
    have "r div 3600 = r div 60 div 60" by (simp add: div_mult2_eq [symmetric])
    then have "r div 3600 * 60 + r div 60 mod 60 = r div 60" by simp
    then have "r div 3600 * 3600 + (r div 60 mod 60) * 60 + r mod 60 = r div 60 * 60 + r mod 60"
      by linarith
    then have "r div 3600 * 3600 + (r div 60 mod 60) * 60 + r mod 60 = r" by simp
    moreover have "d * 86400 + r = s" by (simp add: r_def d_def)
    ultimately show ?thesis by linarith
  qed
  moreover have "int s = t div second" using assms(1) by (simp add: s_def)
  ultimately show ?thesis
    using y(3) m r unfolding parse_rfc3339_def by simp
qed

end
