(* ===== verification/Control.thy ===== *)
theory Control
  imports Session_Source Go_Values Go_Json Go_Time
begin

unbundle bit_operations_syntax

text \<open>
  Component \<open>internal/control\<close> (\<open>server.go\<close>, \<open>client.go\<close>): the control plane between the
  daemon and the commands that attach to it.  The server is its two handlers behind the routing of
  \<open>http.ServeMux\<close>; the client is a function of what a GET of a path yields over the socket
  (\<open>channel\<close>), and \<open>daemon_channel\<close> is that channel when the server at its other end is this one.

  A JSON body is a value of \<open>json\<close>.  The text of an error is the parameter \<open>show_err\<close>.
\<close>

section \<open>Wire types\<close>

record wire_cookie =
  wk_name :: string
  wk_value :: string

record creds_response =
  cr_identity :: string
  cr_bearer_token :: string
  cr_cookies :: "wire_cookie list"
  cr_csrf :: string
  cr_headers :: header

record identity_status =
  is_name :: string
  is_established :: bool
  is_expires_at :: string
  is_last_refresh :: string
  is_last_error :: string

text \<open>The fields of the two structures as JSON, with their \<open>omitempty\<close>.\<close>

definition cookie_json :: "wire_cookie \<Rightarrow> json" where
  "cookie_json c = JObj [(''name'', jstring (wk_name c)), (''value'', jstring (wk_value c))]"

definition creds_json :: "creds_response \<Rightarrow> json" where
  "creds_json c =
     JObj ([(''identity'', jstring (cr_identity c)), (''bearer_token'', jstring (cr_bearer_token c)),
            (''cookies'', JArr (map cookie_json (cr_cookies c)))]
           @ optional_field ''csrf'' (cr_csrf c \<noteq> []) (jstring (cr_csrf c))
           @ optional_field ''headers'' (cr_headers c \<noteq> [])
               (JObj (map (\<lambda>(k, vs). (to_valid_utf8 k, JArr (map jstring vs))) (cr_headers c))))"

definition status_json :: "identity_status \<Rightarrow> json" where
  "status_json s =
     JObj ([(''name'', jstring (is_name s)), (''established'', JBool (is_established s))]
           @ optional_field ''expires_at'' (is_expires_at s \<noteq> []) (jstring (is_expires_at s))
           @ optional_field ''last_refresh'' (is_last_refresh s \<noteq> []) (jstring (is_last_refresh s))
           @ optional_field ''last_error'' (is_last_error s \<noteq> []) (jstring (is_last_error s)))"

text \<open>Decoding; \<open>None\<close> is a value of the wrong type.\<close>

definition read_cookie :: "json \<Rightarrow> wire_cookie option" where
  "read_cookie v =
     (case v of
        JObj m \<Rightarrow>
          (case (read_string (field m ''name''), read_string (field m ''value'')) of
             (Some n, Some x) \<Rightarrow> Some \<lparr>wk_name = n, wk_value = x\<rparr> | _ \<Rightarrow> None)
      | JNull \<Rightarrow> Some \<lparr>wk_name = [], wk_value = []\<rparr>
      | _ \<Rightarrow> None)"

definition read_header :: "json \<Rightarrow> header option" where
  "read_header v =
     (case v of
        JObj m \<Rightarrow>
          (if \<forall>p \<in> set m. read_list read_string (snd p) \<noteq> None
           then Some (map (\<lambda>(k, x). (k, the (read_list read_string x))) m) else None)
      | JNull \<Rightarrow> Some []
      | _ \<Rightarrow> None)"

definition read_creds :: "json \<Rightarrow> creds_response option" where
  "read_creds v =
     (case v of
        JObj m \<Rightarrow>
          (case (read_string (field m ''identity''), read_string (field m ''bearer_token''),
                 read_list read_cookie (field m ''cookies''), read_string (field m ''csrf''),
                 read_header (field m ''headers'')) of
             (Some i, Some b, Some cs, Some x, Some h) \<Rightarrow>
               Some \<lparr>cr_identity = i, cr_bearer_token = b, cr_cookies = cs, cr_csrf = x, cr_headers = h\<rparr>
           | _ \<Rightarrow> None)
      | JNull \<Rightarrow> Some \<lparr>cr_identity = [], cr_bearer_token = [], cr_cookies = [], cr_csrf = [], cr_headers = []\<rparr>
      | _ \<Rightarrow> None)"

definition read_identity_status :: "json \<Rightarrow> identity_status option" where
  "read_identity_status v =
     (case v of
        JObj m \<Rightarrow>
          (case (read_string (field m ''name''), read_bool (field m ''established''),
                 read_string (field m ''expires_at''), read_string (field m ''last_refresh''),
                 read_string (field m ''last_error'')) of
             (Some n, Some b, Some e, Some r, Some l) \<Rightarrow>
               Some \<lparr>is_name = n, is_established = b, is_expires_at = e, is_last_refresh = r,
                     is_last_error = l\<rparr>
           | _ \<Rightarrow> None)
      | JNull \<Rightarrow> Some \<lparr>is_name = [], is_established = False, is_expires_at = [], is_last_refresh = [],
                     is_last_error = []\<rparr>
      | _ \<Rightarrow> None)"

definition read_status :: "json \<Rightarrow> identity_status list option" where
  "read_status v =
     (case v of
        JObj m \<Rightarrow> read_list read_identity_status (field m ''identities'')
      | JNull \<Rightarrow> Some []
      | _ \<Rightarrow> None)"

section \<open>Server\<close>

datatype ctl_reply =
    CtlJson json
  | CtlError int string
  | CtlRedirect string

definition creds_of_session :: "session \<Rightarrow> creds_response" where
  "creds_of_session s =
     \<lparr>cr_identity = s_identity s, cr_bearer_token = s_bearer s,
      cr_cookies = map (\<lambda>c. \<lparr>wk_name = c_name c, wk_value = c_value c\<rparr>) (s_cookies s),
      cr_csrf = s_csrf s, cr_headers = s_headers s\<rparr>"

definition creds_handler ::
  "'w ticker \<Rightarrow> (gerror \<Rightarrow> string) \<Rightarrow> string \<Rightarrow> 'w store \<Rightarrow> 'w \<Rightarrow> ctl_reply \<times> 'w store \<times> 'w" where
  "creds_handler tick show_err path st w =
     (let i = trim_prefix path ''/creds/'' in
      if i = [] then (CtlError 400 ''identity required'', st, w)
      else
        (case store_get tick i st w of
           (Inl err, st', w') \<Rightarrow>
             (if is_unknown_identity err then (CtlError 404 (show_err err), st', w')
              else (CtlError 502 (show_err err), st', w'))
         | (Inr s, st', w') \<Rightarrow> (CtlJson (creds_json (creds_of_session s)), st', w')))"

definition status_of :: "(gerror \<Rightarrow> string) \<Rightarrow> identity_health \<Rightarrow> identity_status" where
  "status_of show_err h =
     \<lparr>is_name = h_name h, is_established = h_established h,
      is_expires_at = (if time_is_zero (h_expires_at h) then [] else format_rfc3339 (h_expires_at h)),
      is_last_refresh =
        (if time_is_zero (h_last_refresh h) then [] else format_rfc3339 (h_last_refresh h)),
      is_last_error = (case h_last_error h of None \<Rightarrow> [] | Some err \<Rightarrow> show_err err)\<rparr>"

definition status_handler :: "(gerror \<Rightarrow> string) \<Rightarrow> 'w store \<Rightarrow> ctl_reply" where
  "status_handler show_err st =
     CtlJson (JObj [(''identities'', JArr (map (\<lambda>h. status_json (status_of show_err h)) (health st)))])"

text \<open>
  \<open>http.ServeMux\<close>: a path that is not clean, and \<open>/creds\<close> itself, are redirected; the two
  registered patterns are served, every other path is not found.
\<close>

fun clean_elems :: "string list \<Rightarrow> string list \<Rightarrow> string list" where
  "clean_elems acc [] = rev acc"
| "clean_elems acc (e # es) =
     (if e = [] \<or> e = ''.'' then clean_elems acc es
      else if e = ''..'' then clean_elems (case acc of [] \<Rightarrow> [] | _ # a \<Rightarrow> a) es
      else clean_elems (e # acc) es)"

definition clean_path :: "string \<Rightarrow> string" where
  "clean_path p =
     (let q = (if prefix ''/'' p then p else ''/'' @ p);
          np = ''/'' @ join_with (CHR ''/'') (clean_elems [] (split_on (CHR ''/'') q))
      in if p = [] then ''/''
         else if last p = CHR ''/'' \<and> np \<noteq> ''/'' then np @ ''/'' else np)"

definition new_server ::
  "'w ticker \<Rightarrow> (gerror \<Rightarrow> string) \<Rightarrow> string \<Rightarrow> 'w store \<Rightarrow> 'w \<Rightarrow> ctl_reply \<times> 'w store \<times> 'w" where
  "new_server tick show_err path st w =
     (let p = clean_path path in
      if p = ''/creds'' then (CtlRedirect ''/creds/'', st, w)
      else if p \<noteq> path then (CtlRedirect p, st, w)
      else if prefix ''/creds/'' p then creds_handler tick show_err p st w
      else if p = ''/status'' then (status_handler show_err st, st, w)
      else (CtlError 404 ''404 page not found'', st, w))"

section \<open>Client\<close>

type_synonym ('s, 'w) channel = "string \<Rightarrow> 's \<Rightarrow> 'w \<Rightarrow> (gerror + ctl_reply) \<times> 's \<times> 'w"

definition daemon_channel :: "'w ticker \<Rightarrow> (gerror \<Rightarrow> string) \<Rightarrow> ('w store, 'w) channel" where
  "daemon_channel tick show_err path st w =
     (case new_server tick show_err path st w of (r, st', w') \<Rightarrow> (Inr r, st', w'))"

text \<open>\<open>http.Client.Do\<close> of a GET: up to ten redirects are followed.\<close>

fun follow :: "nat \<Rightarrow> ('s, 'w) channel \<Rightarrow> string \<Rightarrow> 's \<Rightarrow> 'w \<Rightarrow> (gerror + ctl_reply) \<times> 's \<times> 'w" where
  "follow n ch path s w =
     (case ch path s w of
        (Inr (CtlRedirect p), s', w') \<Rightarrow>
          (case n of
             0 \<Rightarrow> (Inl (LibError ''stopped after 10 redirects''), s', w')
           | Suc k \<Rightarrow> follow k ch p s' w')
      | r \<Rightarrow> r)"

declare follow.simps [simp del]

definition client_get ::
  "('s, 'w) channel \<Rightarrow> string \<Rightarrow> 's \<Rightarrow> 'w \<Rightarrow> (gerror + ctl_reply) \<times> 's \<times> 'w" where
  "client_get ch path s w =
     (case new_request ''GET'' (''http://claviger'' @ path) [] of
        Inl err \<Rightarrow> (Inl err, s, w)
      | Inr req \<Rightarrow> follow 10 ch (u_path (rq_url req)) s w)"

datatype client_error =
    ClientTransport gerror
  | CredsStatus string int
  | StatusStatus int
  | ClientDecode

text \<open>\<open>SocketExists\<close>: the mode that \<open>os.Stat\<close> reports has the bit \<open>os.ModeSocket\<close>.\<close>

definition mode_socket :: "32 word" where
  "mode_socket = push_bit 24 1"

definition socket_exists :: "(string \<Rightarrow> 'w \<Rightarrow> gerror + 32 word) \<Rightarrow> string \<Rightarrow> 'w \<Rightarrow> bool" where
  "socket_exists stat path w =
     (case stat path w of Inl _ \<Rightarrow> False | Inr mode \<Rightarrow> mode AND mode_socket \<noteq> 0)"

definition session_of_creds :: "creds_response \<Rightarrow> session" where
  "session_of_creds cr =
     empty_session\<lparr>s_identity := cr_identity cr, s_bearer := cr_bearer_token cr, s_csrf := cr_csrf cr,
       s_headers := cr_headers cr,
       s_cookies := map (\<lambda>c. \<lparr>c_name = wk_name c, c_value = wk_value c, c_domain = [], c_path = []\<rparr>)
                      (cr_cookies cr)\<rparr>"

definition client_creds ::
  "('s, 'w) channel \<Rightarrow> string \<Rightarrow> 's \<Rightarrow> 'w \<Rightarrow> (client_error + session) \<times> 's \<times> 'w" where
  "client_creds ch i s w =
     (case client_get ch (''/creds/'' @ escape i EncodePathSegment) s w of
        (Inl err, s', w') \<Rightarrow> (Inl (ClientTransport err), s', w')
      | (Inr (CtlJson v), s', w') \<Rightarrow>
          (case read_creds v of
             None \<Rightarrow> (Inl ClientDecode, s', w')
           | Some cr \<Rightarrow> (Inr (session_of_creds cr), s', w'))
      | (Inr (CtlError n _), s', w') \<Rightarrow> (Inl (CredsStatus i n), s', w')
      | (Inr (CtlRedirect _), s', w') \<Rightarrow> (Inl (CredsStatus i 301), s', w'))"

definition client_status ::
  "('s, 'w) channel \<Rightarrow> 's \<Rightarrow> 'w \<Rightarrow> (client_error + identity_status list) \<times> 's \<times> 'w" where
  "client_status ch s w =
     (case client_get ch ''/status'' s w of
        (Inl err, s', w') \<Rightarrow> (Inl (ClientTransport err), s', w')
      | (Inr (CtlJson v), s', w') \<Rightarrow>
          (case read_status v of None \<Rightarrow> (Inl ClientDecode, s', w') | Some l \<Rightarrow> (Inr l, s', w'))
      | (Inr (CtlError n _), s', w') \<Rightarrow> (Inl (StatusStatus n), s', w')
      | (Inr (CtlRedirect _), s', w') \<Rightarrow> (Inl (StatusStatus 301), s', w'))"

section \<open>The wire loses nothing that is injected\<close>

definition sent_cookie :: "wire_cookie \<Rightarrow> wire_cookie" where
  "sent_cookie c = \<lparr>wk_name = to_valid_utf8 (wk_name c), wk_value = to_valid_utf8 (wk_value c)\<rparr>"

text \<open>What is read is what was written, with its strings made valid UTF-8.\<close>

definition sent_creds :: "creds_response \<Rightarrow> creds_response" where
  "sent_creds c =
     \<lparr>cr_identity = to_valid_utf8 (cr_identity c), cr_bearer_token = to_valid_utf8 (cr_bearer_token c),
      cr_cookies = map sent_cookie (cr_cookies c), cr_csrf = to_valid_utf8 (cr_csrf c), cr_headers = []\<rparr>"

lemma read_creds_json: "cr_headers c = [] \<Longrightarrow> read_creds (creds_json c) = Some (sent_creds c)"
proof -
  assume h: "cr_headers c = []"
  have cookies: "read_list read_cookie (JArr (map cookie_json (cr_cookies c)))
      = Some (map sent_cookie (cr_cookies c))"
    by (rule read_list_map) (simp add: read_cookie_def cookie_json_def field_def sent_cookie_def jstring_def)
  show "read_creds (creds_json c) = Some (sent_creds c)"
    using h cookies
    by (cases "cr_csrf c = []")
      (simp_all add: read_creds_def creds_json_def field_def optional_field_def read_header_def
        sent_creds_def jstring_def)
qed

definition valid_creds :: "creds_response \<Rightarrow> bool" where
  "valid_creds c \<longleftrightarrow> valid_utf8 (cr_identity c) \<and> valid_utf8 (cr_bearer_token c) \<and> valid_utf8 (cr_csrf c)
     \<and> (\<forall>k \<in> set (cr_cookies c). valid_utf8 (wk_name k) \<and> valid_utf8 (wk_value k))"

lemma sent_creds_valid: "valid_creds c \<Longrightarrow> cr_headers c = [] \<Longrightarrow> sent_creds c = c"
  by (cases c) (simp add: valid_creds_def sent_creds_def sent_cookie_def to_valid_utf8_id map_idI)

lemma read_identity_status_json:
  assumes "valid_utf8 (is_name s)" "valid_utf8 (is_expires_at s)" "valid_utf8 (is_last_refresh s)"
    "valid_utf8 (is_last_error s)"
  shows "read_identity_status (status_json s) = Some s"
  using assms
  by (cases "is_expires_at s = []"; cases "is_last_refresh s = []"; cases "is_last_error s = []")
    (simp_all add: read_identity_status_def status_json_def field_def optional_field_def)

lemma apply_session_of_creds:
  "apply_header (session_of_creds (creds_of_session s)) h = apply_header s h"
proof -
  have "cookie_pair \<lparr>c_name = c_name c, c_value = c_value c, c_domain = [], c_path = []\<rparr> = cookie_pair c" for c
    by (simp add: cookie_pair_def)
  then have "foldl add_cookie h (map (\<lambda>c. \<lparr>c_name = c_name c, c_value = c_value c, c_domain = [], c_path = []\<rparr>) cs)
      = foldl add_cookie h cs" for h and cs :: "cookie list"
    by (induction cs arbitrary: h) (simp_all add: add_cookie_def)
  then show ?thesis
    by (simp add: apply_header_def session_of_creds_def creds_of_session_def empty_session_def comp_def Let_def)
qed

section \<open>Routing\<close>

definition plain_name :: "string \<Rightarrow> bool" where
  "plain_name i \<longleftrightarrow> i \<noteq> [] \<and> CHR ''/'' \<notin> set i \<and> i \<noteq> ''.'' \<and> i \<noteq> ''..''"

lemma split_creds_path:
  "CHR ''/'' \<notin> set i \<Longrightarrow> split_on (CHR ''/'') (''/creds/'' @ i) = [[], ''creds'', i]"
proof -
  assume i: "CHR ''/'' \<notin> set i"
  have "''/creds/'' @ i = [] @ CHR ''/'' # ''creds'' @ CHR ''/'' # i" by simp
  then show ?thesis using i by (simp add: split_on_plain)
qed

lemma clean_creds_path: "plain_name i \<Longrightarrow> clean_path (''/creds/'' @ i) = ''/creds/'' @ i"
proof -
  assume i: "plain_name i"
  then have "last (''/creds/'' @ i) \<noteq> CHR ''/''"
    by (metis last_appendR last_in_set plain_name_def)
  moreover have "clean_elems [] (split_on (CHR ''/'') (''/creds/'' @ i)) = [''creds'', i]"
    using i split_creds_path [of i] by (simp add: plain_name_def)
  ultimately show ?thesis by (simp add: clean_path_def Let_def)
qed

lemma server_creds:
  "plain_name i \<Longrightarrow> new_server tick show_err (''/creds/'' @ i) st w
     = creds_handler tick show_err (''/creds/'' @ i) st w"
  using clean_creds_path [of i] by (simp add: new_server_def Let_def plain_name_def)

lemma creds_handler_some:
  "plain_name i \<Longrightarrow> store_get tick i st w = (Inr s, st', w') \<Longrightarrow>
   creds_handler tick show_err (''/creds/'' @ i) st w = (CtlJson (creds_json (creds_of_session s)), st', w')"
  by (simp add: creds_handler_def trim_prefix_def plain_name_def)

lemma creds_handler_error:
  "plain_name i \<Longrightarrow> store_get tick i st w = (Inl err, st', w') \<Longrightarrow>
   creds_handler tick show_err (''/creds/'' @ i) st w
     = (CtlError (if is_unknown_identity err then 404 else 502) (show_err err), st', w')"
  by (simp add: creds_handler_def trim_prefix_def plain_name_def)

lemma claviger_host: "plain_host ''claviger''"
  by code_simp

lemma client_request_path:
  assumes p: "valid_encoded p EncodePath" "unescape EncodePath p = Some path" "prefix ''/'' p"
  shows "\<exists>req. new_request ''GET'' (''http://claviger'' @ p) [] = Inr req \<and> u_path (rq_url req) = path"
proof -
  have "url_parse (''http'' @ ''://'' @ ''claviger'' @ p @ query_part []) = Inr (built_url ''http'' ''claviger'' p path [])"
    by (rule url_parse_built [OF _ claviger_host p]) (simp_all add: web_scheme_def plain_query_def has_ctl_byte_def)
  then have u: "url_parse (''http://claviger'' @ p) = Inr (built_url ''http'' ''claviger'' p path [])"
    by (simp add: query_part_def)
  have "valid_method ''GET''" by code_simp
  with u show ?thesis by (simp add: new_request_def built_url_def)
qed

lemma client_get_daemon:
  assumes "valid_encoded p EncodePath" "unescape EncodePath p = Some path" "prefix ''/'' p"
    and "new_server tick show_err path st w = (r, st', w')" and "\<And>q. r \<noteq> CtlRedirect q"
  shows "client_get (daemon_channel tick show_err) p st w = (Inr r, st', w')"
proof -
  obtain req where "new_request ''GET'' (''http://claviger'' @ p) [] = Inr req" "u_path (rq_url req) = path"
    using client_request_path [OF assms(1-3)] by blast
  with assms(4) show ?thesis
    by (cases r) (simp_all add: client_get_def daemon_channel_def follow.simps assms(5))
qed

lemma creds_path_escaped:
  "valid_encoded (''/creds/'' @ escape i EncodePathSegment) EncodePath"
  "unescape EncodePath (''/creds/'' @ escape i EncodePathSegment) = Some (''/creds/'' @ i)"
proof -
  have "valid_encoded ''/creds/'' EncodePath" by code_simp
  then show "valid_encoded (''/creds/'' @ escape i EncodePathSegment) EncodePath"
    using valid_escape_segment by (simp only: valid_encoded_append)
  have "unescape EncodePath ''/creds/'' = Some ''/creds/''" by code_simp
  from unescape_append [OF this]
  show "unescape EncodePath (''/creds/'' @ escape i EncodePathSegment) = Some (''/creds/'' @ i)"
    by (simp only: unescape_path_segment unescape_escape encoding.distinct not_False_eq_True)
qed

lemma client_creds_daemon:
  assumes "plain_name i" and "store_get tick i st w = (x, st', w')"
  shows "client_creds (daemon_channel tick show_err) i st w =
    (case x of
       Inl err \<Rightarrow> (Inl (CredsStatus i (if is_unknown_identity err then 404 else 502)), st', w')
     | Inr s \<Rightarrow>
         (case read_creds (creds_json (creds_of_session s)) of
            None \<Rightarrow> (Inl ClientDecode, st', w')
          | Some cr \<Rightarrow> (Inr (session_of_creds cr), st', w')))"
proof -
  note get = client_get_daemon [OF creds_path_escaped [of i], unfolded server_creds [OF assms(1)], simplified]
  show ?thesis
  proof (cases x)
    case (Inl err)
    note h = creds_handler_error [OF assms(1) assms(2) [unfolded Inl], of show_err]
    from get [simplified, OF h [simplified]] show ?thesis
      by (simp add: client_creds_def Inl)
  next
    case (Inr s)
    note h = creds_handler_some [OF assms(1) assms(2) [unfolded Inr], of show_err]
    from get [simplified, OF h [simplified]] show ?thesis
      by (simp add: client_creds_def Inr)
  qed
qed

section \<open>The client as a session source\<close>

text \<open>The name must survive the wire and the routing of the server.\<close>

definition wire_name :: "string \<Rightarrow> bool" where
  "wire_name i \<longleftrightarrow> plain_name i \<and> valid_utf8 i"

lemma session_of_creds_simps [simp]:
  "s_identity (session_of_creds cr) = cr_identity cr" "s_bearer (session_of_creds cr) = cr_bearer_token cr"
  "s_csrf (session_of_creds cr) = cr_csrf cr" "s_headers (session_of_creds cr) = cr_headers cr"
  "s_cookies (session_of_creds cr) = [] \<longleftrightarrow> cr_cookies cr = []"
  by (simp_all add: session_of_creds_def empty_session_def)

lemma creds_of_session_simps [simp]:
  "cr_identity (creds_of_session s) = s_identity s" "cr_bearer_token (creds_of_session s) = s_bearer s"
  "cr_csrf (creds_of_session s) = s_csrf s" "cr_headers (creds_of_session s) = s_headers s"
  "cr_cookies (creds_of_session s) = [] \<longleftrightarrow> s_cookies s = []"
  by (simp_all add: creds_of_session_def)

lemma client_creds_eq:
  assumes "plain_name i" and "store_ok st"
  shows "client_creds (daemon_channel tick show_err) i st w =
    (case store_get tick i st w of
       (Inl err, st', w') \<Rightarrow> (Inl (CredsStatus i (if is_unknown_identity err then 404 else 502)), st', w')
     | (Inr s, st', w') \<Rightarrow> (Inr (session_of_creds (sent_creds (creds_of_session s))), st', w'))"
proof -
  obtain r st1 w1 where r: "store_get tick i st w = (r, st1, w1)" by (metis prod_cases3)
  note run = client_creds_daemon [OF assms(1) r, of show_err]
  show ?thesis
  proof (cases r)
    case (Inr s)
    with store_get_ok(2) [OF r assms(2)] have "s_headers s = []" by (simp add: session_ok_def)
    with run r Inr show ?thesis by (simp add: read_creds_json)
  qed (use run r in simp)
qed

lemma sent_session_ok:
  "session_ok i s \<Longrightarrow> valid_utf8 i \<Longrightarrow> session_ok i (session_of_creds (sent_creds (creds_of_session s)))"
  by (auto simp: session_ok_def has_material_def sent_creds_def to_valid_utf8_id)

text \<open>
  The source that the command uses for a name that fits, attached to a daemon whose store is the
  state of the source.
\<close>

definition attached_get :: "'w ticker \<Rightarrow> (gerror \<Rightarrow> string) \<Rightarrow> (client_error, 'w store, 'w) source" where
  "attached_get tick show_err = client_creds (daemon_channel tick show_err)"

lemma new_server_ok:
  "new_server tick show_err path st w = (r, st', w') \<Longrightarrow> store_ok st \<Longrightarrow> store_ok st'"
  by (auto simp: new_server_def creds_handler_def Let_def split: if_splits prod.splits sum.splits
      dest: store_get_ok(1))

lemma follow_ok:
  "follow n (daemon_channel tick show_err) path st w = (r, st', w') \<Longrightarrow> store_ok st \<Longrightarrow> store_ok st'"
proof (induction n arbitrary: path st w)
  case 0
  then show ?case
    by (auto simp: daemon_channel_def follow.simps split: prod.splits ctl_reply.splits dest: new_server_ok)
next
  case (Suc n)
  obtain r1 st1 w1 where s: "new_server tick show_err path st w = (r1, st1, w1)" by (metis prod_cases3)
  from Suc.prems s have "store_ok st1" by (blast dest: new_server_ok)
  with Suc.prems(1) s Suc.IH show ?case
    by (cases r1) (auto simp: daemon_channel_def follow.simps [of "Suc n"])
qed

lemma client_get_ok:
  "client_get (daemon_channel tick show_err) p st w = (r, st', w') \<Longrightarrow> store_ok st \<Longrightarrow> store_ok st'"
  unfolding client_get_def by (cases "new_request ''GET'' (''http://claviger'' @ p) []") (auto dest: follow_ok)

lemma client_creds_state:
  assumes "client_creds ch i st w = (x, st', w')"
  shows "\<exists>r. client_get ch (''/creds/'' @ escape i EncodePathSegment) st w = (r, st', w')"
proof -
  obtain r st1 w1 where g: "client_get ch (''/creds/'' @ escape i EncodePathSegment) st w = (r, st1, w1)"
    by (metis prod_cases3)
  have "st1 = st' \<and> w1 = w'"
  proof (cases r)
    case (Inl err)
    with assms g show ?thesis by (simp add: client_creds_def)
  next
    case (Inr rep)
    with assms g show ?thesis
      by (cases rep) (auto simp: client_creds_def split: option.splits)
  qed
  with g show ?thesis by blast
qed

lemma client_creds_ok:
  assumes "client_creds (daemon_channel tick show_err) i st w = (x, st', w')" and "store_ok st"
  shows "store_ok st'"
proof -
  from client_creds_state [OF assms(1)] obtain r where
    "client_get (daemon_channel tick show_err) (''/creds/'' @ escape i EncodePathSegment) st w = (r, st', w')" ..
  from client_get_ok [OF this assms(2)] show ?thesis .
qed

lemma client_creds_own:
  assumes "client_creds (daemon_channel tick show_err) i st w = (Inr s, st', w')"
    and "store_ok st" and "plain_name i"
  obtains v where "store_get tick i st w = (Inr v, st', w')" "session_ok i v"
    "s = session_of_creds (sent_creds (creds_of_session v))"
proof -
  obtain r st1 w1 where r: "store_get tick i st w = (r, st1, w1)" by (metis prod_cases3)
  with assms(1) client_creds_eq [OF assms(3,2)] obtain v where v: "r = Inr v" "st1 = st'" "w1 = w'"
    "s = session_of_creds (sent_creds (creds_of_session v))"
    by (cases r) auto
  with r store_get_ok(2) [OF r assms(2) v(1)] that show thesis by blast
qed

interpretation attached: session_source "attached_get tick show_err" store_ok wire_name
  for tick show_err
proof unfold_locales
  fix st i w x st' w'
  assume "store_ok st" "attached_get tick show_err i st w = (x, st', w')"
  then show "store_ok st'" by (simp add: attached_get_def client_creds_ok)
next
  fix st i w s st' w'
  assume ok: "store_ok st" "wire_name i" and get: "attached_get tick show_err i st w = (Inr s, st', w')"
  from get have run: "client_creds (daemon_channel tick show_err) i st w = (Inr s, st', w')"
    by (simp add: attached_get_def)
  from ok(2) have "plain_name i" by (simp add: wire_name_def)
  from client_creds_own [OF run ok(1) this] obtain v where "session_ok i v"
    "s = session_of_creds (sent_creds (creds_of_session v))" .
  with sent_session_ok ok(2) show "session_ok i s" by (simp add: wire_name_def)
qed

end
