(* ===== verification/Corpus.thy ===== *)
theory Corpus
  imports Go_Http "HOL-Library.Product_Lexorder" "HOL-Library.Multiset"
begin

text \<open>
  Component \<open>internal/corpus\<close> (\<open>corpus.go\<close>, \<open>har.go\<close>, \<open>openapi.go\<close>): the requests to replay, read
  from a plain list, a HAR export or an OpenAPI document.  The two decoders are parameters that give
  the structure the code decodes into; the map of an OpenAPI document is a list in the order in
  which Go happens to visit it.
\<close>

record corpus_request =
  q_method :: string
  q_path :: string
  q_header :: header
  q_body :: string

datatype corpus_error =
    ReadCorpus gerror
  | UnknownFormat string
  | BadLine nat string
  | BadPath nat string
  | LineTooLong
  | DecodeCorpus gerror
  | BadHarUrl gerror

section \<open>The requests file\<close>

text \<open>
  \<open>bufio.Scanner\<close> with \<open>ScanLines\<close>: lines end at a newline, one carriage return before it is
  dropped, the empty rest after the last newline is no line, and a line of 65536 bytes or more stops
  the scan with an error.
\<close>

definition scan_lines :: "string \<Rightarrow> string list" where
  "scan_lines s =
     (let ls = split_on (CHR 0x0A) s in if last ls = [] then butlast ls else ls)"

definition drop_cr :: "string \<Rightarrow> string" where
  "drop_cr s = (if s \<noteq> [] \<and> last s = CHR 0x0D then butlast s else s)"

definition request_line :: "nat \<Rightarrow> string \<Rightarrow> corpus_error + corpus_request option" where
  "request_line n raw =
     (let text = trim_space (drop_cr raw) in
      if text = [] \<or> has_prefix text ''#'' then Inr None
      else
        (case Go_Strings.fields text of
           [m, p] \<Rightarrow>
             (if \<not> has_prefix p ''/'' then Inl (BadPath n p)
              else Inr (Some \<lparr>q_method = to_upper m, q_path = p, q_header = [], q_body = []\<rparr>))
         | _ \<Rightarrow> Inl (BadLine n text)))"

fun request_lines :: "nat \<Rightarrow> string list \<Rightarrow> corpus_error + corpus_request list" where
  "request_lines n [] = Inr []"
| "request_lines n (l # ls) =
     (if 65536 \<le> length l then Inl LineTooLong
      else
        (case request_line (Suc n) l of
           Inl err \<Rightarrow> Inl err
         | Inr None \<Rightarrow> request_lines (Suc n) ls
         | Inr (Some r) \<Rightarrow> map_sum id (Cons r) (request_lines (Suc n) ls)))"

definition load_requests :: "string \<Rightarrow> corpus_error + corpus_request list" where
  "load_requests data = request_lines 0 (scan_lines data)"

section \<open>HAR\<close>

definition har_drop_headers :: "string list" where
  "har_drop_headers =
     map canonical_key [''Cookie'', ''Authorization'', ''Proxy-Authorization'', ''X-CSRF-Token'']"

record har_entry =
  he_method :: string
  he_url :: string
  he_headers :: "(string \<times> string) list"
  he_post_data :: "string option"

definition har_keeps :: "string \<Rightarrow> bool" where
  "har_keeps name \<longleftrightarrow> \<not> has_prefix name '':'' \<and> canonical_key name \<notin> set har_drop_headers"

definition har_header :: "(string \<times> string) list \<Rightarrow> header" where
  "har_header hs = foldl (\<lambda>h (k, v). if har_keeps k then hadd h k v else h) [] hs"

definition har_request :: "har_entry \<Rightarrow> url \<Rightarrow> corpus_request" where
  "har_request e u =
     \<lparr>q_method = to_upper (he_method e), q_path = request_uri u, q_header = har_header (he_headers e),
      q_body = (case he_post_data e of None \<Rightarrow> [] | Some t \<Rightarrow> t)\<rparr>"

fun har_requests :: "har_entry list \<Rightarrow> corpus_error + corpus_request list" where
  "har_requests [] = Inr []"
| "har_requests (e # es) =
     (if he_method e = [] \<or> he_url e = [] then har_requests es
      else
        (case url_parse (he_url e) of
           Inl err \<Rightarrow> Inl (BadHarUrl err)
         | Inr u \<Rightarrow> map_sum id (Cons (har_request e u)) (har_requests es)))"

definition load_har ::
  "(string \<Rightarrow> gerror + har_entry list) \<Rightarrow> string \<Rightarrow> corpus_error + corpus_request list" where
  "load_har decode data =
     (case decode data of Inl err \<Rightarrow> Inl (DecodeCorpus err) | Inr es \<Rightarrow> har_requests es)"

section \<open>OpenAPI\<close>

definition safe_methods :: "string list" where
  "safe_methods = [''GET'', ''HEAD'', ''OPTIONS'']"

definition unsafe_methods :: "string list" where
  "unsafe_methods = [''POST'', ''PUT'', ''PATCH'', ''DELETE'']"

type_synonym openapi_spec = "(string, string list) gomap"

definition admitted_method :: "bool \<Rightarrow> string \<Rightarrow> bool" where
  "admitted_method include_unsafe m \<longleftrightarrow>
     m \<in> set safe_methods \<or> include_unsafe \<and> m \<in> set unsafe_methods"

definition path_request :: "string \<times> string \<Rightarrow> corpus_request" where
  "path_request pm = \<lparr>q_method = snd pm, q_path = fst pm, q_header = [], q_body = []\<rparr>"

definition request_order :: "corpus_request \<Rightarrow> string \<times> string" where
  "request_order r = (q_path r, q_method r)"

definition openapi_requests :: "bool \<Rightarrow> openapi_spec \<Rightarrow> corpus_request list" where
  "openapi_requests include_unsafe spec =
     sort_key request_order
       (concat (map (\<lambda>(path, ops).
          map (\<lambda>m. path_request (path, m)) (filter (admitted_method include_unsafe) (map to_upper ops))) spec))"

definition load_openapi ::
  "(string \<Rightarrow> gerror + openapi_spec) \<Rightarrow> string \<Rightarrow> bool \<Rightarrow> corpus_error + corpus_request list" where
  "load_openapi decode data include_unsafe =
     (case decode data of
        Inl err \<Rightarrow> Inl (DecodeCorpus err)
      | Inr spec \<Rightarrow> Inr (openapi_requests include_unsafe spec))"

section \<open>Load\<close>

definition detect_format :: "string \<Rightarrow> string \<Rightarrow> string" where
  "detect_format path data =
     (let lower = to_lower path in
      if has_suffix lower ''.har'' then ''har''
      else if has_suffix lower ''.yaml'' \<or> has_suffix lower ''.yml'' \<or> has_suffix lower ''.json'' then
        (if contains (to_lower data) ''openapi'' \<or> contains (to_lower data) ''swagger''
         then ''openapi'' else ''requests'')
      else ''requests'')"

record corpus_decoders =
  cd_har :: "string \<Rightarrow> gerror + har_entry list"
  cd_openapi :: "string \<Rightarrow> gerror + openapi_spec"

definition load_corpus ::
  "corpus_decoders \<Rightarrow> (string \<Rightarrow> ('w, gerror + string) io) \<Rightarrow> string \<Rightarrow> string \<Rightarrow> bool
     \<Rightarrow> ('w, corpus_error + corpus_request list) io" where
  "load_corpus dec read_file path format include_unsafe w =
     (case read_file path w of
        (Inl err, w1) \<Rightarrow> (Inl (ReadCorpus err), w1)
      | (Inr data, w1) \<Rightarrow>
          (let f = (if format = [] then detect_format path data else format) in
           if f = ''requests'' then (load_requests data, w1)
           else if f = ''har'' then (load_har (cd_har dec) data, w1)
           else if f = ''openapi'' then (load_openapi (cd_openapi dec) data include_unsafe, w1)
           else (Inl (UnknownFormat f), w1)))"

section \<open>Facts\<close>

lemma request_lines_some:
  "request_lines n ls = Inr rs \<Longrightarrow>
   list_all (\<lambda>r. has_prefix (q_path r) ''/'' \<and> q_header r = [] \<and> to_upper (q_method r) = q_method r) rs"
  by (induction n ls arbitrary: rs rule: request_lines.induct)
    (auto simp: request_line_def Let_def map_sum_def split: if_splits sum.splits option.splits list.splits)

lemma har_header_keys:
  "hvalues (har_header hs) k = concat (map (\<lambda>(j, v). if har_keeps j \<and> canonical_key j = canonical_key k
     then [v] else []) hs)"
proof -
  have "hvalues (foldl (\<lambda>h (j, v). if har_keeps j then hadd h j v else h) h hs) k
      = hvalues h k @ concat (map (\<lambda>(j, v). if har_keeps j \<and> canonical_key j = canonical_key k then [v] else []) hs)"
    for h
    by (induction hs arbitrary: h) (auto simp: hvalues_hadd)
  from this [of "[]"] show ?thesis by (simp add: har_header_def hvalues_def)
qed

lemma har_header_dropped:
  "canonical_key k \<in> set har_drop_headers \<Longrightarrow> hvalues (har_header hs) k = []"
  by (auto simp: har_header_keys har_keeps_def)

lemma har_header_entry: "p \<in> set (har_header hs) \<Longrightarrow> \<exists>j. fst p = canonical_key j \<and> har_keeps j"
proof -
  have "p \<in> set (foldl (\<lambda>h (j, v). if har_keeps j then hadd h j v else h) h hs) \<Longrightarrow>
      p \<in> set h \<or> (\<exists>j. fst p = canonical_key j \<and> har_keeps j)" for h
  proof (induction hs arbitrary: h)
    case (Cons jv hs)
    obtain j v where jv: "jv = (j, v)" by (cases jv)
    have "p \<in> set (hadd h j v) \<Longrightarrow> p \<in> set h \<or> fst p = canonical_key j"
      using set_update_subset [of "canonical_key j" "hvalues h j @ [v]" h] by (auto simp: hadd_def)
    with Cons.IH [of "if har_keeps j then hadd h j v else h"] Cons.prems jv show ?case
      by (auto split: if_splits)
  qed simp
  then show "p \<in> set (har_header hs) \<Longrightarrow> \<exists>j. fst p = canonical_key j \<and> har_keeps j"
    by (fastforce simp: har_header_def)
qed

lemma har_requests_some: "har_requests es = Inr rs \<Longrightarrow> r \<in> set rs \<Longrightarrow> \<exists>e u. r = har_request e u"
proof (induction es arbitrary: rs)
  case (Cons e es)
  show ?case
  proof (cases "he_method e = [] \<or> he_url e = []")
    case False
    with Cons.prems obtain u rs' where "har_requests es = Inr rs'" "rs = har_request e u # rs'"
      by (auto split: sum.splits simp: map_sum_def)
    with Cons.prems(2) Cons.IH show ?thesis by auto
  qed (use Cons in auto)
qed simp

text \<open>Sorting by a key that determines the element forgets the order of the input.\<close>

lemma sort_key_forgets_order:
  assumes "mset xs = mset ys" and "inj_on f (set xs)"
  shows "sort_key f xs = sort_key f ys"
proof (rule properties_for_sort_key)
  show "mset (sort_key f ys) = mset xs" using assms(1) by simp
  show "sorted (map f (sort_key f ys))" by simp
  show "filter (\<lambda>x. f k = f x) (sort_key f ys) = filter (\<lambda>x. f k = f x) xs" if "k \<in> set (sort_key f ys)" for k
  proof -
    have k: "k \<in> set xs" using that mset_eq_setD [OF assms(1)] by simp
    have only: "filter (\<lambda>x. f k = f x) zs = filter (\<lambda>x. k = x) zs" if "set zs = set xs" for zs
      using assms(2) k that by (intro filter_cong) (auto simp: inj_on_def)
    have "length (filter (\<lambda>x. k = x) (sort_key f ys)) = length (filter (\<lambda>x. k = x) xs)"
      using assms(1) by (metis mset_filter mset_sort size_mset)
    then have "filter (\<lambda>x. k = x) (sort_key f ys) = filter (\<lambda>x. k = x) xs"
      by (metis replicate_length_filter)
    then show ?thesis
      using only [of "sort_key f ys"] only [of xs] mset_eq_setD [OF assms(1)] by simp
  qed
qed

end
