(* ===== verification/Replay.thy ===== *)
theory Replay
  imports Control Corpus
begin

text \<open>
  Component \<open>internal/replay\<close> (\<open>replay.go\<close>, \<open>corpus.go\<close>) and the part of \<open>cmd/replay.go\<close> that reads
  its results: one request sent under each identity, and a whole corpus of them.  The source of the
  sessions is an argument; the facts about what is sent are proved once in the locale of the
  interface and hold for the store and for the control client.

  The state of a run is the source's state and the list of what was handed to the HTTP client, with
  the identity it was sent for; no definition reads that list.
\<close>

section \<open>Run\<close>

datatype 'e replay_error = SourceError 'e | RequestError gerror

record 'e replay_result =
  res_identity :: string
  res_status :: int
  res_size :: nat
  res_duration :: duration
  res_body :: string
  res_err :: "'e replay_error option"

record ('e, 's, 'w) replay_env =
  rn_get :: "('e, 's, 'w) source"
  rn_client :: "'w client"
  rn_tick :: "'w ticker"

type_synonym sent = "(string \<times> request) list"

definition failed_result :: "string \<Rightarrow> 'e replay_error \<Rightarrow> duration \<Rightarrow> 'e replay_result" where
  "failed_result i err d =
     \<lparr>res_identity = i, res_status = 0, res_size = 0, res_duration = d, res_body = [], res_err = Some err\<rparr>"

text \<open>From \<open>start := time.Now()\<close> to the result (replay.go 74-93).\<close>

definition exchange_result ::
  "('e, 's, 'w) replay_env \<Rightarrow> string \<Rightarrow> request \<Rightarrow> ('w, 'e replay_result) io" where
  "exchange_result env i req w =
     (let (start, w1) = rn_tick env w in
      case rn_client env req w1 of
        (Inl err, w2) \<Rightarrow>
          (let (now, w3) = rn_tick env w2
           in (failed_result i (RequestError err) (time_sub now start), w3))
      | (Inr resp, w2) \<Rightarrow>
          (let (now, w3) = rn_tick env w2
           in (\<lparr>res_identity = i, res_status = rs_status resp, res_size = length (rs_body resp),
                res_duration = time_sub now start, res_body = rs_body resp,
                res_err = map_option RequestError (rs_read_error resp)\<rparr>, w3)))"

definition base_request :: "string \<Rightarrow> string \<Rightarrow> header \<Rightarrow> string \<Rightarrow> gerror + request" where
  "base_request method url hdr body =
     (case new_request method url body of
        Inl err \<Rightarrow> Inl err
      | Inr req \<Rightarrow> Inr (req\<lparr>rq_header := hadd_all (rq_header req) hdr\<rparr>))"

text \<open>One turn of the loop (replay.go 54-93).\<close>

definition replay_one ::
  "('e, 's, 'w) replay_env \<Rightarrow> string \<Rightarrow> string \<Rightarrow> header \<Rightarrow> string \<Rightarrow> string \<Rightarrow> 's \<Rightarrow> 'w
     \<Rightarrow> ('e replay_result \<times> sent) \<times> 's \<times> 'w" where
  "replay_one env method url hdr body i st w =
     (case base_request method url hdr body of
        Inl err \<Rightarrow> ((failed_result i (RequestError err) 0, []), st, w)
      | Inr req \<Rightarrow>
          if i \<noteq> ''anon'' then
            (case rn_get env i st w of
               (Inl err, st1, w1) \<Rightarrow> ((failed_result i (SourceError err) 0, []), st1, w1)
             | (Inr s, st1, w1) \<Rightarrow>
                 (let (r, w2) = exchange_result env i (apply_session s req) w1
                  in ((r, [(i, apply_session s req)]), st1, w2)))
          else (let (r, w2) = exchange_result env i req w in ((r, [(i, req)]), st, w2)))"

fun replay_run ::
  "('e, 's, 'w) replay_env \<Rightarrow> string list \<Rightarrow> string \<Rightarrow> string \<Rightarrow> header \<Rightarrow> string \<Rightarrow> 's \<Rightarrow> 'w
     \<Rightarrow> ('e replay_result list \<times> sent) \<times> 's \<times> 'w" where
  "replay_run env [] method url hdr body st w = (([], []), st, w)"
| "replay_run env (i # is) method url hdr body st w =
     (let ((r, t), st1, w1) = replay_one env method url hdr body i st w;
          ((rs, ts), st2, w2) = replay_run env is method url hdr body st1 w1
      in ((r # rs, t @ ts), st2, w2))"

section \<open>RunCorpus\<close>

record 'e corpus_row =
  row_request :: corpus_request
  row_results :: "'e replay_result list"

fun replay_rows ::
  "('e, 's, 'w) replay_env \<Rightarrow> string list \<Rightarrow> corpus_request list \<Rightarrow> string \<Rightarrow> 's \<Rightarrow> 'w
     \<Rightarrow> ('e corpus_row list \<times> sent) \<times> 's \<times> 'w" where
  "replay_rows env is [] base st w = (([], []), st, w)"
| "replay_rows env is (q # qs) base st w =
     (let ((rs, t), st1, w1) =
            replay_run env is (q_method q) (base @ q_path q) (q_header q) (q_body q) st w;
          ((rows, ts), st2, w2) = replay_rows env is qs base st1 w1
      in ((\<lparr>row_request = q, row_results = rs\<rparr> # rows, t @ ts), st2, w2))"

definition run_corpus ::
  "('e, 's, 'w) replay_env \<Rightarrow> string list \<Rightarrow> corpus_request list \<Rightarrow> string \<Rightarrow> 's \<Rightarrow> 'w
     \<Rightarrow> ('e corpus_row list \<times> sent) \<times> 's \<times> 'w" where
  "run_corpus env is qs target = replay_rows env is qs (trim_right target ''/'')"

section \<open>What the command makes of the results\<close>

definition is_failure :: "'e replay_result \<Rightarrow> bool" where
  "is_failure r \<longleftrightarrow> res_err r \<noteq> None"

text \<open>The loop of \<open>statusesDiffer\<close>; \<open>first\<close> is -1 until a status has been seen.\<close>

fun differ_from :: "int \<Rightarrow> 'e replay_result list \<Rightarrow> bool" where
  "differ_from first [] = False"
| "differ_from first (r # rs) =
     (if is_failure r then differ_from first rs
      else if first = -1 then differ_from (res_status r) rs
      else if res_status r \<noteq> first then True else differ_from first rs)"

definition statuses_differ :: "'e replay_result list \<Rightarrow> bool" where
  "statuses_differ rs = differ_from (-1) rs"

definition replay_fails :: "'e replay_result list \<Rightarrow> bool" where
  "replay_fails rs \<longleftrightarrow> rs \<noteq> [] \<and> length (filter is_failure rs) = length rs"

definition row_failed :: "'e corpus_row \<Rightarrow> bool" where
  "row_failed row \<longleftrightarrow> length (filter is_failure (row_results row)) = length (row_results row)"

definition corpus_fails :: "'e corpus_row list \<Rightarrow> bool" where
  "corpus_fails rows \<longleftrightarrow> rows \<noteq> [] \<and> length (filter row_failed rows) = length rows"

section \<open>Facts\<close>

lemma base_request_some:
  assumes "base_request method url hdr body = Inr req"
  shows "rq_body req = body" "rq_method req = (if method = [] then ''GET'' else method)"
    "rq_header req = hadd_all [] hdr"
proof -
  from assms obtain q where q: "new_request method url body = Inr q"
    "req = q\<lparr>rq_header := hadd_all (rq_header q) hdr\<rparr>"
    by (auto simp: base_request_def split: sum.splits)
  with new_request_body [OF q(1)] new_request_method [OF q(1)] new_request_header [OF q(1)]
  show "rq_body req = body" "rq_method req = (if method = [] then ''GET'' else method)"
    "rq_header req = hadd_all [] hdr" by simp_all
qed

lemma exchange_result_identity: "res_identity (fst (exchange_result env i req w)) = i"
  by (simp add: exchange_result_def failed_result_def case_prod_beta split: sum.splits prod.splits)

text \<open>What one turn does.\<close>

lemma replay_one_cases:
  assumes "replay_one env method url hdr body i st w = ((r, t), st', w')"
  obtains (unbuilt) err where "base_request method url hdr body = Inl err" "t = []" "st' = st"
      "r = failed_result i (RequestError err) 0"
  | (refused) req err where "base_request method url hdr body = Inr req" "i \<noteq> ''anon''"
      "rn_get env i st w = (Inl err, st', w')" "t = []" "r = failed_result i (SourceError err) 0"
  | (sent) req s w1 where "base_request method url hdr body = Inr req" "i \<noteq> ''anon''"
      "rn_get env i st w = (Inr s, st', w1)" "t = [(i, apply_session s req)]"
      "exchange_result env i (apply_session s req) w1 = (r, w')"
  | (anonymous) req where "base_request method url hdr body = Inr req" "i = ''anon''"
      "t = [(i, req)]" "st' = st" "exchange_result env i req w = (r, w')"
proof (cases "base_request method url hdr body")
  case (Inl err)
  with assms unbuilt show thesis by (simp add: replay_one_def)
next
  case (Inr req)
  show thesis
  proof (cases "i = ''anon''")
    case True
    with assms Inr anonymous show thesis by (auto simp: replay_one_def case_prod_beta)
  next
    case False
    obtain x st1 w1 where g: "rn_get env i st w = (x, st1, w1)" by (metis prod_cases3)
    show thesis
    proof (cases x)
      case (Inl err)
      with assms Inr False g refused show thesis by (simp add: replay_one_def)
    next
      case s: (Inr s)
      with assms Inr False g sent show thesis by (auto simp: replay_one_def case_prod_beta)
    qed
  qed
qed

lemma replay_one_identity:
  assumes "replay_one env method url hdr body i st w = ((r, t), st', w')"
  shows "res_identity r = i" "list_all (\<lambda>(j, q). j = i) t" "length t \<le> 1"
proof -
  have "res_identity r = i \<and> list_all (\<lambda>(j, q). j = i) t \<and> length t \<le> 1"
    using assms
  proof (cases rule: replay_one_cases)
    case (sent req s w1)
    with exchange_result_identity [of env i "apply_session s req" w1] show ?thesis by simp
  next
    case (anonymous req)
    with exchange_result_identity [of env i req w] show ?thesis by simp
  qed (simp_all add: failed_result_def)
  then show "res_identity r = i" "list_all (\<lambda>(j, q). j = i) t" "length t \<le> 1" by auto
qed

lemma replay_run_identities:
  "replay_run env is method url hdr body st w = ((rs, ts), st', w') \<Longrightarrow>
   map res_identity rs = is \<and> length ts \<le> length is"
proof (induction "is" arbitrary: rs ts st w st' w')
  case (Cons i "is")
  obtain r t st1 w1 where one: "replay_one env method url hdr body i st w = ((r, t), st1, w1)"
    by (metis prod.collapse)
  obtain rs1 ts1 st2 w2 where rest: "replay_run env is method url hdr body st1 w1 = ((rs1, ts1), st2, w2)"
    by (metis prod.collapse)
  from Cons.prems one rest have "rs = r # rs1" "ts = t @ ts1" by simp_all
  with Cons.IH [OF rest] replay_one_identity [OF one] show ?case by simp
qed simp

section \<open>What every session source guarantees\<close>

text \<open>
  Every request of a run for a name that fits carries a session of that name on the request the
  corpus describes; the request for \<open>anon\<close> is exactly the described one.
\<close>

definition own_request :: "string \<Rightarrow> string \<Rightarrow> header \<Rightarrow> string \<Rightarrow> string \<times> request \<Rightarrow> bool" where
  "own_request method url hdr body p \<longleftrightarrow>
     (\<exists>req. base_request method url hdr body = Inr req \<and>
       (if fst p = ''anon'' then snd p = req
        else \<exists>s. session_ok (fst p) s \<and> snd p = apply_session s req))"

context session_source
begin

lemma replay_one_own:
  assumes "replay_one env method url hdr body i st w = ((r, t), st', w')"
    and "rn_get env = get" and "ok st" and "i = ''anon'' \<or> fits i"
  shows "ok st' \<and> list_all (own_request method url hdr body) t"
  using assms(1)
proof (cases rule: replay_one_cases)
  case (sent req s w1)
  then have g: "get i st w = (Inr s, st', w1)" using assms(2) by simp
  from sent(2) assms(4) have "fits i" by simp
  from get_own [OF assms(3) this g] sent get_keeps [OF assms(3) g] show ?thesis
    by (auto simp: own_request_def)
next
  case (refused req err)
  with get_keeps [OF assms(3), of i w "Inl err" st' w'] assms(2) show ?thesis by simp
qed (use assms(3) in \<open>auto simp: own_request_def\<close>)

lemma replay_run_own:
  "replay_run env is method url hdr body st w = ((rs, ts), st', w') \<Longrightarrow> rn_get env = get \<Longrightarrow> ok st \<Longrightarrow>
   \<forall>i \<in> set is. i = ''anon'' \<or> fits i \<Longrightarrow> ok st' \<and> list_all (own_request method url hdr body) ts"
proof (induction "is" arbitrary: rs ts st w st' w')
  case (Cons i "is")
  obtain r t st1 w1 where one: "replay_one env method url hdr body i st w = ((r, t), st1, w1)"
    by (metis prod.collapse)
  obtain rs1 ts1 st2 w2 where rest: "replay_run env is method url hdr body st1 w1 = ((rs1, ts1), st2, w2)"
    by (metis prod.collapse)
  from Cons.prems one rest have eq: "ts = t @ ts1" "st2 = st'" by simp_all
  have o1: "ok st1 \<and> list_all (own_request method url hdr body) t"
    using replay_one_own [OF one Cons.prems(2,3)] Cons.prems(4) by simp
  with Cons.IH [OF rest] Cons.prems(2,4) eq show ?case by simp
qed simp

end

end
