(* ===== verification/Cli.thy ===== *)
theory Cli
  imports Config Gateway Replay
begin

text \<open>
  The parts of \<open>cmd/\<close> that the commands share: the TLS flags and the warnings (\<open>tls.go\<close>), the store
  and the policies that are built of a configuration, the socket path and the log level
  (\<open>daemon.go\<close>), the choice between a running daemon and a login of one's own (\<open>socket.go\<close>), and the
  commands \<open>header\<close>, \<open>identities\<close> and \<open>replay\<close>.

  Warnings are data, one constructor per line the code prints.  A running daemon is what a GET over
  its socket yields; its state is part of the outside world.
\<close>

datatype cmd_error =
    ConfigFailed config_error
  | NoHome gerror
  | MakeDir gerror
  | BadBasePort int
  | BadLogLevel string
  | CsrfIncomplete string
  | CsrfInvalid string gerror
  | AuditLogFailed gerror
  | GatewayTls tls_error
  | GatewayFailed gerror
  | TokenFailed gerror
  | ListenFailed gerror
  | ChmodFailed gerror
  | AttachFailed client_error
  | LoginFailed gerror
  | NoBearerToken string
  | NoIdentityGiven
  | CorpusWithPath
  | CorpusWithMethod
  | PathWithoutSlash string
  | ReplayTls tls_error
  | CorpusFailed corpus_error
  | EmptyCorpus string
  | AllIdentitiesFailed nat
  | AllRequestsFailed nat
  | NoDaemon string

section \<open>TLS flags and warnings\<close>

record tls_flags =
  tf_insecure :: bool
  tf_insecure_set :: bool
  tf_ca_cert :: string
  tf_ca_cert_set :: bool
  tf_client_cert :: string
  tf_client_cert_set :: bool
  tf_client_key :: string
  tf_client_key_set :: bool

definition apply_tls_flags :: "tls_flags \<Rightarrow> config \<Rightarrow> config" where
  "apply_tls_flags f cfg =
     (let t0 = cfg_tls cfg;
          t1 = (if tf_insecure_set f then t0\<lparr>tls_insecure := tf_insecure f\<rparr> else t0);
          t2 = (if tf_ca_cert_set f then t1\<lparr>tls_ca_cert := tf_ca_cert f\<rparr> else t1);
          t3 = (if tf_client_cert_set f then t2\<lparr>tls_client_cert := tf_client_cert f\<rparr> else t2);
          t4 = (if tf_client_key_set f then t3\<lparr>tls_client_key := tf_client_key f\<rparr> else t3)
      in cfg\<lparr>cfg_tls := t4\<rparr>)"

datatype warning =
    InsecureGlobal
  | InsecureIdentity string
  | PlaintextStep string
  | PlaintextUrl string string
  | UnauthenticatedGateway

definition warn_if_insecure :: "config \<Rightarrow> warning list" where
  "warn_if_insecure cfg =
     (if tls_insecure (cfg_tls cfg) then [InsecureGlobal] else []) @
     concat (map (\<lambda>c. case ic_tls c of
                         None \<Rightarrow> []
                       | Some t \<Rightarrow> if tls_insecure t then [InsecureIdentity (ic_name c)] else [])
               (cfg_identities cfg))"

text \<open>The step URLs of an identity: the warnings they cause at once, and those left to parse.\<close>

definition templated_warnings :: "identity_config \<Rightarrow> warning list" where
  "templated_warnings c =
     map (\<lambda>s. PlaintextStep (ic_name c))
       (filter (\<lambda>s. contains (sc_url s) ''{{'' \<and> has_prefix (to_lower (sc_url s)) ''http://'') (ic_steps c))"

definition auth_endpoints :: "identity_config \<Rightarrow> (string \<times> string) list" where
  "auth_endpoints c =
     [(''login'', ic_login_url c), (''token'', ic_token_url c)] @
     map (\<lambda>s. (''step'', sc_url s)) (filter (\<lambda>s. \<not> contains (sc_url s) ''{{'') (ic_steps c))"

definition plaintext_url :: "string \<Rightarrow> bool" where
  "plaintext_url raw \<longleftrightarrow>
     raw \<noteq> [] \<and> (case url_parse raw of Inl _ \<Rightarrow> False | Inr u \<Rightarrow> u_scheme u = ''http'')"

definition warn_if_plaintext_auth :: "config \<Rightarrow> warning list" where
  "warn_if_plaintext_auth cfg =
     concat (map (\<lambda>c. templated_warnings c @
         map (\<lambda>ep. PlaintextUrl (ic_name c) (fst ep)) (filter (\<lambda>ep. plaintext_url (snd ep)) (auth_endpoints c)))
       (cfg_identities cfg))"

section \<open>The environment of a command\<close>

record ('c, 'k, 'j, 'w) cmd_env =
  ce_os :: "'w os_env"
  ce_tls :: "('c, 'k, 'w) tls_env"
  ce_recipes :: "('c, 'k, 'j, 'w) recipe_env"
  ce_regexp :: regexp_compiler
  ce_decoders :: corpus_decoders
  ce_no_redirect :: "('c, 'k) transport \<Rightarrow> 'w client"
  ce_getenv :: "string \<Rightarrow> string"
  ce_home :: "gerror + string"
  ce_stat :: "string \<Rightarrow> 'w \<Rightarrow> gerror + 32 word"
  ce_dial :: "string \<Rightarrow> (unit, 'w) channel"

section \<open>Building the store and the policies\<close>

definition register_all :: "'w recipe list \<Rightarrow> 'w store \<Rightarrow> 'w store" where
  "register_all rs st = foldl (\<lambda>s r. register r s) st rs"

definition build_store ::
  "('c, 'k, 'j, 'w) cmd_env \<Rightarrow> string \<Rightarrow> tls_flags
     \<Rightarrow> ('w, cmd_error + 'w store \<times> (string, 'w recipe) gomap \<times> config) io" where
  "build_store env path flags w =
     (case load_config (ce_os env) path w of
        (Inl err, w1) \<Rightarrow> (Inl (ConfigFailed err), w1)
      | (Inr cfg0, w1) \<Rightarrow>
          (let cfg = apply_tls_flags flags cfg0 in
           case config_recipes (ce_tls env) cfg w1 of
             (Inl err, w2) \<Rightarrow> (Inl (ConfigFailed err), w2)
           | (Inr built, w2) \<Rightarrow>
               (let recipes = map (\<lambda>p. (fst p, to_recipe (ce_recipes env) (snd p))) built;
                    st = store_new [with_backoff (bo_max_burst (cfg_backoff cfg)) (bo_window (cfg_backoff cfg))]
                in (Inr (register_all (map snd recipes) st, recipes, cfg), w2))))"

fun build_csrf_policies ::
  "regexp_compiler \<Rightarrow> identity_config list \<Rightarrow> (string, csrf_policy) gomap
     \<Rightarrow> cmd_error + (string, csrf_policy) gomap" where
  "build_csrf_policies compile [] out = Inr out"
| "build_csrf_policies compile (c # cs) out =
     (case ic_csrf c of
        None \<Rightarrow> build_csrf_policies compile cs out
      | Some p \<Rightarrow>
          if cf_fetch_url p = [] \<or> cf_pattern p = [] \<or> cf_header p = []
          then Inl (CsrfIncomplete (ic_name c))
          else
            (case new_csrf_policy compile (cf_fetch_url p) (cf_pattern p) (cf_header p) (cf_methods p) of
               Inl err \<Rightarrow> Inl (CsrfInvalid (ic_name c) err)
             | Inr pol \<Rightarrow> build_csrf_policies compile cs (AList.update (ic_name c) pol out)))"

section \<open>Paths, log levels\<close>

datatype log_level = LevelError | LevelWarn | LevelInfo | LevelDebug

definition parse_log_level :: "string \<Rightarrow> cmd_error + log_level" where
  "parse_log_level s =
     (if s = ''error'' then Inr LevelError
      else if s = ''warn'' then Inr LevelWarn
      else if s = ''info'' then Inr LevelInfo
      else if s = ''debug'' then Inr LevelDebug
      else Inl (BadLogLevel s))"

text \<open>\<open>filepath.Clean\<close> and \<open>filepath.Join\<close> of two elements, on Unix.\<close>

fun file_elems :: "bool \<Rightarrow> string list \<Rightarrow> string list \<Rightarrow> string list" where
  "file_elems rooted acc [] = rev acc"
| "file_elems rooted acc (e # es) =
     (if e = [] \<or> e = ''.'' then file_elems rooted acc es
      else if e = ''..'' then
        (case acc of
           [] \<Rightarrow> file_elems rooted (if rooted then [] else [e]) es
         | a # as \<Rightarrow> file_elems rooted (if a = ''..'' then e # acc else as) es)
      else file_elems rooted (e # acc) es)"

definition file_clean :: "string \<Rightarrow> string" where
  "file_clean p =
     (let rooted = prefix ''/'' p;
          body = join_with (CHR ''/'') (file_elems rooted [] (split_on (CHR ''/'') p))
      in if p = [] then ''.''
         else if rooted then ''/'' @ body
         else if body = [] then ''.'' else body)"

definition file_join :: "string \<Rightarrow> string \<Rightarrow> string" where
  "file_join a b =
     (if a = [] \<and> b = [] then []
      else if a = [] then file_clean b else if b = [] then file_clean a
      else file_clean (a @ ''/'' @ b))"

definition socket_path :: "('c, 'k, 'j, 'w) cmd_env \<Rightarrow> cmd_error + string" where
  "socket_path env =
     (if ce_getenv env ''XDG_RUNTIME_DIR'' = [] then
        (case ce_home env of
           Inl err \<Rightarrow> Inl (NoHome err)
         | Inr home \<Rightarrow> Inr (file_join (file_join home ''.claviger'') ''claviger.sock''))
      else Inr (file_join (ce_getenv env ''XDG_RUNTIME_DIR'') ''claviger.sock''))"

section \<open>Attaching to a daemon\<close>

definition resolve_socket :: "('c, 'k, 'j, 'w) cmd_env \<Rightarrow> string \<Rightarrow> cmd_error + string" where
  "resolve_socket env flag = (if flag \<noteq> [] then Inr flag else socket_path env)"

text \<open>The channel of a live daemon, or none, and the path that was looked at.\<close>

definition attach_client ::
  "('c, 'k, 'j, 'w) cmd_env \<Rightarrow> string \<Rightarrow> 'w \<Rightarrow> cmd_error + (unit, 'w) channel option \<times> string" where
  "attach_client env flag w =
     (case resolve_socket env flag of
        Inl err \<Rightarrow> Inl err
      | Inr path \<Rightarrow>
          if socket_exists (ce_stat env) path w then Inr (Some (ce_dial env path), path) else Inr (None, path))"

text \<open>The value of a client call against the daemon that is part of the outside world.\<close>

definition over_socket :: "(client_error + 'a) \<times> unit \<times> 'w \<Rightarrow> (cmd_error + 'a) \<times> 'w" where
  "over_socket r = (case r of (x, _, w) \<Rightarrow> (map_sum AttachFailed id x, w))"

definition session_of_identity ::
  "('c, 'k, 'j, 'w) cmd_env \<Rightarrow> 'w ticker \<Rightarrow> string \<Rightarrow> string \<Rightarrow> string \<Rightarrow> tls_flags
     \<Rightarrow> ('w, (cmd_error + session) \<times> warning list) io" where
  "session_of_identity env tick flag cfg_path i flags w =
     (case attach_client env flag w of
        Inl err \<Rightarrow> ((Inl err, []), w)
      | Inr (Some ch, _) \<Rightarrow> (case over_socket (client_creds ch i () w) of (x, w1) \<Rightarrow> ((x, []), w1))
      | Inr (None, _) \<Rightarrow>
          (case build_store env cfg_path flags w of
             (Inl err, w1) \<Rightarrow> ((Inl err, []), w1)
           | (Inr (st, _, cfg), w1) \<Rightarrow>
               (case store_get tick i st w1 of
                  (x, _, w2) \<Rightarrow>
                    ((map_sum LoginFailed id x, warn_if_insecure cfg @ warn_if_plaintext_auth cfg), w2))))"

datatype 'w replay_source = AttachedSource "(unit, 'w) channel" | StandaloneSource "'w store"

definition replay_source_for ::
  "('c, 'k, 'j, 'w) cmd_env \<Rightarrow> string \<Rightarrow> string \<Rightarrow> tls_flags \<Rightarrow> ('w, cmd_error + 'w replay_source) io" where
  "replay_source_for env flag cfg_path flags w =
     (case attach_client env flag w of
        Inl err \<Rightarrow> (Inl err, w)
      | Inr (Some ch, _) \<Rightarrow> (Inr (AttachedSource ch), w)
      | Inr (None, _) \<Rightarrow>
          (case build_store env cfg_path flags w of
             (Inl err, w1) \<Rightarrow> (Inl err, w1)
           | (Inr (st, _, _), w1) \<Rightarrow> (Inr (StandaloneSource st), w1)))"

definition source_get :: "'w ticker \<Rightarrow> (cmd_error, 'w replay_source, 'w) source" where
  "source_get tick i src w =
     (case src of
        AttachedSource ch \<Rightarrow>
          (case over_socket (client_creds ch i () w) of (x, w1) \<Rightarrow> (x, src, w1))
      | StandaloneSource st \<Rightarrow>
          (case store_get tick i st w of
             (x, st1, w1) \<Rightarrow> (map_sum LoginFailed id x, StandaloneSource st1, w1)))"

definition identity_names ::
  "('c, 'k, 'j, 'w) cmd_env \<Rightarrow> string \<Rightarrow> string \<Rightarrow> tls_flags
     \<Rightarrow> ('w, (cmd_error + string list) \<times> warning list) io" where
  "identity_names env flag cfg_path flags w =
     (case attach_client env flag w of
        Inl err \<Rightarrow> ((Inl err, []), w)
      | Inr (Some ch, _) \<Rightarrow>
          (case over_socket (client_status ch () w) of
             (x, w1) \<Rightarrow> ((map_sum id (map is_name) x, []), w1))
      | Inr (None, _) \<Rightarrow>
          (case build_store env cfg_path flags w of
             (Inl err, w1) \<Rightarrow> ((Inl err, []), w1)
           | (Inr (st, _, cfg), w1) \<Rightarrow>
               ((Inr (identities st), warn_if_insecure cfg @ warn_if_plaintext_auth cfg), w1)))"

section \<open>The commands identities, header and replay\<close>

text \<open>The lines that \<open>identities\<close> prints.\<close>

definition identities_cmd ::
  "('c, 'k, 'j, 'w) cmd_env \<Rightarrow> string \<Rightarrow> string \<Rightarrow> tls_flags \<Rightarrow> ('w, cmd_error + string list) io" where
  "identities_cmd env flag cfg_path flags w =
     (case identity_names env flag cfg_path flags w of ((x, _), w1) \<Rightarrow> (x, w1))"

definition header_cmd ::
  "('c, 'k, 'j, 'w) cmd_env \<Rightarrow> 'w ticker \<Rightarrow> string \<Rightarrow> string \<Rightarrow> string \<Rightarrow> tls_flags
     \<Rightarrow> ('w, cmd_error + string) io" where
  "header_cmd env tick flag cfg_path i flags w =
     (case session_of_identity env tick flag cfg_path i flags w of
        ((Inl err, _), w1) \<Rightarrow> (Inl err, w1)
      | ((Inr s, _), w1) \<Rightarrow>
          if s_bearer s = [] then (Inl (NoBearerToken i), w1)
          else (Inr (''Authorization: Bearer '' @ s_bearer s), w1))"

record replay_flags =
  rf_ids :: "string list"
  rf_method :: string
  rf_method_changed :: bool
  rf_path :: string
  rf_path_changed :: bool
  rf_socket :: string
  rf_corpus :: string
  rf_format :: string
  rf_include_unsafe :: bool

text \<open>What the command prints and how it ends.\<close>

record replay_outcome =
  ro_results :: "cmd_error replay_result list"
  ro_rows :: "cmd_error corpus_row list"
  ro_error :: "cmd_error option"

definition replay_error_outcome :: "cmd_error \<Rightarrow> replay_outcome" where
  "replay_error_outcome err = \<lparr>ro_results = [], ro_rows = [], ro_error = Some err\<rparr>"

definition replay_env_of ::
  "('c, 'k, 'j, 'w) cmd_env \<Rightarrow> 'w ticker \<Rightarrow> ('c, 'k) transport
     \<Rightarrow> (cmd_error, 'w replay_source, 'w) replay_env" where
  "replay_env_of env tick t =
     \<lparr>rn_get = source_get tick, rn_client = ce_no_redirect env t, rn_tick = tick\<rparr>"

text \<open>The source of the sessions, then the client for the target (replay.go 64-72 and 121-128).\<close>

definition replay_setup ::
  "('c, 'k, 'j, 'w) cmd_env \<Rightarrow> string \<Rightarrow> string \<Rightarrow> tls_flags \<Rightarrow> config
     \<Rightarrow> ('w, cmd_error + 'w replay_source \<times> ('c, 'k) transport) io" where
  "replay_setup env socket cfg_path flags cfg w =
     (case replay_source_for env socket cfg_path flags w of
        (Inl err, w1) \<Rightarrow> (Inl err, w1)
      | (Inr src, w1) \<Rightarrow>
          (case http_client (ce_tls env) id (to_httpx (cfg_tls cfg)) w1 of
             (Inl err, w2) \<Rightarrow> (Inl (ReplayTls err), w2)
           | (Inr t, w2) \<Rightarrow> (Inr (src, t), w2)))"

definition run_corpus_cmd ::
  "('c, 'k, 'j, 'w) cmd_env \<Rightarrow> 'w ticker \<Rightarrow> string \<Rightarrow> tls_flags \<Rightarrow> config \<Rightarrow> replay_flags
     \<Rightarrow> ('w, replay_outcome) io" where
  "run_corpus_cmd env tick cfg_path flags cfg f w =
     (case load_corpus (ce_decoders env) (os_read_file (ce_os env)) (rf_corpus f) (rf_format f)
             (rf_include_unsafe f) w of
        (Inl err, w1) \<Rightarrow> (replay_error_outcome (CorpusFailed err), w1)
      | (Inr reqs, w1) \<Rightarrow>
          if reqs = [] then (replay_error_outcome (EmptyCorpus (rf_corpus f)), w1)
          else
            (case replay_setup env (rf_socket f) cfg_path flags cfg w1 of
               (Inl err, w2) \<Rightarrow> (replay_error_outcome err, w2)
             | (Inr (src, t), w2) \<Rightarrow>
                 (let ((rows, _), _, w3) =
                        run_corpus (replay_env_of env tick t) (rf_ids f) reqs (cfg_target cfg) src w2
                  in (\<lparr>ro_results = [], ro_rows = rows,
                       ro_error = (if corpus_fails rows then Some (AllRequestsFailed (length rows)) else None)\<rparr>,
                      w3))))"

definition replay_cmd ::
  "('c, 'k, 'j, 'w) cmd_env \<Rightarrow> 'w ticker \<Rightarrow> string \<Rightarrow> tls_flags \<Rightarrow> replay_flags
     \<Rightarrow> ('w, replay_outcome \<times> warning list) io" where
  "replay_cmd env tick cfg_path flags f w =
     (case load_config (ce_os env) cfg_path w of
        (Inl err, w1) \<Rightarrow> ((replay_error_outcome (ConfigFailed err), []), w1)
      | (Inr cfg0, w1) \<Rightarrow>
          (let cfg = apply_tls_flags flags cfg0;
               warns = warn_if_insecure cfg @ warn_if_plaintext_auth cfg;
               method = to_upper (trim_space (rf_method f))
           in if rf_ids f = [] then ((replay_error_outcome NoIdentityGiven, warns), w1)
              else if rf_corpus f \<noteq> [] then
                (if rf_path_changed f then ((replay_error_outcome CorpusWithPath, warns), w1)
                 else if rf_method_changed f then ((replay_error_outcome CorpusWithMethod, warns), w1)
                 else (case run_corpus_cmd env tick cfg_path flags cfg f w1 of (o1, w2) \<Rightarrow> ((o1, warns), w2)))
              else if \<not> has_prefix (rf_path f) ''/''
                then ((replay_error_outcome (PathWithoutSlash (rf_path f)), warns), w1)
              else
                (case replay_setup env (rf_socket f) cfg_path flags cfg w1 of
                   (Inl err, w2) \<Rightarrow> ((replay_error_outcome err, warns), w2)
                 | (Inr (src, t), w2) \<Rightarrow>
                     (let ((rs, _), _, w3) =
                            replay_run (replay_env_of env tick t) (rf_ids f) method
                              (trim_right (cfg_target cfg) ''/'' @ rf_path f) [] [] src w2
                      in ((\<lparr>ro_results = rs, ro_rows = [],
                            ro_error = (if replay_fails rs then Some (AllIdentitiesFailed (length rs)) else None)\<rparr>,
                           warns), w3)))))"

end
