(* ===== verification/Status.thy ===== *)
theory Status
  imports Cli
begin

text \<open>
  The commands \<open>status\<close> and \<open>watch\<close> (\<open>cmd/status.go\<close>): what is shown for an identity of what the
  daemon reported.  A cell with a duration is data here; \<open>round_second\<close> is the rounding the code
  applies before it prints one.
\<close>

datatype session_state = NoSession | LiveSession | ExpiringSession | ExpiredSession

definition minute :: duration where
  "minute = 60 * second"

definition derive_state :: "identity_status \<Rightarrow> gtime \<Rightarrow> session_state" where
  "derive_state s now =
     (if \<not> is_established s then NoSession
      else if is_expires_at s = [] then LiveSession
      else
        (case parse_rfc3339 (is_expires_at s) of
           None \<Rightarrow> LiveSession
         | Some e \<Rightarrow>
             (let d = time_sub e now in
              if d \<le> 0 then ExpiredSession else if d < minute then ExpiringSession else LiveSession)))"

definition state_text :: "session_state \<Rightarrow> string" where
  "state_text st =
     (case st of NoSession \<Rightarrow> ''no-session'' | LiveSession \<Rightarrow> ''live'' | ExpiringSession \<Rightarrow> ''expiring''
      | ExpiredSession \<Rightarrow> ''EXPIRED'')"

definition state_color :: "session_state \<Rightarrow> string" where
  "state_color st =
     CHR 0x1B # (case st of NoSession \<Rightarrow> ''[2m'' | LiveSession \<Rightarrow> ''[32m'' | ExpiringSession \<Rightarrow> ''[33m''
      | ExpiredSession \<Rightarrow> ''[31m'')"

definition color_reset :: string where
  "color_reset = CHR 0x1B # ''[0m''"

text \<open>\<open>Duration.Round(time.Second)\<close>: to the nearest second, halves away from zero, at 64 bits.\<close>

definition round_second :: "duration \<Rightarrow> duration" where
  "round_second d =
     (let r = \<bar>d\<bar> mod second;
          up = \<bar>d\<bar> - r + second;
          m = (if 2 * r < second then \<bar>d\<bar> - r else up)
      in if d < 0 then max (- (2 ^ 63)) (- m) else min (2 ^ 63 - 1) m)"

datatype time_cell =
    NoStamp
  | RawStamp string
  | PastExpiry
  | InFuture duration
  | Ago duration

definition rel_expiry :: "string \<Rightarrow> gtime \<Rightarrow> time_cell" where
  "rel_expiry rfc now =
     (if rfc = [] then NoStamp
      else
        (case parse_rfc3339 rfc of
           None \<Rightarrow> RawStamp rfc
         | Some t \<Rightarrow>
             (let d = time_sub t now in if d \<le> 0 then PastExpiry else InFuture (round_second d))))"

definition rel_past :: "string \<Rightarrow> gtime \<Rightarrow> time_cell" where
  "rel_past rfc now =
     (if rfc = [] then NoStamp
      else
        (case parse_rfc3339 rfc of
           None \<Rightarrow> RawStamp rfc | Some t \<Rightarrow> Ago (round_second (time_sub now t))))"

text \<open>A row of the table; the state cell is padded to twelve bytes before it is coloured.\<close>

record status_row =
  sr_name :: string
  sr_cell :: string
  sr_expires :: time_cell
  sr_last_refresh :: time_cell
  sr_last_error :: string

definition pad_right :: "nat \<Rightarrow> string \<Rightarrow> string" where
  "pad_right n s = s @ replicate (n - length s) (CHR '' '')"

definition status_row_of :: "gtime \<Rightarrow> bool \<Rightarrow> identity_status \<Rightarrow> status_row" where
  "status_row_of now color s =
     (let st = derive_state s now; cell = pad_right 12 (state_text st)
      in \<lparr>sr_name = is_name s,
          sr_cell = (if color then state_color st @ cell @ color_reset else cell),
          sr_expires = rel_expiry (is_expires_at s) now,
          sr_last_refresh = rel_past (is_last_refresh s) now,
          sr_last_error = (if is_last_error s = [] then ''-'' else is_last_error s)\<rparr>)"

definition render_status :: "identity_status list \<Rightarrow> gtime \<Rightarrow> bool \<Rightarrow> status_row list" where
  "render_status l now color = map (status_row_of now color) l"

section \<open>The commands\<close>

definition status_client ::
  "('c, 'k, 'j, 'w) cmd_env \<Rightarrow> string \<Rightarrow> 'w \<Rightarrow> cmd_error + (unit, 'w) channel" where
  "status_client env flag w =
     (case attach_client env flag w of
        Inl err \<Rightarrow> Inl err
      | Inr (Some ch, _) \<Rightarrow> Inr ch
      | Inr (None, path) \<Rightarrow> Inl (NoDaemon path))"

definition status_cmd ::
  "('c, 'k, 'j, 'w) cmd_env \<Rightarrow> 'w ticker \<Rightarrow> string \<Rightarrow> bool \<Rightarrow> ('w, cmd_error + status_row list) io" where
  "status_cmd env tick flag no_color w =
     (case status_client env flag w of
        Inl err \<Rightarrow> (Inl err, w)
      | Inr ch \<Rightarrow>
          (case over_socket (client_status ch () w) of
             (Inl err, w1) \<Rightarrow> (Inl err, w1)
           | (Inr l, w1) \<Rightarrow> (let (now, w2) = tick w1 in (Inr (render_status l now (\<not> no_color)), w2))))"

text \<open>One drawing of \<open>watch\<close>: the clock is read for the heading, then for the table.\<close>

definition watch_draw ::
  "(unit, 'w) channel \<Rightarrow> 'w ticker \<Rightarrow> ('w, gtime \<times> (cmd_error + status_row list)) io" where
  "watch_draw ch tick w =
     (let (t, w1) = tick w in
      case over_socket (client_status ch () w1) of
        (Inl err, w2) \<Rightarrow> ((t, Inl err), w2)
      | (Inr l, w2) \<Rightarrow> (let (now, w3) = tick w2 in ((t, Inr (render_status l now True)), w3)))"

text \<open>\<open>watch\<close> draws once, then at each of the \<open>n\<close> ticks that come before the interrupt.\<close>

fun watch_ticks ::
  "(unit, 'w) channel \<Rightarrow> 'w ticker \<Rightarrow> nat \<Rightarrow> ('w, (gtime \<times> (cmd_error + status_row list)) list) io" where
  "watch_ticks ch tick 0 w = ([], w)"
| "watch_ticks ch tick (Suc n) w =
     (let (f, w1) = watch_draw ch tick w; (fs, w2) = watch_ticks ch tick n w1 in (f # fs, w2))"

text \<open>
  How \<open>watch\<close> ends: by the interrupt, or in the panic of \<open>time.NewTicker\<close>, which refuses an
  interval that is not positive after the first drawing.
\<close>

datatype watch_end = Interrupted | TickerPanic

definition watch_cmd ::
  "('c, 'k, 'j, 'w) cmd_env \<Rightarrow> 'w ticker \<Rightarrow> string \<Rightarrow> duration \<Rightarrow> nat
     \<Rightarrow> ('w, cmd_error + (gtime \<times> (cmd_error + status_row list)) list \<times> watch_end) io" where
  "watch_cmd env tick flag interval n w =
     (case status_client env flag w of
        Inl err \<Rightarrow> (Inl err, w)
      | Inr ch \<Rightarrow>
          (case watch_draw ch tick w of
             (f, w1) \<Rightarrow>
               if interval \<le> 0 then (Inr ([f], TickerPanic), w1)
               else (case watch_ticks ch tick n w1 of (fs, w2) \<Rightarrow> (Inr (f # fs, Interrupted), w2))))"

text \<open>The flag \<open>--interval\<close> is not checked: zero ends the command in a panic.\<close>

lemma watch_zero_panics:
  "status_client env flag w = Inr ch \<Longrightarrow>
   \<exists>f w1. watch_cmd env tick flag 0 n w = (Inr ([f], TickerPanic), w1)"
  by (auto simp: watch_cmd_def split: prod.split)

end
