(* ===== verification/Attach_Properties.thy ===== *)
theory Attach_Properties
  imports Replay Status Samples
begin

text \<open>
  What a command gets when it attaches to a running daemon, what replay sends under each identity,
  and what the status table says of a session.
\<close>

section \<open>Credentials over the control socket\<close>

text \<open>C16: A command that attaches to the daemon injects exactly what the daemon would: the session it
  reads over the control socket is the identity's, and applying it to any request gives the same
  headers as applying the daemon's own session, cookies, token and anti-CSRF value included.\<close>

theorem creds_roundtrip:
  assumes "store_ok st" and "wire_name i" and "store_get tick i st w = (Inr s, st', w')"
    and "valid_creds (creds_of_session s)"
  shows "\<exists>s'. client_creds (daemon_channel tick show_err) i st w = (Inr s', st', w') \<and>
    s_identity s' = i \<and> apply_header s' = apply_header s"
proof -
  have own: "session_ok i s" using store_get_ok(2) [OF assms(3,1) refl] .
  then have "s_headers s = []" by (simp add: session_ok_def)
  then have sent: "sent_creds (creds_of_session s) = creds_of_session s"
    by (rule sent_creds_valid [OF assms(4), unfolded creds_of_session_simps])
  have "plain_name i" using assms(2) by (simp add: wire_name_def)
  from client_creds_eq [OF this assms(1), of tick show_err w] assms(3) sent
  have "client_creds (daemon_channel tick show_err) i st w = (Inr (session_of_creds (creds_of_session s)), st', w')"
    by simp
  with own show ?thesis
    by (simp add: session_ok_def apply_session_of_creds fun_eq_iff)
qed

lemma sample_get:
  "store_get sample_clock ''ada'' (sample_store (sample_entry ''ada'' True (sample_session ''ada'' 0))) 0
     = (Inr (sample_session ''ada'' 0), sample_store (sample_entry ''ada'' True (sample_session ''ada'' 0)), 1)"
proof -
  let ?e = "sample_entry ''ada'' True (sample_session ''ada'' 0)"
  have "put_entry ''ada'' ?e (sample_store ?e) = sample_store ?e"
    by (simp add: put_entry_def sample_store_def)
  then show ?thesis
    by (simp add: store_get_def get_entry_def check_live_def snapshot_def sample_clock_def expired_def)
qed

theorem creds_roundtrip_witness:
  "\<exists>s' st' w'. client_creds (daemon_channel sample_clock (\<lambda>_. ''error'')) ''ada''
      (sample_store (sample_entry ''ada'' True (sample_session ''ada'' 0))) 0 = (Inr s', st', w') \<and>
    hvalues (apply_header s' []) ''Authorization'' = [''Bearer token'']"
proof -
  let ?s = "sample_session ''ada'' 0"
  have name: "wire_name ''ada''" by code_simp
  have v: "valid_creds (creds_of_session ?s)" by code_simp
  from creds_roundtrip [OF sample_store_ok name sample_get v] obtain s' st' w' where
    "client_creds (daemon_channel sample_clock (\<lambda>_. ''error'')) ''ada''
      (sample_store (sample_entry ''ada'' True ?s)) 0 = (Inr s', st', w')" "apply_header s' = apply_header ?s"
    by fastforce
  moreover have "hvalues (apply_header ?s []) ''Authorization'' = [''Bearer token'']" by code_simp
  ultimately show ?thesis by metis
qed

section \<open>Replay\<close>


definition replay_client :: "nat client" where
  "replay_client q w = (Inr \<lparr>rs_status = 200, rs_header = [], rs_cookies = [], rs_body = ''ok'', rs_read_error = None\<rparr>, Suc w)"


text \<open>C21: A HAR capture leaks no credentials into the baseline: for a request loaded from a HAR file,
  what replay sends as \<open>anon\<close> carries no cookie, no authorization and no anti-CSRF header, whatever
  the capture contained.\<close>

theorem har_anonymous_clean:
  assumes "load_har decode data = Inr reqs" and "q \<in> set reqs"
    and "replay_run env [''anon''] (q_method q) url (q_header q) (q_body q) st w = ((rs, ts), st', w')"
    and "(i, req) \<in> set ts"
    and "k \<in> {''Cookie'', ''Authorization'', ''Proxy-Authorization'', ''X-CSRF-Token''}"
  shows "hvalues (rq_header req) k = []"
proof -
  from assms(1) obtain es where "har_requests es = Inr reqs"
    by (auto simp: load_har_def split: sum.splits)
  from har_requests_some [OF this assms(2)] obtain e u where "q = har_request e u" by blast
  then have q: "q_header q = har_header (he_headers e)" by (simp add: har_request_def)
  obtain r t st1 w1 where one:
    "replay_one env (q_method q) url (q_header q) (q_body q) ''anon'' st w = ((r, t), st1, w1)"
    by (metis prod.collapse)
  from assms(3,4) one have "(i, req) \<in> set t" by auto
  with one obtain "base_request (q_method q) url (q_header q) (q_body q) = Inr req"
    by (cases rule: replay_one_cases) auto
  from base_request_some(3) [OF this] q have h: "rq_header req = hadd_all [] (har_header (he_headers e))"
    by simp
  have dropped: "canonical_key k \<in> set har_drop_headers"
    using assms(5) by (auto simp: har_drop_headers_def)
  have none: "canonical_key (fst p) \<noteq> canonical_key k" if p: "p \<in> set (har_header (he_headers e))" for p
  proof -
    from har_header_entry [OF p] obtain j where "fst p = canonical_key j" "har_keeps j" by blast
    with dropped show ?thesis by (auto simp: har_keeps_def)
  qed
  then have "filter (\<lambda>(j, _). canonical_key j = canonical_key k) (har_header (he_headers e)) = []"
    by (auto simp: filter_empty_conv)
  then show ?thesis by (simp add: h hvalues_hadd_all)
qed

definition sample_har :: "har_entry list" where
  "sample_har = [\<lparr>he_method = ''get'', he_url = ''https://target/a?b=1'',
     he_headers = [(''cookie'', ''sid=1''), ('':method'', ''GET''), (''Accept'', ''*'')], he_post_data = None\<rparr>]"

definition sample_har_request :: corpus_request where
  "sample_har_request = \<lparr>q_method = ''GET'', q_path = ''/a?b=1'', q_header = [(''Accept'', [''*''])], q_body = []\<rparr>"

theorem har_anonymous_clean_witness:
  "\<exists>rs req st' w'. replay_run \<lparr>rn_get = store_get sample_clock, rn_client = replay_client, rn_tick = sample_clock\<rparr>
      [''anon''] ''GET'' ''http://target/a?b=1'' [(''Accept'', [''*''])] []
      (sample_store (sample_entry ''ada'' True (sample_session ''ada'' 0))) 0 = ((rs, [(''anon'', req)]), st', w') \<and>
    hvalues (rq_header req) ''Cookie'' = []"
proof -
  let ?st = "sample_store (sample_entry ''ada'' True (sample_session ''ada'' 0))"
  let ?env = "\<lparr>rn_get = store_get sample_clock, rn_client = replay_client, rn_tick = sample_clock\<rparr>"
  let ?q = sample_har_request
  have load: "load_har (\<lambda>_. Inr sample_har) [] = Inr [?q]" by code_simp
  have "\<not> isl (base_request ''GET'' ''http://target/a?b=1'' [(''Accept'', [''*''])] [])" by code_simp
  then obtain req where "base_request ''GET'' ''http://target/a?b=1'' [(''Accept'', [''*''])] [] = Inr req"
    by (blast dest: not_isl_Inr)
  then have "\<exists>rs w'. replay_run ?env [''anon''] (q_method ?q) ''http://target/a?b=1'' (q_header ?q) (q_body ?q) ?st 0
      = ((rs, [(''anon'', req)]), ?st, w')"
    by (simp add: replay_one_def sample_har_request_def case_prod_beta)
  then obtain rs w' where run: "replay_run ?env [''anon''] (q_method ?q) ''http://target/a?b=1'' (q_header ?q) (q_body ?q) ?st 0
      = ((rs, [(''anon'', req)]), ?st, w')" by blast
  from har_anonymous_clean [OF load _ run, of "''anon''" req "''Cookie''"] run
  show ?thesis by (auto simp: sample_har_request_def)
qed

section \<open>Reading the matrix\<close>

lemma differ_from_iff:
  assumes "first \<noteq> -1"
  shows "differ_from first rs \<longleftrightarrow> (\<exists>r \<in> set rs. \<not> is_failure r \<and> res_status r \<noteq> first)"
  using assms by (induction rs) auto

text \<open>The marker of a row is exact: statuses differ if and only if two identities that got an
  answer got different statuses; failed rows never count.\<close>

theorem statuses_differ_exact:
  assumes "\<forall>r \<in> set rs. 0 \<le> res_status r"
  shows "statuses_differ rs \<longleftrightarrow> (\<exists>a \<in> set rs. \<exists>b \<in> set rs.
    \<not> is_failure a \<and> \<not> is_failure b \<and> res_status a \<noteq> res_status b)"
  using assms
proof (induction rs)
  case (Cons r rs)
  show ?case
  proof (cases "is_failure r")
    case True
    with Cons show ?thesis by (auto simp: statuses_differ_def)
  next
    case False
    with Cons.prems have "statuses_differ (r # rs) = differ_from (res_status r) rs"
      "res_status r \<noteq> -1" by (auto simp: statuses_differ_def)
    with differ_from_iff [of "res_status r" rs] False show ?thesis by (auto; metis)
  qed
qed (simp add: statuses_differ_def)

definition row_result :: "string \<Rightarrow> int \<Rightarrow> gerror replay_result" where
  "row_result i n = \<lparr>res_identity = i, res_status = n, res_size = 0, res_duration = 0, res_body = [], res_err = None\<rparr>"

theorem statuses_differ_exact_witness:
  "statuses_differ [row_result ''ada'' 200, row_result ''anon'' 401]"
proof -
  have s: "\<forall>r \<in> set [row_result ''ada'' 200, row_result ''anon'' 401]. 0 \<le> res_status r"
    by (simp add: row_result_def)
  show ?thesis
    using statuses_differ_exact [OF s] by (simp add: row_result_def is_failure_def)
qed

section \<open>OpenAPI documents\<close>

lemma inj_request_order: "inj_on request_order (range path_request)"
  by (auto simp: inj_on_def request_order_def path_request_def)

definition spec_requests :: "bool \<Rightarrow> openapi_spec \<Rightarrow> corpus_request list" where
  "spec_requests u spec =
     concat (map (\<lambda>(path, ops).
       map (\<lambda>m. path_request (path, m)) (filter (admitted_method u) (map to_upper ops))) spec)"

lemma spec_requests_mset:
  "mset (spec_requests u spec) =
     sum_mset (image_mset (\<lambda>(path, ops).
       image_mset (\<lambda>m. path_request (path, m)) (filter_mset (admitted_method u) (image_mset to_upper ops)))
       (mset (map (\<lambda>(path, ops). (path, mset ops)) spec)))"
  by (induction spec) (auto simp: spec_requests_def mset_filter)

text \<open>The corpus read from an OpenAPI document does not depend on the order in which Go visits
  the maps it was decoded into: two visits of the same paths and methods give the same requests in
  the same order.\<close>

theorem openapi_order_independent:
  assumes "mset (map (\<lambda>(path, ops). (path, mset ops)) spec)
         = mset (map (\<lambda>(path, ops). (path, mset ops)) spec')"
  shows "openapi_requests u spec = openapi_requests u spec'"
proof -
  have "mset (spec_requests u spec) = mset (spec_requests u spec')"
    by (simp only: spec_requests_mset assms)
  moreover have "inj_on request_order (set (spec_requests u spec))"
    by (rule inj_on_subset [OF inj_request_order]) (auto simp: spec_requests_def)
  ultimately show ?thesis
    unfolding openapi_requests_def spec_requests_def [symmetric] by (rule sort_key_forgets_order)
qed

theorem openapi_order_independent_witness:
  "openapi_requests False [(''/b'', [''get'']), (''/a'', [''head'', ''get''])]
     = openapi_requests False [(''/a'', [''get'', ''head'']), (''/b'', [''get''])]"
  by (rule openapi_order_independent) (simp add: add_mset_commute)

text \<open>A path of an OpenAPI document is appended to the target without a check: a path that begins
  with an at sign makes the target's host the user name of another host, and the request, session
  included, goes there.\<close>

theorem openapi_path_changes_host:
  "openapi_requests False [(''@evil.example/x'', [''get''])] = [path_request (''@evil.example/x'', ''GET'')] \<and>
   (\<exists>req. base_request ''GET'' (trim_right ''http://target/'' ''/'' @ ''@evil.example/x'') [] [] = Inr req \<and>
     u_host (rq_url req) = ''evil.example'')"
proof -
  have a: "openapi_requests False [(''@evil.example/x'', [''get''])] = [path_request (''@evil.example/x'', ''GET'')]"
    by code_simp
  let ?r = "base_request ''GET'' (trim_right ''http://target/'' ''/'' @ ''@evil.example/x'') [] []"
  have "(case ?r of Inl _ \<Rightarrow> [] | Inr req \<Rightarrow> u_host (rq_url req)) = ''evil.example''" by code_simp
  then have "\<exists>req. ?r = Inr req \<and> u_host (rq_url req) = ''evil.example''" by (cases ?r) auto
  with a show ?thesis by blast
qed

section \<open>The status table\<close>







end
