(* ===== verification/Token_Flight.thy ===== *)
theory Token_Flight
  imports Gateway
begin

text \<open>
  The anti-CSRF cache of \<open>internal/gateway\<close> under concurrency: any number of goroutines serve
  requests of one identity at the same time.  A step is one critical section under \<open>csrfMu\<close> (the
  look-up and the store of \<open>csrfTokenFor\<close>, the deletion of \<open>invalidateCSRF\<close>), one call of the store, or
  the answer to a fetch; between two steps any other goroutine may run.  Theory \<open>Gateway\<close> composes
  the same steps for a goroutine that runs alone.

  Clock readings, answers and the failures of the store and of the client are arbitrary.  Of the
  store's session only the address counts: a renewal puts a session of a new address in place.  The
  fields \<open>k_origin\<close>, \<open>k_late\<close> and \<open>k_silent\<close> record the history of the cached token; no step reads
  them.
\<close>

section \<open>State\<close>

text \<open>
  Where a goroutine is: outside, after a miss of the cache, with the session of an address applied to
  its request, with the token of its answer, or between \<open>Refresh\<close> and \<open>invalidateCSRF\<close>.
\<close>

datatype token_pc =
    Outside
  | Missed
  | Fetching nat
  | Fetched nat string
  | Reauthed
  | Got string

record token_flight =
  k_cache :: "cached_token option"
  k_session :: nat
  k_pc :: "nat \<Rightarrow> token_pc"
  k_origin :: nat
  k_late :: bool
  k_silent :: bool

definition token_init :: token_flight where
  "token_init = \<lparr>k_cache = None, k_session = 0, k_pc = (\<lambda>_. Outside), k_origin = 0, k_late = False,
     k_silent = False\<rparr>"

definition at_pc :: "nat \<Rightarrow> token_pc \<Rightarrow> token_flight \<Rightarrow> token_flight" where
  "at_pc i p s = s\<lparr>k_pc := (k_pc s)(i := p)\<rparr>"

definition cache_hit :: "token_flight \<Rightarrow> gtime \<Rightarrow> string \<Rightarrow> bool" where
  "cache_hit s now tok \<longleftrightarrow>
     (\<exists>ct. k_cache s = Some ct \<and> time_sub now (ct_at ct) < csrf_ttl \<and> ct_value ct = tok)"

text \<open>The store at line 397, with the history of what is stored.\<close>

definition put_token :: "nat \<Rightarrow> string \<Rightarrow> gtime \<Rightarrow> token_flight \<Rightarrow> token_flight" where
  "put_token a tok now s =
     s\<lparr>k_cache := Some \<lparr>ct_value = tok, ct_at = now\<rparr>, k_origin := a, k_late := (a \<noteq> k_session s),
       k_silent := False\<rparr>"

section \<open>Steps\<close>

inductive token_step :: "token_flight \<Rightarrow> token_flight \<Rightarrow> bool" where
  hit: "k_pc s i = Outside \<Longrightarrow> cache_hit s now tok \<Longrightarrow> token_step s (at_pc i (Got tok) s)"
| miss: "k_pc s i = Outside \<Longrightarrow> \<not> (\<exists>tok. cache_hit s now tok) \<Longrightarrow> token_step s (at_pc i Missed s)"
| take_session: "k_pc s i = Missed \<Longrightarrow> token_step s (at_pc i (Fetching (k_session s)) s)"
| answer: "k_pc s i = Fetching a \<Longrightarrow> token_step s (at_pc i (Fetched a tok) s)"
| fill: "k_pc s i = Fetched a tok \<Longrightarrow> token_step s (at_pc i (Got tok) (put_token a tok now s))"
| give_up: "k_pc s i = Missed \<or> k_pc s i = Fetching a \<Longrightarrow> token_step s (at_pc i Outside s)"
| reauth: "k_pc s i = Outside \<Longrightarrow>
    token_step s (at_pc i Reauthed (s\<lparr>k_session := Suc (k_session s)\<rparr>))"
| invalidate: "k_pc s i = Reauthed \<Longrightarrow>
    token_step s (at_pc i Outside (s\<lparr>k_cache := None, k_late := False, k_silent := False\<rparr>))"
| renew: "token_step s (s\<lparr>k_session := Suc (k_session s), k_silent := True\<rparr>)"
| leave: "k_pc s i = Got tok \<Longrightarrow> token_step s (at_pc i Outside s)"

inductive token_reachable :: "token_flight \<Rightarrow> bool" where
  start: "token_reachable token_init"
| step: "token_reachable s \<Longrightarrow> token_step s t \<Longrightarrow> token_reachable t"

inductive_cases token_stepE: "token_step s t"

lemma at_pc_simps [simp]:
  "k_cache (at_pc i p s) = k_cache s" "k_session (at_pc i p s) = k_session s"
  "k_origin (at_pc i p s) = k_origin s" "k_late (at_pc i p s) = k_late s"
  "k_silent (at_pc i p s) = k_silent s" "k_pc (at_pc i p s) j = (if j = i then p else k_pc s j)"
  by (simp_all add: at_pc_def)

lemma put_token_simps [simp]:
  "k_cache (put_token a tok now s) = Some \<lparr>ct_value = tok, ct_at = now\<rparr>"
  "k_session (put_token a tok now s) = k_session s" "k_origin (put_token a tok now s) = a"
  "k_late (put_token a tok now s) = (a \<noteq> k_session s)" "k_silent (put_token a tok now s) = False"
  "k_pc (put_token a tok now s) = k_pc s"
  by (simp_all add: put_token_def)

section \<open>The sessions of tokens\<close>

text \<open>
  A cached token belongs to the session that is in place, or its deletion is pending, or it was stored
  after its session had been replaced, or a renewal that drops no token has happened since.
\<close>

definition token_inv :: "token_flight \<Rightarrow> bool" where
  "token_inv s \<longleftrightarrow>
     k_cache s = None \<or> k_origin s = k_session s \<or> (\<exists>i. k_pc s i = Reauthed) \<or> k_late s \<or> k_silent s"

lemma token_inv_at:
  "token_inv s \<Longrightarrow> k_pc s i \<noteq> Reauthed \<Longrightarrow> token_inv (at_pc i p s)"
  unfolding token_inv_def by (metis at_pc_simps)

lemma token_inv_step:
  assumes "token_step s t" and "token_inv s"
  shows "token_inv t"
  using assms
proof (induction rule: token_step.induct)
  case (fill s i a tok now)
  then show ?case by (cases "a = k_session s") (simp_all add: token_inv_def)
next
  case (reauth s i)
  have "k_pc (at_pc i Reauthed (s\<lparr>k_session := Suc (k_session s)\<rparr>)) i = Reauthed" by simp
  then show ?case unfolding token_inv_def by blast
next
  case (give_up s i a)
  then show ?case by (auto intro!: token_inv_at)
qed (simp_all add: token_inv_at, simp_all add: token_inv_def)

lemma reachable_token_inv: "token_reachable s \<Longrightarrow> token_inv s"
proof (induction rule: token_reachable.induct)
  case start
  show ?case by (simp add: token_inv_def token_init_def)
next
  case (step s t)
  then show ?case by (blast intro: token_inv_step)
qed

section \<open>A late store\<close>

text \<open>
  Goroutine 1 takes session 0 and gets the token \<open>tok\<close>; goroutine 0 renews the session and drops the
  cache; then goroutine 1 stores its token at \<open>now\<close>, and both are done.
\<close>

definition late_state :: "string \<Rightarrow> gtime \<Rightarrow> token_flight" where
  "late_state tok now = \<lparr>k_cache = Some \<lparr>ct_value = tok, ct_at = now\<rparr>, k_session = 1, k_pc = (\<lambda>_. Outside),
     k_origin = 0, k_late = True, k_silent = False\<rparr>"

lemma late_reachable: "token_reachable (late_state tok now)"
proof -
  let ?s1 = "at_pc 1 Missed token_init"
  let ?s2 = "at_pc 1 (Fetching (k_session ?s1)) ?s1"
  let ?s3 = "at_pc 1 (Fetched 0 tok) ?s2"
  let ?s4 = "at_pc 0 Reauthed (?s3\<lparr>k_session := Suc (k_session ?s3)\<rparr>)"
  let ?s5 = "at_pc 0 Outside (?s4\<lparr>k_cache := None, k_late := False, k_silent := False\<rparr>)"
  let ?s6 = "at_pc 1 (Got tok) (put_token 0 tok now ?s5)"
  let ?s7 = "at_pc 1 Outside ?s6"
  have "token_reachable ?s1"
    by (rule token_reachable.step [OF start token_step.miss]) (simp_all add: token_init_def cache_hit_def)
  then have "token_reachable ?s2" by (rule token_reachable.step) (rule take_session, simp)
  then have "token_reachable ?s3"
    by (rule token_reachable.step) (rule answer [where a = 0], simp add: token_init_def)
  then have "token_reachable ?s4" by (rule token_reachable.step) (rule token_step.reauth, simp add: token_init_def)
  then have "token_reachable ?s5" by (rule token_reachable.step) (rule invalidate, simp)
  then have "token_reachable ?s6" by (rule token_reachable.step) (rule fill, simp)
  then have "token_reachable ?s7" by (rule token_reachable.step) (rule leave, simp)
  moreover have "?s7 = late_state tok now"
    by (simp add: late_state_def token_init_def at_pc_def put_token_def fun_eq_iff)
  ultimately show ?thesis by simp
qed

end
