(* ===== verification/Token_Properties.thy ===== *)
theory Token_Properties
  imports Token_Flight Gateway_Facts
begin

text \<open>
  What concurrent requests do to the anti-CSRF cache: \<open>csrf_token_for\<close> is a run of the concurrent
  model, where a cached token can come from, and the race between a fetch and a renewal.
\<close>

section \<open>The sequential token fetch\<close>

lemma step_star: "token_step\<^sup>*\<^sup>* s t \<Longrightarrow> token_step t u \<Longrightarrow> token_step\<^sup>*\<^sup>* s u"
  by (rule rtranclp.rtrancl_into_rtrancl)

text \<open>A goroutine that runs alone through \<open>csrf_token_for\<close> makes steps of the concurrent model.\<close>

lemma csrf_token_run:
  assumes "csrf_token_for tick i pol g w = (Inr tok, g', w')"
    and "k_pc s j = Outside" and "k_cache s = map_of (g_csrf_cache g) i"
  shows "\<exists>t. token_step\<^sup>*\<^sup>* s t \<and> k_pc t j = Got tok \<and> k_cache t = map_of (g_csrf_cache g') i \<and>
    (\<forall>k. k \<noteq> j \<longrightarrow> k_pc t k = k_pc s k)"
proof -
  obtain fresh w1 where f: "cache_fresh tick (map_of (g_csrf_cache g) i) w = (fresh, w1)" by fastforce
  show ?thesis
  proof (cases fresh)
    case True
    with f obtain ct where ct: "map_of (g_csrf_cache g) i = Some ct" "time_sub (fst (tick w)) (ct_at ct) < csrf_ttl"
      by (auto simp: cache_fresh_def Let_def split: option.splits prod.splits)
    with f True assms(1) have r: "ct_value ct = tok" "g' = g" by (simp_all add: csrf_token_for_def)
    have "cache_hit s (fst (tick w)) tok" using ct r assms(3) by (simp add: cache_hit_def)
    from token_step.hit [OF assms(2) this] r assms(3) show ?thesis
      by (intro exI [of _ "at_pc j (Got tok) s"]) auto
  next
    case False
    have stale: "\<not> (\<exists>v. cache_hit s (fst (tick w)) v)"
      using f False assms(3) by (auto simp: cache_hit_def cache_fresh_def Let_def split: prod.splits)
    obtain y g2 w2 where y: "fetch_csrf tick i pol g w1 = (y, g2, w2)" by (metis prod_cases3)
    obtain now w3 where now: "tick w2 = (now, w3)" by fastforce
    have g': "y = Inr tok" "g' = g2\<lparr>g_csrf_cache := AList.update i \<lparr>ct_value = tok, ct_at = now\<rparr> (g_csrf_cache g2)\<rparr>"
      using assms(1) f False y now by (auto simp: csrf_token_for_def split: sum.splits)
    let ?a = "k_session s"
    let ?s1 = "at_pc j Missed s"
    let ?s2 = "at_pc j (Fetching ?a) ?s1"
    let ?s3 = "at_pc j (Fetched ?a tok) ?s2"
    let ?s4 = "at_pc j (Got tok) (put_token ?a tok now ?s3)"
    have "token_step\<^sup>*\<^sup>* s ?s1" using token_step.miss [OF assms(2) stale] by (rule r_into_rtranclp)
    then have "token_step\<^sup>*\<^sup>* s ?s2" by (rule step_star) (use take_session [of ?s1 j] in simp)
    then have "token_step\<^sup>*\<^sup>* s ?s3" by (rule step_star) (rule answer, simp)
    then have "token_step\<^sup>*\<^sup>* s ?s4" by (rule step_star) (rule fill, simp)
    then show ?thesis using g'(2) by (intro exI [of _ ?s4]) (simp add: AList.update_conv')
  qed
qed

section \<open>Where a cached token comes from\<close>

text \<open>C26: Among any number of concurrent requests for an identity, a token stays in the cache past the
  session it was fetched with in three ways only: the goroutine that renewed the session has not dropped
  the token yet, the token was stored after its session had already been replaced, or the session was
  renewed by \<open>Get\<close> or by the proactive refresh, which drop no token.\<close>

theorem cached_token_sources:
  assumes "token_reachable s" and "k_cache s = Some ct" and "k_origin s \<noteq> k_session s"
  shows "(\<exists>i. k_pc s i = Reauthed) \<or> k_late s \<or> k_silent s"
  using reachable_token_inv [OF assms(1)] assms(2,3) by (simp add: token_inv_def)

theorem cached_token_sources_witness: "k_late (late_state ''tok'' 5) \<or> k_silent (late_state ''tok'' 5)"
  using cached_token_sources [OF late_reachable [of "''tok''" 5]] by (simp add: late_state_def)

text \<open>C40: A renewal after a logout signal can lose the race against a fetch: there is an execution in
  which the session is renewed, the cached token is dropped, and a goroutine that fetched its token with
  the dead session stores it afterwards; then no goroutine is under way any more, and for 30 seconds
  every request for the identity gets the dead session's token.\<close>

theorem late_token_survives_reauth:
  "\<exists>s. token_reachable s \<and> (\<forall>i. k_pc s i = Outside) \<and> \<not> k_silent s \<and> k_origin s \<noteq> k_session s \<and>
     (\<forall>now v. cache_hit s now v \<longleftrightarrow> v = tok \<and> time_sub now t < csrf_ttl)"
  using late_reachable [of tok t]
  by (intro exI [of _ "late_state tok t"]) (auto simp: late_state_def cache_hit_def)

end
