(* ===== verification/Go_Server.thy ===== *)
theory Go_Server
  imports Control Http_Recipes
begin

text \<open>
  The server's side of \<open>net/http\<close>, as far as the repository's own test servers use it: form values and
  cookies of a request, cookies of a response, \<open>http.Error\<close>, decimal numbers, and the routing of
  \<open>http.ServeMux\<close> by patterns with a method and wildcards.  Multipart forms are not read.
\<close>

section \<open>Numbers\<close>

fun decimal :: "nat \<Rightarrow> string" where
  "decimal n = (if n < 10 then [digit_char n] else decimal (n div 10) @ [digit_char (n mod 10)])"

declare decimal.simps [simp del]

section \<open>Reading requests\<close>

text \<open>\<open>url.ParseQuery\<close>: the pairs that can be read, in order.\<close>

definition parse_query :: "string \<Rightarrow> (string \<times> string) list" where
  "parse_query s =
     List.map_filter (\<lambda>seg. if seg = [] \<or> CHR '';'' \<in> set seg then None else parse_pair seg)
       (split_on (CHR ''&'') s)"

definition trim_string :: "string \<Rightarrow> string" where
  "trim_string s = trim s [CHR '' '', CHR 0x09, CHR 0x0A, CHR 0x0D]"

text \<open>\<open>Request.FormValue\<close>: the first value, of the body's before the query's.\<close>

definition has_form :: "request \<Rightarrow> bool" where
  "has_form q \<longleftrightarrow>
     rq_method q \<in> {''POST'', ''PUT'', ''PATCH''} \<and>
     to_lower (trim_space (fst (cut (CHR '';'') (hget (rq_header q) ''Content-Type'')))) = form_content_type"

definition form_value :: "request \<Rightarrow> string \<Rightarrow> string" where
  "form_value q k =
     (case map_of ((if has_form q then parse_query (rq_body q) else []) @ parse_query (u_raw_query (rq_url q))) k of
        None \<Rightarrow> [] | Some v \<Rightarrow> v)"

text \<open>Cookies as \<open>net/http\<close> reads them, from a \<open>Cookie\<close> line and from a \<open>Set-Cookie\<close> line.\<close>

definition cookie_value :: "string \<Rightarrow> string option" where
  "cookie_value raw =
     (let v = (if 1 < length raw \<and> hd raw = CHR 0x22 \<and> last raw = CHR 0x22 then butlast (tl raw) else raw)
      in if list_all valid_cookie_byte v then Some v else None)"

definition read_pair :: "string \<Rightarrow> (string \<times> string) option" where
  "read_pair part =
     (let (n, v) = cut (CHR ''='') part; name = trim_string n in
      if name = [] \<or> \<not> list_all token_byte name then None
      else map_option (Pair name) (cookie_value (case v of None \<Rightarrow> [] | Some x \<Rightarrow> x)))"

definition request_cookie :: "header \<Rightarrow> string \<Rightarrow> string option" where
  "request_cookie h name =
     map_of (List.map_filter (\<lambda>part. if part = [] then None else read_pair part)
       (map trim_string (concat (map (split_on (CHR '';'')) (hvalues h ''Cookie''))))) name"

definition cookie_attribute :: "cookie \<Rightarrow> string \<Rightarrow> cookie" where
  "cookie_attribute c part =
     (let (k, v) = cut (CHR ''='') (trim_string part); val = (case v of None \<Rightarrow> [] | Some x \<Rightarrow> x) in
      if \<not> list_all valid_cookie_byte val then c
      else if to_lower k = ''domain'' then c\<lparr>c_domain := val\<rparr>
      else if to_lower k = ''path'' then c\<lparr>c_path := val\<rparr>
      else c)"

definition set_cookie :: "string \<Rightarrow> cookie option" where
  "set_cookie line =
     (case map trim_string (split_on (CHR '';'') line) of
        [] \<Rightarrow> None
      | part # attrs \<Rightarrow>
          if CHR ''='' \<notin> set part then None
          else
            map_option (\<lambda>(n, v). foldl cookie_attribute \<lparr>c_name = n, c_value = v, c_domain = [], c_path = []\<rparr> attrs)
              (read_pair part))"

section \<open>Replies\<close>

definition server_reply :: "int \<Rightarrow> header \<Rightarrow> string \<Rightarrow> response" where
  "server_reply status h body =
     \<lparr>rs_status = status, rs_header = h, rs_cookies = List.map_filter set_cookie (hvalues h ''Set-Cookie''),
      rs_body = body, rs_read_error = None\<rparr>"

definition http_error :: "string \<Rightarrow> int \<Rightarrow> response" where
  "http_error msg status =
     server_reply status [(''Content-Type'', [''text/plain; charset=utf-8'']), (''X-Content-Type-Options'', [''nosniff''])]
       (msg @ [CHR 0x0A])"

text \<open>\<open>html.EscapeString\<close>.\<close>

definition html_escape :: "string \<Rightarrow> string" where
  "html_escape s = concat (map (\<lambda>c.
     if c = CHR ''&'' then ''&amp;'' else if c = CHR 0x27 then ''&#39;'' else if c = CHR ''<'' then ''&lt;''
     else if c = CHR ''>'' then ''&gt;'' else if c = CHR 0x22 then ''&#34;'' else [c]) s)"

text \<open>\<open>URL.Query().Get\<close>.\<close>

definition query_value :: "request \<Rightarrow> string \<Rightarrow> string" where
  "query_value q k = (case map_of (parse_query (u_raw_query (rq_url q))) k of None \<Rightarrow> [] | Some v \<Rightarrow> v)"

text \<open>\<open>http.Redirect\<close> to a clean path: a GET or HEAD gets a link as its body.\<close>

definition redirect_reply :: "request \<Rightarrow> int \<Rightarrow> string \<Rightarrow> string \<Rightarrow> response" where
  "redirect_reply q status status_text url =
     (if rq_method q \<in> {''GET'', ''HEAD''}
      then server_reply status [(''Location'', [url]), (''Content-Type'', [''text/html; charset=utf-8''])]
             (''<a href='' @ CHR 0x22 # html_escape url @ CHR 0x22 # ''>'' @ status_text @ ''</a>.'' @ [CHR 0x0A])
      else server_reply status [(''Location'', [url])] [])"

section \<open>Routing by method and wildcard\<close>

text \<open>
  A pattern of Go 1.22 is a method, segments and what is served.  The segments of a path are
  unescaped one by one; a final slash is the segment \<open>/\<close>, which no wildcard takes.
\<close>

datatype segment = Literal string | Wildcard

type_synonym 'e pattern = "string \<times> segment list \<times> 'e"

definition path_unescape :: "string \<Rightarrow> string" where
  "path_unescape s = (case unescape EncodePathSegment s of None \<Rightarrow> s | Some t \<Rightarrow> t)"

definition path_segments :: "string \<Rightarrow> string list" where
  "path_segments p =
     (let ss = split_on (CHR ''/'') (tl p) in
      if last ss = [] then map path_unescape (butlast ss) @ [''/''] else map path_unescape ss)"

text \<open>The values of the wildcards, when the segments fit.\<close>

fun match_segments :: "segment list \<Rightarrow> string list \<Rightarrow> string list option" where
  "match_segments [] [] = Some []"
| "match_segments (Literal l # ps) (s # ss) = (if s = l then match_segments ps ss else None)"
| "match_segments (Wildcard # ps) (s # ss) = (if s \<noteq> ''/'' then map_option (Cons s) (match_segments ps ss) else None)"
| "match_segments _ _ = None"

fun find_route :: "'e pattern list \<Rightarrow> string \<Rightarrow> string list \<Rightarrow> ('e \<times> string list) option" where
  "find_route [] m ss = None"
| "find_route ((m', ps, e) # rest) m ss =
     (case (if m' = m then match_segments ps ss else None) of
        Some vs \<Rightarrow> Some (e, vs)
      | None \<Rightarrow> find_route rest m ss)"

text \<open>A pattern for GET serves HEAD too; one without a method (here the empty one) serves what is left.\<close>

definition serve_route :: "'e pattern list \<Rightarrow> string \<Rightarrow> string list \<Rightarrow> ('e \<times> string list) option" where
  "serve_route rts m ss =
     (case find_route rts m ss of
        Some r \<Rightarrow> Some r
      | None \<Rightarrow>
          (case (if m = ''HEAD'' then find_route rts ''GET'' ss else None) of
             Some r \<Rightarrow> Some r
           | None \<Rightarrow> find_route rts [] ss))"

definition allowed_methods :: "'e pattern list \<Rightarrow> string list \<Rightarrow> string list" where
  "allowed_methods rts ss =
     (let ms = map fst (filter (\<lambda>(m, ps, e). match_segments ps ss \<noteq> None) rts)
      in sort (remdups (ms @ (if ''GET'' \<in> set ms then [''HEAD''] else []))))"

text \<open>
  The mux: an unclean path is redirected, a path that only other methods serve is answered with 405,
  any other with 404; the server sends no body in answer to HEAD.
\<close>

definition answer_to :: "request \<Rightarrow> response \<Rightarrow> response" where
  "answer_to q resp = (if rq_method q = ''HEAD'' then resp\<lparr>rs_body := []\<rparr> else resp)"

definition serve_mux ::
  "'e pattern list \<Rightarrow> ('e \<Rightarrow> string list \<Rightarrow> request \<Rightarrow> ('w, response) io) \<Rightarrow> request \<Rightarrow> ('w, response) io" where
  "serve_mux rts handle q w =
     (let p = escaped_path (rq_url q); ss = path_segments (clean_path p) in
      if rq_method q \<noteq> ''CONNECT'' \<and> clean_path p \<noteq> p
      then (answer_to q (redirect_reply q 301 ''Moved Permanently''
              (url_string (empty_url\<lparr>u_path := clean_path p, u_raw_query := u_raw_query (rq_url q)\<rparr>))), w)
      else
        (case serve_route rts (rq_method q) ss of
           Some (e, vs) \<Rightarrow> (case handle e vs q w of (resp, w1) \<Rightarrow> (answer_to q resp, w1))
         | None \<Rightarrow>
             (let ms = allowed_methods rts ss in
              (answer_to q
                 (if ms = [] then http_error ''404 page not found'' 404
                  else (http_error ''Method Not Allowed'' 405)\<lparr>rs_header :=
                         (''Allow'', [drop 2 (concat (map (append '', '') ms))]) # rs_header (http_error ''Method Not Allowed'' 405)\<rparr>),
               w))))"

lemma serve_mux_route:
  assumes "escaped_path (rq_url q) = p" and "clean_path p = p"
    and "serve_route rts (rq_method q) (path_segments p) = Some (e, vs)"
  shows "serve_mux rts handle q w = (case handle e vs q w of (resp, w1) \<Rightarrow> (answer_to q resp, w1))"
  using assms by (simp add: serve_mux_def Let_def)

lemma answer_to_simps [simp]:
  "rq_method q \<noteq> ''HEAD'' \<Longrightarrow> answer_to q resp = resp"
  "rs_status (answer_to q resp) = rs_status resp" "rs_header (answer_to q resp) = rs_header resp"
  "rs_cookies (answer_to q resp) = rs_cookies resp" "rs_read_error (answer_to q resp) = rs_read_error resp"
  by (simp_all add: answer_to_def)

lemma server_reply_simps [simp]:
  "rs_status (server_reply n h b) = n" "rs_body (server_reply n h b) = b" "rs_header (server_reply n h b) = h"
  "rs_read_error (server_reply n h b) = None"
  by (simp_all add: server_reply_def)

lemma reply_read_errors [simp]:
  "rs_read_error (http_error msg n) = None" "rs_read_error (redirect_reply q n msg u) = None"
  "rs_status (http_error msg n) = n"
  by (simp_all add: http_error_def redirect_reply_def)

text \<open>No handler of a server leaves a body that cannot be read.\<close>

lemma serve_mux_read_error:
  assumes "\<And>e vs w. rs_read_error (fst (handle e vs q w)) = None"
  shows "rs_read_error (fst (serve_mux rts handle q w)) = None"
  using assms by (auto simp: serve_mux_def Let_def case_prod_beta split: option.split)

end
