(* ===== verification/Mock_Auth.thy ===== *)
theory Mock_Auth
  imports Go_Server
begin

text \<open>
  Component \<open>testutil/mockauth\<close>: the authentication server that the tests of the program log in to,
  as an HTTP client for the recipes.  Its state is part of the outside world, with the clock it reads.
  The text of a JSON body is the parameter \<open>text\<close>.
\<close>

section \<open>State\<close>

record token_info =
  ti_user :: string
  ti_expires :: gtime

record mock_world =
  mw_ttl :: duration
  mw_tokens :: "(string, token_info) gomap"
  mw_seq :: nat
  mw_now :: gtime

definition mock_new :: "duration \<Rightarrow> gtime \<Rightarrow> mock_world" where
  "mock_new ttl now = \<lparr>mw_ttl = ttl, mw_tokens = [], mw_seq = 0, mw_now = now\<rparr>"

definition mock_clock :: "mock_world ticker" where
  "mock_clock w = (mw_now w, w\<lparr>mw_now := mw_now w + 1\<rparr>)"

definition token_name :: "string \<Rightarrow> string \<Rightarrow> nat \<Rightarrow> string" where
  "token_name kind user n = kind @ ''-'' @ user @ ''-'' @ decimal n"

text \<open>The clock is read only when tokens expire.\<close>

definition issue :: "string \<Rightarrow> mock_world \<Rightarrow> (string \<times> string) \<times> mock_world" where
  "issue user w =
     (let n = Suc (mw_seq w);
          access = token_name ''acc'' user n;
          refresh = token_name ''ref'' user n;
          (expires, w1) =
            (if 0 < mw_ttl w then (let (now, v) = mock_clock w in (now + mw_ttl w, v)) else (0, w))
      in ((access, refresh),
          w1\<lparr>mw_seq := n,
             mw_tokens := AList.update access \<lparr>ti_user = user, ti_expires = expires\<rparr> (mw_tokens w1)\<rparr>))"

definition valid :: "string \<Rightarrow> mock_world \<Rightarrow> string option \<times> mock_world" where
  "valid tok w =
     (case map_of (mw_tokens w) tok of
        None \<Rightarrow> (None, w)
      | Some info \<Rightarrow>
          if time_is_zero (ti_expires info) then (Some (ti_user info), w)
          else
            (let (now, w1) = mock_clock w in
             if ti_expires info < now then (None, w1\<lparr>mw_tokens := AList.delete tok (mw_tokens w1)\<rparr>)
             else (Some (ti_user info), w1)))"

section \<open>The handlers\<close>

definition write_tokens :: "(json \<Rightarrow> string) \<Rightarrow> string \<times> string \<Rightarrow> response" where
  "write_tokens text toks =
     server_reply 200
       [(''Set-Cookie'', [''session='' @ fst toks @ ''; Path=/'']), (''Content-Type'', [''application/json''])]
       (text (JObj [(''access_token'', jstring (fst toks)), (''expires_in'', JNum ''60''),
                    (''refresh_token'', jstring (snd toks))]))"

definition login_handler :: "(json \<Rightarrow> string) \<Rightarrow> request \<Rightarrow> mock_world \<Rightarrow> response \<times> mock_world" where
  "login_handler text q w =
     (let user = form_value q ''username'' in
      if user = [] then (http_error ''missing username'' 400, w)
      else (let (toks, w1) = issue user w in (write_tokens text toks, w1)))"

definition oauth_handler :: "(json \<Rightarrow> string) \<Rightarrow> request \<Rightarrow> mock_world \<Rightarrow> response \<times> mock_world" where
  "oauth_handler text q w =
     (let grant = form_value q ''grant_type'' in
      if grant = ''password'' then
        (let (toks, w1) = issue (form_value q ''username'') w in (write_tokens text toks, w1))
      else if grant = ''refresh_token'' then
        (let (toks, w1) = issue ''refreshed'' w in (write_tokens text toks, w1))
      else (http_error ''unsupported_grant_type'' 400, w))"

text \<open>The token that \<open>whoami\<close> goes by.\<close>

definition presented_token :: "header \<Rightarrow> string" where
  "presented_token h =
     (let a = hget h ''Authorization'' in
      if 7 < length a \<and> take 7 a = ''Bearer '' then drop 7 a
      else (case request_cookie h ''session'' of None \<Rightarrow> [] | Some v \<Rightarrow> v))"

definition whoami_handler :: "(json \<Rightarrow> string) \<Rightarrow> request \<Rightarrow> mock_world \<Rightarrow> response \<times> mock_world" where
  "whoami_handler text q w =
     (case valid (presented_token (rq_header q)) w of
        (None, w1) \<Rightarrow>
          (server_reply 401 [(''Content-Type'', [''application/json''])]
             (CHR ''{'' # CHR 0x22 # ''error'' @ CHR 0x22 # CHR '':'' # CHR 0x22 # ''unauthenticated'' @ CHR 0x22 # ''}''), w1)
      | (Some user, w1) \<Rightarrow>
          (server_reply 200 [(''Content-Type'', [''application/json''])] (text (JObj [(''user'', jstring user)])), w1))"

text \<open>The routes, which take any method.\<close>

datatype mock_endpoint = MockLogin | MockOauth | MockWhoami

definition mock_routes :: "mock_endpoint pattern list" where
  "mock_routes =
     [([], [Literal ''login''], MockLogin), ([], [Literal ''oauth'', Literal ''token''], MockOauth),
      ([], [Literal ''api'', Literal ''whoami''], MockWhoami)]"

definition mock_handler :: "(json \<Rightarrow> string) \<Rightarrow> request \<Rightarrow> mock_world \<Rightarrow> response \<times> mock_world" where
  "mock_handler text =
     serve_mux mock_routes
       (\<lambda>e _. case e of MockLogin \<Rightarrow> login_handler text | MockOauth \<Rightarrow> oauth_handler text
                      | MockWhoami \<Rightarrow> whoami_handler text)"

text \<open>The server as the other end of an HTTP client.\<close>

definition mock_client :: "(json \<Rightarrow> string) \<Rightarrow> mock_world client" where
  "mock_client text q w = (case mock_handler text q w of (resp, w1) \<Rightarrow> (Inr resp, w1))"

lemma mock_route:
  "escaped_path (rq_url q) = ''/login'' \<Longrightarrow>
     mock_handler text q w = (case login_handler text q w of (resp, w1) \<Rightarrow> (answer_to q resp, w1))"
  "escaped_path (rq_url q) = ''/api/whoami'' \<Longrightarrow>
     mock_handler text q w = (case whoami_handler text q w of (resp, w1) \<Rightarrow> (answer_to q resp, w1))"
proof -
  have p: "clean_path ''/login'' = ''/login''" "path_segments ''/login'' = [''login'']"
    "clean_path ''/api/whoami'' = ''/api/whoami''" "path_segments ''/api/whoami'' = [''api'', ''whoami'']"
    by code_simp+
  have r: "serve_route mock_routes m [''login''] = Some (MockLogin, [])"
    "serve_route mock_routes m [''api'', ''whoami''] = Some (MockWhoami, [])" for m
    by (cases "m = []"; simp add: serve_route_def mock_routes_def)+
  show "escaped_path (rq_url q) = ''/login'' \<Longrightarrow>
      mock_handler text q w = (case login_handler text q w of (resp, w1) \<Rightarrow> (answer_to q resp, w1))"
    unfolding mock_handler_def by (subst serve_mux_route [where p = "''/login''" and e = MockLogin and vs = "[]"]) (simp_all add: p r)
  show "escaped_path (rq_url q) = ''/api/whoami'' \<Longrightarrow>
      mock_handler text q w = (case whoami_handler text q w of (resp, w1) \<Rightarrow> (answer_to q resp, w1))"
    unfolding mock_handler_def by (subst serve_mux_route [where p = "''/api/whoami''" and e = MockWhoami and vs = "[]"]) (simp_all add: p r)
qed

end
