(* ===== verification/Mock_Properties.thy ===== *)
theory Mock_Properties
  imports Mock_Auth Recipe_Properties
begin

text \<open>
  Logins against the authentication server of the tests: the session that comes back is recognised.
\<close>

section \<open>The form as the server reads it\<close>

lemma query_no_semicolon: "CHR '';'' \<notin> set (escape s EncodeQueryComponent)"
proof
  assume "CHR '';'' \<in> set (escape s EncodeQueryComponent)"
  then obtain d where d: "CHR '';'' \<in> set (escape [d] EncodeQueryComponent)" using escape_member by blast
  have plain: "\<not> is_alnum (CHR '';'')" by (simp add: is_alnum_def is_digit_def is_lower_def is_upper_def byte_def)
  show False
  proof (cases "should_escape d EncodeQueryComponent")
    case False
    with plain have "d \<noteq> CHR '';''"
      by (auto simp: should_escape_def is_alnum_def is_digit_def is_lower_def is_upper_def byte_def)
    with d False show False by (simp add: escape_def)
  next
    case True
    have "is_alnum (upper_hex (byte d div 16))" "is_alnum (upper_hex (byte d mod 16))"
      using upper_hex_digit byte_less [of d] by auto
    with d True plain show False by (auto simp: escape_def split: if_splits)
  qed
qed

lemma encode_pair_read:
  "(if encode_pair p = [] \<or> CHR '';'' \<in> set (encode_pair p) then None else parse_pair (encode_pair p)) = Some p"
  using encode_pair_plain(2) query_no_semicolon by (simp add: parse_encode_pair) (simp add: encode_pair_def)

lemma parse_query_encode: "parse_query (values_encode m) = sorted_pairs m"
proof (cases "sorted_pairs m = []")
  case True
  then show ?thesis by (simp add: values_encode_def parse_query_def map_filter_def)
next
  case False
  let ?xs = "map encode_pair (sorted_pairs m)"
  have "split_on (CHR ''&'') (values_encode m) = ?xs"
    unfolding values_encode_def using False encode_pair_plain(1) by (intro split_join) auto
  moreover have "List.map_filter (\<lambda>seg. if seg = [] \<or> CHR '';'' \<in> set seg then None else parse_pair seg)
      (map encode_pair ps) = ps" for ps
    by (induction ps) (simp_all add: map_filter_simps encode_pair_read)
  ultimately show ?thesis by (simp add: parse_query_def)
qed

lemma form_read:
  assumes "rq_method q = ''POST''" and "hget (rq_header q) ''Content-Type'' = form_content_type"
    and "rq_body q = values_encode form" and "distinct (map fst form)" and "(k, v) \<in> set form"
  shows "form_value q k = v"
proof -
  have "to_lower (trim_space (fst (cut (CHR '';'') form_content_type))) = form_content_type" by code_simp
  then have "has_form q" using assms(1,2) by (simp add: has_form_def)
  moreover have "parse_query (rq_body q) = sorted_pairs form" by (simp add: assms(3) parse_query_encode)
  moreover have "map_of (sorted_pairs form) k = Some v"
  proof (rule map_of_is_SomeI)
    show "distinct (map fst (sorted_pairs form))" using assms(4) by (simp add: sorted_pairs_def comp_def)
    show "(k, v) \<in> set (sorted_pairs form)" using sorted_pairs_mem [OF assms(4)] assms(5) by simp
  qed
  ultimately show ?thesis by (simp add: form_value_def map_add_def)
qed

lemma posted_form:
  "post_form url form = Inr q \<Longrightarrow> distinct (map fst form) \<Longrightarrow> (k, v) \<in> set form \<Longrightarrow> form_value q k = v"
  using post_form_simps form_read by blast

section \<open>Tokens\<close>

definition printable :: "string \<Rightarrow> bool" where
  "printable s \<longleftrightarrow> list_all (\<lambda>c. 33 \<le> byte c \<and> byte c < 127) s"

lemma digit_printable: "printable [digit_char n]"
proof -
  have "n mod 10 < 10" by simp
  then have "48 + n mod 10 < 256" "48 + n mod 10 < 127" by linarith+
  then show ?thesis by (simp add: printable_def digit_char_def byte_char_of)
qed

lemma decimal_printable: "printable (decimal n)"
proof (induction n rule: decimal.induct)
  case (1 n)
  have "printable [digit_char (n mod 10)]" by (rule digit_printable)
  with 1 show ?case using digit_printable [of n] by (subst decimal.simps) (auto simp: printable_def)
qed

lemma printable_utf8: "printable s \<Longrightarrow> to_valid_utf8 s = s"
  by (intro to_valid_utf8_id valid_utf8_ascii) (auto simp: printable_def list_all_iff)

lemma token_printable: "printable kind \<Longrightarrow> printable user \<Longrightarrow> printable (token_name kind user n)"
proof -
  assume "printable kind" "printable user"
  moreover have "printable ''-''" by code_simp
  ultimately show ?thesis using decimal_printable [of n] by (auto simp: token_name_def printable_def)
qed

lemma issued_valid:
  assumes "issue user w = ((access, refresh), w1)" and "mw_tokens v = mw_tokens w1"
    and "mw_ttl w \<le> 0 \<or> mw_now v \<le> mw_now w + mw_ttl w"
  shows "\<exists>v'. valid access v = (Some user, v')"
  using assms by (auto simp: issue_def valid_def mock_clock_def Let_def split: if_splits)

lemma bearer_presented:
  assumes "s_bearer s = tok" and "tok \<noteq> []" and "s_headers s = []"
  shows "presented_token (apply_header s h) = tok"
proof -
  have "hvalues (apply_header s h) ''Authorization'' = [''Bearer '' @ tok]"
    using apply_header_authorization [of s h] assms by (simp add: pinned_def)
  then show ?thesis using assms(2) by (simp add: presented_token_def hget_def)
qed

section \<open>Logins\<close>

text \<open>What the decoder does with the server's token answer (\<open>encoding/json\<close> reads back what it wrote).\<close>

definition reads_tokens :: "(json \<Rightarrow> string) \<Rightarrow> token_decoder \<Rightarrow> bool" where
  "reads_tokens text decode \<longleftrightarrow>
     (\<forall>a r. decode (text (JObj [(''access_token'', JStr a), (''expires_in'', JNum ''60''), (''refresh_token'', JStr r)])) None
        = (\<lparr>tp_access_token = a, tp_refresh_token = r, tp_expires_in = 60\<rparr>, None))"

lemma write_tokens_payload:
  assumes "reads_tokens text decode" and "printable user"
    and "toks = (token_name ''acc'' user n, token_name ''ref'' user n)"
  shows "decode (rs_body (write_tokens text toks)) (rs_read_error (write_tokens text toks)) =
    (\<lparr>tp_access_token = fst toks, tp_refresh_token = snd toks, tp_expires_in = 60\<rparr>, None)"
proof -
  have "printable ''acc''" "printable ''ref''" by code_simp+
  then have "printable (fst toks)" "printable (snd toks)" using assms(2,3) token_printable by simp_all
  then show ?thesis
    using assms(1) by (simp add: write_tokens_def server_reply_def jstring_def printable_utf8 reads_tokens_def)
qed

text \<open>A session whose token the server issued is recognised by \<open>whoami\<close>.\<close>

lemma session_recognised:
  assumes "issue user w = ((access, refresh), w1)" and "mw_tokens v = mw_tokens w1"
    and "mw_ttl w \<le> 0 \<or> mw_now v \<le> mw_now w + mw_ttl w"
    and "s_bearer s = access" and "s_headers s = []" and "escaped_path (rq_url q) = ''/api/whoami''"
    and "printable user" and "rq_method q \<noteq> ''HEAD''"
  shows "\<exists>resp v'. mock_client text (apply_session s q) v = (Inr resp, v') \<and> rs_status resp = 200 \<and>
    rs_body resp = text (JObj [(''user'', JStr user)])"
proof -
  have "access \<noteq> []" using assms(1) by (auto simp: issue_def token_name_def Let_def split: if_splits prod.splits)
  then have tok: "presented_token (apply_header s (rq_header q)) = access"
    using bearer_presented assms(4,5) by blast
  obtain v' where v': "valid access v = (Some user, v')" using issued_valid [OF assms(1-3)] by blast
  show ?thesis
    using tok v' assms(6-8)
    by (simp add: mock_client_def mock_route whoami_handler_def jstring_def printable_utf8)
qed

lemma expires_at_mock:
  "expires_at mock_clock 60 w = (mw_now w + 60 * second, w\<lparr>mw_now := mw_now w + 1\<rparr>)"
  by (simp add: expires_at_def mock_clock_def max_seconds_def)

lemma issue_effect:
  assumes "issue user w = (toks, w1)"
  shows "toks = (token_name ''acc'' user (Suc (mw_seq w)), token_name ''ref'' user (Suc (mw_seq w)))"
    "mw_ttl w1 = mw_ttl w" "mw_now w \<le> mw_now w1" "mw_now w1 \<le> mw_now w + 1"
  using assms by (auto simp: issue_def mock_clock_def Let_def split: if_splits prod.splits)

text \<open>
  A form recipe set up for this server: it posts to the login route with the field \<open>username\<close>, and
  the decoder reads the JSON the server writes.
\<close>

definition mock_form_ok :: "(json \<Rightarrow> string) \<Rightarrow> token_decoder \<Rightarrow> mock_world client \<Rightarrow> mock_world form_post \<Rightarrow> bool" where
  "mock_form_ok text decode dflt r \<longleftrightarrow>
     reads_tokens text decode \<and> own_client dflt (fp_client r) = mock_client text \<and>
     (\<exists>req. post_form (fp_login_url r) (form_values r) = Inr req \<and> escaped_path (rq_url req) = ''/login'') \<and>
     fp_user_field r \<in> {[], ''username''} \<and> fp_pass_field r \<noteq> ''username'' \<and>
     printable (fp_username r) \<and> fp_username r \<noteq> []"

lemma form_login_mock:
  assumes "mock_form_ok text decode dflt r"
  obtains s access refresh w1 w2 where "issue (fp_username r) w = ((access, refresh), w1)"
    "form_establish dflt decode mock_clock r w = (Inr s, w2)" "s_bearer s = access" "s_headers s = []"
    "mw_tokens w2 = mw_tokens w1" "mw_ttl w2 = mw_ttl w" "mw_now w \<le> mw_now w2" "mw_now w2 \<le> mw_now w + 2"
    "mw_now w + 60 * second \<le> s_expires_at s"
proof -
  from assms obtain req where req: "post_form (fp_login_url r) (form_values r) = Inr req"
    "escaped_path (rq_url req) = ''/login''"
    and ok: "reads_tokens text decode" "own_client dflt (fp_client r) = mock_client text"
      "fp_user_field r \<in> {[], ''username''}" "fp_pass_field r \<noteq> ''username''"
      "printable (fp_username r)" "fp_username r \<noteq> []"
    by (auto simp: mock_form_ok_def)
  have "(''username'', fp_username r) \<in> set (form_values r)"
    using form_values_set(2) [OF refl refl, of r] ok(3,4) by auto
  with posted_form [OF req(1) form_values_set(1)] have user: "form_value req ''username'' = fp_username r" .
  obtain toks w1 where iss: "issue (fp_username r) w = (toks, w1)" by fastforce
  note eff = issue_effect [OF iss]
  have sent: "mock_client text req w = (Inr (write_tokens text toks), w1)"
    using req(2) ok(6) user iss post_form_simps(2) [OF req(1)] by (simp add: mock_client_def mock_route login_handler_def)
  note payload = write_tokens_payload [OF ok(1,5) eff(1)]
  have acc: "fst toks \<noteq> []" by (simp add: eff(1) token_name_def)
  let ?s = "form_session r (write_tokens text toks)
      \<lparr>tp_access_token = fst toks, tp_refresh_token = snd toks, tp_expires_in = 60\<rparr> (mw_now w1 + 60 * second)"
  let ?w2 = "w1\<lparr>mw_now := mw_now w1 + 1\<rparr>"
  have bearer: "s_bearer ?s = fst toks" "s_headers ?s = []" "s_expires_at ?s = mw_now w1 + 60 * second"
    by (simp_all add: form_session_def empty_session_def)
  have "rs_status (write_tokens text toks) = 200" by (simp add: write_tokens_def server_reply_def)
  then have est: "form_establish dflt decode mock_clock r w = (Inr ?s, ?w2)"
    using req(1) ok(2) sent payload acc bearer expires_at_mock [of w1]
    by (simp add: form_establish_def)
  have "issue (fp_username r) w = ((fst toks, snd toks), w1)" using iss by simp
  from that [OF this est bearer(1,2)] show thesis using eff bearer(3) by simp
qed

text \<open>A form login works end to end against the authentication server of the tests: whatever state
  the server is in, the login of an identity yields a session of that identity, and a request that the
  session is applied to is recognised as the configured user's for as long as the server's tokens live.
  (The JSON text and its decoder are parameters; \<open>mock_form_ok\<close> has their round trip and the login
  route.)\<close>

theorem mock_login_recognised:
  assumes "mock_form_ok text decode dflt r" and "form_establish dflt decode mock_clock r w = (x, w1)"
    and "mw_tokens v = mw_tokens w1" and "mw_ttl w \<le> 0 \<or> mw_now v \<le> mw_now w + mw_ttl w"
    and "escaped_path (rq_url q) = ''/api/whoami''" and "rq_method q \<noteq> ''HEAD''"
  shows "\<exists>s resp v'. x = Inr s \<and> session_ok (fp_id r) s \<and>
    mock_client text (apply_session s q) v = (Inr resp, v') \<and> rs_status resp = 200 \<and>
    rs_body resp = text (JObj [(''user'', JStr (fp_username r))])"
proof -
  from assms(1) obtain s access refresh w2 w3 where l: "issue (fp_username r) w = ((access, refresh), w2)"
    "form_establish dflt decode mock_clock r w = (Inr s, w3)" "s_bearer s = access" "s_headers s = []"
    "mw_tokens w3 = mw_tokens w2" by (rule form_login_mock)
  with assms(2,3) have x: "x = Inr s" "mw_tokens v = mw_tokens w2" by simp_all
  have "printable (fp_username r)" using assms(1) by (simp add: mock_form_ok_def)
  from session_recognised [OF l(1) x(2) assms(4) l(3,4) assms(5) this assms(6)]
  show ?thesis using x(1) form_establish_ok [OF l(2)] by blast
qed

text \<open>A text for the server's answers that can be read back: the length of the first token in unary,
  then both tokens.\<close>

definition sample_text :: "json \<Rightarrow> string" where
  "sample_text j =
     (case j of
        JObj [(_, JStr a), _, (_, JStr b)] \<Rightarrow> replicate (length a) (CHR ''1'') @ CHR ''0'' # a @ b
      | JObj [(_, JStr u)] \<Rightarrow> u
      | _ \<Rightarrow> [])"

definition sample_reader :: token_decoder where
  "sample_reader s err =
     (let n = length (takeWhile (\<lambda>c. c = CHR ''1'') s); rest = drop (Suc n) s
      in (\<lparr>tp_access_token = take n rest, tp_refresh_token = drop n rest, tp_expires_in = 60\<rparr>, err))"

lemma sample_reads: "reads_tokens sample_text sample_reader"
proof -
  have "takeWhile (\<lambda>c. c = CHR ''1'') (replicate n (CHR ''1'') @ CHR ''0'' # s) = replicate n (CHR ''1'')" for n s
    by (induction n) simp_all
  then show ?thesis by (simp add: reads_tokens_def sample_text_def sample_reader_def)
qed

definition mock_form :: "mock_world form_post" where
  "mock_form = \<lparr>fp_id = ''ada'', fp_login_url = ''http://target/login'', fp_username = ''alice'',
     fp_password = ''pw'', fp_user_field = [], fp_pass_field = [],
     fp_signature = \<lparr>status_codes = [401], location_contains = [], body_contains = []\<rparr>, fp_client = None\<rparr>"

definition whoami_request :: request where
  "whoami_request = \<lparr>rq_method = ''GET'', rq_url = empty_url\<lparr>u_path := ''/api/whoami''\<rparr>, rq_header = [], rq_body = []\<rparr>"

lemma whoami_path: "escaped_path (rq_url whoami_request) = ''/api/whoami''" "rq_method whoami_request \<noteq> ''HEAD''"
  by code_simp+

lemma mock_form_set: "mock_form_ok sample_text sample_reader (mock_client sample_text) mock_form"
proof -
  have "case post_form (fp_login_url mock_form) (form_values mock_form) of
      Inl e \<Rightarrow> False | Inr q \<Rightarrow> escaped_path (rq_url q) = ''/login''" by code_simp
  moreover have "printable (fp_username mock_form)" by code_simp
  ultimately show ?thesis
    using sample_reads by (auto simp: mock_form_ok_def own_client_def mock_form_def split: sum.splits)
qed

theorem mock_login_recognised_witness:
  "\<exists>s resp w1 v'. form_establish (mock_client sample_text) sample_reader mock_clock mock_form
       (mock_new (60 * second) sample_now) = (Inr s, w1) \<and>
     mock_client sample_text (apply_session s whoami_request) w1 = (Inr resp, v') \<and> rs_body resp = ''alice''"
proof -
  let ?w = "mock_new (60 * second) sample_now"
  let ?run = "form_establish (mock_client sample_text) sample_reader mock_clock mock_form ?w"
  obtain x w1 where run: "?run = (x, w1)" by fastforce
  have "mw_now (snd ?run) \<le> mw_now ?w + mw_ttl ?w" by code_simp
  with run have time: "mw_now w1 \<le> mw_now ?w + mw_ttl ?w" by simp
  from mock_login_recognised [OF mock_form_set run refl disjI2 [OF time], of whoami_request]
  obtain s resp v' where "x = Inr s" "mock_client sample_text (apply_session s whoami_request) w1 = (Inr resp, v')"
    "rs_body resp = sample_text (JObj [(''user'', JStr (fp_username mock_form))])"
    using whoami_path by auto
  with run show ?thesis by (auto simp: sample_text_def mock_form_def)
qed

end
