(* ===== verification/Healing.thy ===== *)
theory Healing
  imports Mock_Properties Gateway_Facts
begin

text \<open>
  The gateway, the store, the form login and the authentication server of the tests together: a
  session that the server no longer knows is renewed behind the client's back.
\<close>

section \<open>The first attempt\<close>

text \<open>What the gateway needs to know of a request for \<open>whoami\<close> under a managed identity.\<close>

definition whoami_call :: "(json \<Rightarrow> string) \<Rightarrow> mock_world gateway \<Rightarrow> string \<Rightarrow> inbound \<Rightarrow> bool" where
  "whoami_call text g i r \<longleftrightarrow>
     guard_refusal g r = None \<and> is_idempotent (ib_method r) \<and> map_of (g_csrf g) i = None \<and>
     g_client g = mock_client text \<and>
     (case ib_body r of
        Inl _ \<Rightarrow> False
      | Inr body \<Rightarrow>
          (case out_request (g_target g) r body of
             Inl _ \<Rightarrow> False
           | Inr req \<Rightarrow> rq_method req \<noteq> ''HEAD'' \<and> escaped_path (rq_url req) = ''/api/whoami''))"

definition mock_signature :: logout_signature where
  "mock_signature = \<lparr>status_codes = [401], location_contains = [], body_contains = []\<rparr>"

lemma signature_401: "signature_matches mock_signature resp b \<longleftrightarrow> rs_status resp = 401"
  by (simp add: signature_matches_def mock_signature_def)

lemma get_live:
  assumes "lookup i st = Inr e" and "e_session e = Some (a, s)" and "tick w = (now, w1)" and "\<not> expired s now"
  shows "store_get tick i st w = (Inr s, put_entry i e st, w1)"
  using assms by (simp add: store_get_def get_entry_def snapshot_def check_live_def)

text \<open>A forwarded request with a live session, and the answer of a target that does not fail.\<close>

lemma forward_live:
  assumes "lookup i (g_store g) = Inr e" and "e_session e = Some (a, s)" and "tick w = (now, w1)"
    and "\<not> expired s now" and "out_request (g_target g) r body = Inr req"
    and "g_client g (apply_session s req) w1 = (Inr resp, w2)" and "rs_read_error resp = None"
  shows "forward tick r body i True ([], []) g w =
    (Inr (resp, rs_body resp),
     g\<lparr>g_store := put_entry i e (g_store g), g_trace := g_trace g @ [Forwarded (apply_session s req)]\<rparr>, w2)"
  using get_live [OF assms(1,2), of tick w now w1, OF assms(3,4)] assms(5-7)
  by (simp add: forward_def gbind_def glift_def session_for_def round_trip_def set_csrf_def)

lemma uncovered_pair: "map_of (g_csrf g) i = None \<Longrightarrow> csrf_pair tick ev i m old g w = (old, g, w)"
  by (simp add: csrf_pair_def covering_policy_def)

lemma mock_read_error: "mock_client text q w = (Inr resp, w') \<Longrightarrow> rs_read_error resp = None"
  using serve_mux_read_error [of "\<lambda>e _. case e of MockLogin \<Rightarrow> login_handler text | MockOauth \<Rightarrow> oauth_handler text
      | MockWhoami \<Rightarrow> whoami_handler text" q mock_routes w]
  by (auto simp: mock_client_def mock_handler_def login_handler_def oauth_handler_def whoami_handler_def
      write_tokens_def case_prod_beta Let_def split: mock_endpoint.split option.splits)

lemma mock_unknown:
  assumes "map_of (mw_tokens w) (s_bearer s) = None" and "s_bearer s \<noteq> []" and "s_headers s = []"
    and "escaped_path (rq_url q) = ''/api/whoami''"
  shows "\<exists>resp. mock_client text (apply_session s q) w = (Inr resp, w) \<and> rs_status resp = 401"
proof -
  show ?thesis
    using assms bearer_presented [OF refl assms(2,3)]
    by (simp add: mock_client_def mock_route whoami_handler_def valid_def)
qed

section \<open>The renewal\<close>

lemma refresh_by_login:
  assumes "lookup i st = Inr e" and "e_session e = Some (a, s)" and "e_stamps e = []" and "0 < st_max_burst st"
    and "e_recipe e = form_recipe dflt decode tick fp" and "tick w = (now, w1)"
    and "form_establish dflt decode tick fp w1 = (Inr s', w2)" and "tick w2 = (now', w3)"
  shows "store_refresh tick i st w
    = (Inr (Some s'), put_entry i (commit s' now' (e\<lparr>e_stamps := [now]\<rparr>)) st, w3)"
  using assms
  by (simp add: store_refresh_def refresh_locked_def snapshot_def same_pointer_def rate_limited_def
      prune_older_than_def Let_def form_recipe_def store_simps)

text \<open>C11: The renewal is transparent.  When the target has forgotten a session that the store still
  believes in, a client that asks under the identity never sees the refusal: the gateway recognises the
  logout signal, logs in again with the identity's form recipe, repeats the request with the new session
  and relays the answer for the configured user.  (The target is the authentication server of the tests
  with tokens that live a second or more, and the rate limiter has admitted nothing recently.)\<close>

theorem dead_session_healed:
  assumes "mock_form_ok text decode dflt fp" and "whoami_call text g i r"
    and "map_of (g_recipes g) i = Some (form_recipe dflt decode mock_clock fp)"
    and "fp_signature fp = mock_signature" and "lookup i (g_store g) = Inr e"
    and "e_recipe e = form_recipe dflt decode mock_clock fp" and "e_session e = Some (a, s)"
    and "e_stamps e = []" and "0 < st_max_burst (g_store g)" and "\<not> expired s (mw_now w)"
    and "map_of (mw_tokens w) (s_bearer s) = None" and "s_bearer s \<noteq> []" and "s_headers s = []"
    and "mw_ttl w \<le> 0 \<or> second \<le> mw_ttl w"
  shows "\<exists>hdr g' w'. serve mock_clock i r g w =
    (Relay 200 hdr (text (JObj [(''user'', JStr (fp_username fp))])), g', w')"
proof -
  from assms(2) obtain body req where call: "guard_refusal g r = None" "is_idempotent (ib_method r)"
    "map_of (g_csrf g) i = None" "g_client g = mock_client text" "ib_body r = Inr body"
    "out_request (g_target g) r body = Inr req" "escaped_path (rq_url req) = ''/api/whoami''"
    "rq_method req \<noteq> ''HEAD''"
    by (auto simp: whoami_call_def split: sum.splits)
  let ?tick = "\<lambda>v. v\<lparr>mw_now := mw_now v + 1\<rparr>"
  have tick: "mock_clock v = (mw_now v, ?tick v)" for v by (simp add: mock_clock_def)
  \<comment> \<open>the first attempt\<close>
  have "map_of (mw_tokens (?tick w)) (s_bearer s) = None" using assms(11) by simp
  from mock_unknown [OF this assms(12,13) call(7)] obtain resp1 where
    r1: "mock_client text (apply_session s req) (?tick w) = (Inr resp1, ?tick w)" "rs_status resp1 = 401" by blast
  define g1 where "g1 = g\<lparr>g_store := put_entry i e (g_store g),
    g_trace := g_trace g @ [Forwarded (apply_session s req)]\<rparr>"
  have f1: "forward mock_clock r body i True ([], []) g w = (Inr (resp1, rs_body resp1), g1, ?tick w)"
    unfolding g1_def
    by (rule forward_live [where tick = mock_clock and w = w, OF assms(5,7) tick assms(10) call(6)])
      (use call(4) r1(1) mock_read_error [OF r1(1)] in simp_all)
  \<comment> \<open>the renewal\<close>
  from assms(1) obtain s2 access refresh w2 w3 where l:
    "issue (fp_username fp) (?tick (?tick w)) = ((access, refresh), w2)"
    "form_establish dflt decode mock_clock fp (?tick (?tick w)) = (Inr s2, w3)"
    "s_bearer s2 = access" "s_headers s2 = []" "mw_tokens w3 = mw_tokens w2" "mw_ttl w3 = mw_ttl (?tick (?tick w))"
    "mw_now w3 \<le> mw_now (?tick (?tick w)) + 2" "mw_now (?tick (?tick w)) + 60 * second \<le> s_expires_at s2"
    by (rule form_login_mock [where w = "?tick (?tick w)"])
  define e2 where "e2 = commit s2 (mw_now w3) (e\<lparr>e_stamps := [mw_now (?tick w)]\<rparr>)"
  have lk1: "lookup i (g_store g1) = Inr e" by (simp add: g1_def store_simps)
  have burst: "0 < st_max_burst (g_store g1)" using assms(9) by (simp add: g1_def store_simps)
  have ref: "store_refresh mock_clock i (g_store g1) (?tick w)
      = (Inr (Some s2), put_entry i e2 (g_store g1), ?tick w3)"
    unfolding e2_def
    by (rule refresh_by_login [where tick = mock_clock and w = "?tick w" and ?w2.0 = w3,
        OF lk1 assms(7,8) burst assms(6) tick l(2) tick])
  \<comment> \<open>the second attempt\<close>
  define g2 where "g2 = invalidate_csrf i (log_to (Reauthenticated i) (g1\<lparr>g_store := put_entry i e2 (g_store g1)\<rparr>))"
  have g2: "lookup i (g_store g2) = Inr e2" "map_of (g_csrf g2) i = None" "g_target g2 = g_target g"
    "g_client g2 = mock_client text"
    using call(3,4) by (simp_all add: g2_def g1_def invalidate_csrf_def log_to_def store_simps)
  have s2: "e_session e2 = Some (e_next e, s2)" by (simp add: e2_def store_simps)
  have live: "\<not> expired s2 (mw_now (?tick w3))"
    using l(7,8) by (simp add: expired_def)
  have name: "printable (fp_username fp)" using assms(1) by (simp add: mock_form_ok_def)
  have "mw_tokens (?tick (?tick w3)) = mw_tokens w2" using l(5) by simp
  moreover have "mw_ttl (?tick (?tick w)) \<le> 0 \<or>
      mw_now (?tick (?tick w3)) \<le> mw_now (?tick (?tick w)) + mw_ttl (?tick (?tick w))"
    using assms(14) l(7) by auto
  ultimately obtain resp2 w4 where
    r2: "mock_client text (apply_session s2 req) (?tick (?tick w3)) = (Inr resp2, w4)" "rs_status resp2 = 200"
      "rs_body resp2 = text (JObj [(''user'', JStr (fp_username fp))])"
    using session_recognised [OF l(1) _ _ l(3,4) call(7) name call(8)] by blast
  obtain g3 where f2: "forward mock_clock r body i True ([], []) g2 (?tick w3) = (Inr (resp2, rs_body resp2), g3, w4)"
    using forward_live [where tick = mock_clock and w = "?tick w3",
        OF g2(1) s2 tick live call(6) [folded g2(3)], of resp2 w4] g2(4) r2(1)
      mock_read_error [OF r2(1)] by simp
  have re: "reauth mock_clock r body i ([], []) (resp1, rs_body resp1) g1 (?tick w)
      = ((resp2, rs_body resp2), g3, w4)"
    using ref call(2) uncovered_pair [OF g2(2)] f2 by (simp add: reauth_def g2_def [symmetric])
  have "serve mock_clock i r g w = (relay (resp2, rs_body resp2), audit i r (rs_status resp2) g3, w4)"
    using call(1,5) assms(3,4) uncovered_pair [OF call(3)] f1 re r1(2)
    by (simp add: serve_def serve_admitted_def settle_def signature_401 form_recipe_def)
  with r2 show ?thesis by (simp add: relay_def)
qed

text \<open>A gateway whose session \<open>token\<close> a new server does not know.\<close>

definition mock_recipe :: "mock_world recipe" where
  "mock_recipe = form_recipe (mock_client sample_text) sample_reader mock_clock mock_form"

definition healing_entry :: "mock_world entry" where
  "healing_entry = (new_entry mock_recipe)\<lparr>e_session := Some (0, sample_session ''ada'' 0), e_next := 1\<rparr>"

definition healing_gateway :: "mock_world gateway" where
  "healing_gateway =
     \<lparr>g_store = \<lparr>st_entries = [(''ada'', healing_entry)], st_max_burst = 10, st_window = 60 * second\<rparr>,
      g_recipes = [(''ada'', mock_recipe)], g_target = empty_url\<lparr>u_scheme := ''http'', u_host := ''target''\<rparr>,
      g_client = mock_client sample_text, g_require_token = [], g_csrf = [], g_csrf_cache = [], g_audit = None,
      g_log = [], g_trace = []\<rparr>"

definition whoami_inbound :: inbound where
  "whoami_inbound = \<lparr>ib_host = ''localhost:8888'', ib_method = ''GET'',
     ib_url = empty_url\<lparr>u_path := ''/api/whoami''\<rparr>, ib_header = [], ib_body = Inr []\<rparr>"

lemma healing_call: "whoami_call sample_text healing_gateway ''ada'' whoami_inbound"
proof -
  have "guard_refusal healing_gateway whoami_inbound = None" "is_idempotent (ib_method whoami_inbound)" by code_simp+
  moreover have "case out_request (g_target healing_gateway) whoami_inbound [] of
      Inl _ \<Rightarrow> False
      | Inr req \<Rightarrow> rq_method req \<noteq> ''HEAD'' \<and> escaped_path (rq_url req) = ''/api/whoami''" by code_simp
  moreover have "map_of (g_csrf healing_gateway) ''ada'' = None" "g_client healing_gateway = mock_client sample_text"
    "ib_body whoami_inbound = Inr []"
    by (simp_all add: healing_gateway_def whoami_inbound_def)
  ultimately show ?thesis by (simp add: whoami_call_def)
qed

theorem dead_session_healed_witness:
  "\<exists>hdr g' w'. serve mock_clock ''ada'' whoami_inbound healing_gateway (mock_new (60 * second) sample_now)
     = (Relay 200 hdr ''alice'', g', w')"
proof -
  let ?w = "mock_new (60 * second) sample_now"
  have facts: "map_of (g_recipes healing_gateway) ''ada'' = Some (form_recipe (mock_client sample_text) sample_reader mock_clock mock_form)"
    "fp_signature mock_form = mock_signature" "lookup ''ada'' (g_store healing_gateway) = Inr healing_entry"
    "e_recipe healing_entry = form_recipe (mock_client sample_text) sample_reader mock_clock mock_form"
    "e_session healing_entry = Some (0, sample_session ''ada'' 0)" "e_stamps healing_entry = []"
    "0 < st_max_burst (g_store healing_gateway)" "\<not> expired (sample_session ''ada'' 0) (mw_now ?w)"
    "map_of (mw_tokens ?w) (s_bearer (sample_session ''ada'' 0)) = None"
    "s_bearer (sample_session ''ada'' 0) \<noteq> []" "s_headers (sample_session ''ada'' 0) = []"
    "mw_ttl ?w \<le> 0 \<or> second \<le> mw_ttl ?w"
    by (simp_all add: healing_gateway_def healing_entry_def mock_recipe_def mock_form_def mock_signature_def
        lookup_def new_entry_def expired_def mock_new_def)
  from dead_session_healed [OF mock_form_set healing_call facts]
  show ?thesis by (simp add: sample_text_def mock_form_def)
qed

end
