(* ===== verification/Target.thy ===== *)
theory Target
  imports Mock_Auth
begin

text \<open>
  Component \<open>e2e/target\<close>: the application that the acceptance tests of the program are run against,
  as an HTTP client for the recipes, the gateway and replay.  It has a login for each kind of recipe
  and two sets of records: one with correct authorization and one, \<open>/idor\<close>, without.

  Its state is part of the outside world, with the clock and the random source (\<open>tw_random\<close> gives what
  the n-th \<open>rand.Read\<close> of 24 bytes yields).  The text of JSON is the parameter \<open>text\<close>.  The
  process around the handlers is in theory \<open>Target_Process\<close>.
\<close>

section \<open>State\<close>

record user_session =
  us_user :: string
  us_expiry :: gtime

record target_world =
  tw_ttl :: duration
  tw_toks :: "(string, user_session) gomap"
  tw_csrf :: "string list"
  tw_now :: gtime
  tw_random :: "nat \<Rightarrow> gerror + string"
  tw_drawn :: nat

definition valid_users :: "(string, string) gomap" where
  "valid_users = [(''alice'', ''pw''), (''bob'', ''pw'')]"

definition target_clock :: "target_world ticker" where
  "target_clock w = (tw_now w, w\<lparr>tw_now := tw_now w + 1\<rparr>)"

definition seeded_alice_token :: string where
  "seeded_alice_token = ''e2e-seeded-alice-token''"

definition new_token_store :: "duration \<Rightarrow> gtime \<Rightarrow> (nat \<Rightarrow> gerror + string) \<Rightarrow> target_world" where
  "new_token_store ttl now rnd =
     \<lparr>tw_ttl = ttl,
      tw_toks = [(seeded_alice_token, \<lparr>us_user = ''alice'', us_expiry = now + 100 * 365 * 24 * 60 * 60 * second\<rparr>)],
      tw_csrf = [], tw_now = now, tw_random = rnd, tw_drawn = 0\<rparr>"

text \<open>The verb \<open>%d\<close> for an integer, and the nanoseconds from Go's zero time to the Unix epoch.\<close>

definition integer_text :: "int \<Rightarrow> string" where
  "integer_text n = (if n < 0 then ''-'' @ decimal (nat (- n)) else decimal (nat n))"

definition unix_epoch :: gtime where
  "unix_epoch = 62135596800 * second"

definition rand_token :: "(target_world, string) io" where
  "rand_token w =
     (let w1 = w\<lparr>tw_drawn := Suc (tw_drawn w)\<rparr> in
      case tw_random w (tw_drawn w) of
        Inl _ \<Rightarrow> (let (now, w2) = target_clock w1 in (''t'' @ integer_text (now - unix_epoch), w2))
      | Inr b \<Rightarrow> (hex_encode b, w1))"

definition mint :: "string \<Rightarrow> (target_world, string) io" where
  "mint user w =
     (let (t, w1) = rand_token w; (now, w2) = target_clock w1
      in (t, w2\<lparr>tw_toks := AList.update t \<lparr>us_user = user, us_expiry = now + tw_ttl w2\<rparr> (tw_toks w2)\<rparr>))"

definition find_token :: "string \<Rightarrow> (target_world, string option) io" where
  "find_token token w =
     (if token = [] then (None, w)
      else
        (case map_of (tw_toks w) token of
           None \<Rightarrow> (None, w)
         | Some sess \<Rightarrow>
             (let (now, w1) = target_clock w in
              if us_expiry sess < now then (None, w1\<lparr>tw_toks := AList.delete token (tw_toks w1)\<rparr>)
              else (Some (us_user sess), w1))))"

definition mint_csrf :: "(target_world, string) io" where
  "mint_csrf w = (let (t, w1) = rand_token w in (t, w1\<lparr>tw_csrf := List.insert t (tw_csrf w1)\<rparr>))"

definition valid_csrf :: "string \<Rightarrow> target_world \<Rightarrow> bool" where
  "valid_csrf t w \<longleftrightarrow> t \<noteq> [] \<and> t \<in> set (tw_csrf w)"

definition bearer_of :: "header \<Rightarrow> string option" where
  "bearer_of h =
     (let a = hget h ''Authorization''
      in if 7 < length a \<and> take 7 a = ''Bearer '' then Some (drop 7 a) else None)"

definition identify_cookie :: "header \<Rightarrow> (target_world, string option) io" where
  "identify_cookie h w = (case request_cookie h ''session'' of None \<Rightarrow> (None, w) | Some c \<Rightarrow> find_token c w)"

definition identify :: "header \<Rightarrow> (target_world, string option) io" where
  "identify h w =
     (case bearer_of h of
        None \<Rightarrow> identify_cookie h w
      | Some tok \<Rightarrow>
          (case find_token tok w of
             (Some user, w1) \<Rightarrow> (Some user, w1)
           | (None, w1) \<Rightarrow> identify_cookie h w1))"

section \<open>Replies\<close>

definition ttl_secs :: "duration \<Rightarrow> int" where
  "ttl_secs ttl = max 1 (if ttl < 0 then - ((- ttl) div second) else ttl div second)"

definition json_reply :: "(json \<Rightarrow> string) \<Rightarrow> header \<Rightarrow> (string \<times> json) list \<Rightarrow> response" where
  "json_reply text h kvs = server_reply 200 (h @ [(''Content-Type'', [''application/json''])]) (text (JObj kvs))"

definition session_cookie :: "string \<Rightarrow> header" where
  "session_cookie token = [(''Set-Cookie'', [''session='' @ sanitize_cookie_value token @ ''; Path=/; HttpOnly''])]"

definition html_reply :: "header \<Rightarrow> string \<Rightarrow> response" where
  "html_reply h body = server_reply 200 (h @ [(''Content-Type'', [''text/html; charset=utf-8''])]) body"

text \<open>What \<open>/login\<close> and \<open>/csrf-login\<close> answer, and \<open>/oauth/token\<close>, which adds the type.\<close>

definition login_reply :: "(json \<Rightarrow> string) \<Rightarrow> string \<Rightarrow> (string \<times> json) list \<Rightarrow> duration \<Rightarrow> response" where
  "login_reply text token extra ttl =
     json_reply text (session_cookie token)
       ([(''access_token'', jstring token), (''expires_in'', JNum (integer_text (ttl_secs ttl)))] @ extra)"

section \<open>Handlers\<close>

text \<open>The check of the password, which every login makes.\<close>

definition good_password :: "request \<Rightarrow> bool" where
  "good_password q \<longleftrightarrow> map_of valid_users (form_value q ''username'') = Some (form_value q ''password'')"

definition target_login ::
  "(string \<Rightarrow> target_world \<Rightarrow> response) \<Rightarrow> request \<Rightarrow> (target_world, response) io" where
  "target_login reply q w =
     (if \<not> good_password q then (http_error ''invalid credentials'' 401, w)
      else (let (token, w1) = mint (form_value q ''username'') w in (reply token w1, w1)))"

definition form_login :: "(json \<Rightarrow> string) \<Rightarrow> request \<Rightarrow> (target_world, response) io" where
  "form_login text = target_login (\<lambda>token w. login_reply text token [] (tw_ttl w))"

definition oauth_token_handler :: "(json \<Rightarrow> string) \<Rightarrow> request \<Rightarrow> (target_world, response) io" where
  "oauth_token_handler text q w =
     (if form_value q ''grant_type'' \<noteq> ''password'' then (http_error ''unsupported_grant_type'' 400, w)
      else target_login (\<lambda>token w. login_reply text token [(''token_type'', jstring ''bearer'')] (tw_ttl w)) q w)"

definition line :: "string \<Rightarrow> string" where
  "line s = s @ [CHR 0x0A]"

definition csrf_page :: "string \<Rightarrow> string" where
  "csrf_page csrf =
     line ''<!doctype html><html><body>'' @
     line ''<form method=\"post\" action=\"/csrf-login\">'' @
     line (''<input type=\"hidden\" name=\"csrf\" value=\"'' @ html_escape csrf @ ''\">'') @
     line ''<input name=\"username\"><input name=\"password\" type=\"password\">'' @
     line ''<button type=\"submit\">Log in</button>'' @
     ''</form></body></html>''"

definition csrf_form :: "request \<Rightarrow> (target_world, response) io" where
  "csrf_form q w =
     (let (csrf, w1) = mint_csrf w
      in (html_reply [(''Set-Cookie'', [''csrf_cookie='' @ sanitize_cookie_value csrf @ ''; Path=/''])] (csrf_page csrf), w1))"

definition csrf_login :: "(json \<Rightarrow> string) \<Rightarrow> request \<Rightarrow> (target_world, response) io" where
  "csrf_login text q w =
     (let field = form_value q ''csrf''; cookie = request_cookie (rq_header q) ''csrf_cookie'' in
      if field = [] \<or> cookie \<noteq> Some field \<or> \<not> valid_csrf field w
      then (http_error ''csrf validation failed'' 403, w)
      else target_login (\<lambda>token w. login_reply text token [] (tw_ttl w)) q w)"

definition sso_page :: string where
  "sso_page =
     line ''<!doctype html><html><body>'' @
     line ''<form id=\"ssoform\" method=\"post\" action=\"/sso\">'' @
     line ''<input id=\"user\" name=\"username\">'' @
     line ''<input id=\"pass\" name=\"password\" type=\"password\">'' @
     line ''<button type=\"submit\">Sign in</button>'' @
     ''</form></body></html>''"

definition sso_login :: "request \<Rightarrow> (target_world, response) io" where
  "sso_login q =
     target_login (\<lambda>token w. server_reply 303 (session_cookie token @ [(''Location'', [''/dashboard''])]) []) q"

text \<open>The bytes of a cookie value need no escape in the verb \<open>%q\<close>.\<close>

definition dashboard :: "request \<Rightarrow> (target_world, response) io" where
  "dashboard q w =
     (let (who, w1) = identify (rq_header q) w;
          user = (case who of None \<Rightarrow> [] | Some u \<Rightarrow> u);
          token = (case request_cookie (rq_header q) ''session'' of None \<Rightarrow> [] | Some c \<Rightarrow> c)
      in (html_reply []
            (line ''<!doctype html><html><body>'' @
             line (''<div id=\"dashboard\">Welcome '' @ html_escape user @ ''</div>'') @
             line (''<script>localStorage.setItem('' @ [CHR 0x27] @ ''access_token'' @ [CHR 0x27] @ '', \"'' @ token @ ''\")</script>'') @
             ''</body></html>''), w1))"

definition record_reply :: "(json \<Rightarrow> string) \<Rightarrow> string \<Rightarrow> response" where
  "record_reply text owner =
     json_reply text [] [(''owner'', jstring owner), (''record'', jstring (''private record for '' @ owner))]"

definition records :: "(json \<Rightarrow> string) \<Rightarrow> string \<Rightarrow> request \<Rightarrow> (target_world, response) io" where
  "records text owner q w =
     (case identify (rq_header q) w of
        (None, w1) \<Rightarrow> (http_error ''unauthorized'' 401, w1)
      | (Some user, w1) \<Rightarrow>
          if user \<noteq> owner then (http_error ''forbidden'' 403, w1) else (record_reply text owner, w1))"

definition idor :: "(json \<Rightarrow> string) \<Rightarrow> string \<Rightarrow> request \<Rightarrow> (target_world, response) io" where
  "idor text owner q w =
     (case identify (rq_header q) w of
        (None, w1) \<Rightarrow> (http_error ''unauthorized'' 401, w1)
      | (Some _, w1) \<Rightarrow> (record_reply text owner, w1))"

definition whoami :: "(json \<Rightarrow> string) \<Rightarrow> request \<Rightarrow> (target_world, response) io" where
  "whoami text q w =
     (case identify (rq_header q) w of
        (None, w1) \<Rightarrow> (http_error ''unauthorized'' 401, w1)
      | (Some user, w1) \<Rightarrow> (json_reply text [] [(''user'', jstring user)], w1))"

definition search :: "request \<Rightarrow> response" where
  "search q =
     html_reply []
       (line ''<!doctype html><html><body>'' @
        line (''<p>Results for: '' @ html_escape (query_value q ''q'') @ ''</p>'') @ ''</body></html>'')"

section \<open>The routes\<close>

datatype endpoint =
    FormLogin | OauthToken | CsrfForm | CsrfLogin | SsoForm | SsoLogin | Dashboard | Records | Idor
  | Whoami | Search

definition target_routes :: "endpoint pattern list" where
  "target_routes =
     [(''POST'', [Literal ''login''], FormLogin), (''POST'', [Literal ''oauth'', Literal ''token''], OauthToken),
      (''GET'', [Literal ''csrf-form''], CsrfForm), (''POST'', [Literal ''csrf-login''], CsrfLogin),
      (''GET'', [Literal ''sso''], SsoForm), (''POST'', [Literal ''sso''], SsoLogin),
      (''GET'', [Literal ''dashboard''], Dashboard), (''GET'', [Literal ''records'', Wildcard], Records),
      (''GET'', [Literal ''idor'', Wildcard], Idor), (''GET'', [Literal ''whoami''], Whoami),
      (''GET'', [Literal ''search''], Search)]"

definition target_endpoint ::
  "(json \<Rightarrow> string) \<Rightarrow> endpoint \<Rightarrow> string list \<Rightarrow> request \<Rightarrow> (target_world, response) io" where
  "target_endpoint text e vs q w =
     (case e of
        FormLogin \<Rightarrow> form_login text q w
      | OauthToken \<Rightarrow> oauth_token_handler text q w
      | CsrfForm \<Rightarrow> csrf_form q w
      | CsrfLogin \<Rightarrow> csrf_login text q w
      | SsoForm \<Rightarrow> (html_reply [] sso_page, w)
      | SsoLogin \<Rightarrow> sso_login q w
      | Dashboard \<Rightarrow> dashboard q w
      | Records \<Rightarrow> records text (hd vs) q w
      | Idor \<Rightarrow> idor text (hd vs) q w
      | Whoami \<Rightarrow> whoami text q w
      | Search \<Rightarrow> (search q, w))"

definition target_mux :: "(json \<Rightarrow> string) \<Rightarrow> request \<Rightarrow> (target_world, response) io" where
  "target_mux text = serve_mux target_routes (target_endpoint text)"

text \<open>The server as the other end of an HTTP client.\<close>

definition target_client :: "(json \<Rightarrow> string) \<Rightarrow> target_world client" where
  "target_client text q w = (case target_mux text q w of (resp, w1) \<Rightarrow> (Inr resp, w1))"

end
