(* ===== verification/Target_Facts.thy ===== *)
theory Target_Facts
  imports Target Replay Mock_Properties
begin

text \<open>
  What the acceptance target makes of a session, and what replay sees of it.  The interface that
  replay relies on is the locale \<open>acting_source\<close>: a source of sessions that the target knows.  The
  store with warm sessions is one provider, the control client of a daemon with that store the other.
\<close>

section \<open>Who is asking\<close>

lemma bearer_of_applied:
  assumes "s_bearer s \<noteq> []" and "s_headers s = []"
  shows "bearer_of (apply_header s h) = Some (s_bearer s)"
proof -
  have "hvalues (apply_header s h) ''Authorization'' = [''Bearer '' @ s_bearer s]"
    using apply_header_authorization [of s h] assms by (simp add: pinned_def)
  then show ?thesis using assms(1) by (simp add: bearer_of_def hget_def)
qed

lemma find_live_token:
  assumes "map_of (tw_toks w) tok = Some \<lparr>us_user = u, us_expiry = t\<rparr>" and "tok \<noteq> []" and "tw_now w \<le> t"
  shows "find_token tok w = (Some u, snd (target_clock w))"
  using assms by (simp add: find_token_def target_clock_def)

lemma identify_applied:
  assumes "map_of (tw_toks w) (s_bearer s) = Some \<lparr>us_user = u, us_expiry = t\<rparr>" and "tw_now w \<le> t"
    and "s_bearer s \<noteq> []" and "s_headers s = []"
  shows "identify (apply_header s h) w = (Some u, snd (target_clock w))"
  using bearer_of_applied [OF assms(3,4)] find_live_token [OF assms(1,3,2)] by (simp add: identify_def)

lemma identify_nobody: "hvalues h ''Authorization'' = [] \<Longrightarrow> hvalues h ''Cookie'' = [] \<Longrightarrow> identify h w = (None, w)"
  by (simp add: identify_def bearer_of_def hget_def identify_cookie_def request_cookie_def map_filter_simps)

section \<open>Requests below a target without a path\<close>

definition plain_path :: "string \<Rightarrow> bool" where
  "plain_path p \<longleftrightarrow> valid_encoded p EncodePath \<and> unescape EncodePath p = Some p \<and> prefix ''/'' p \<and> CHR ''{'' \<notin> set p"

lemma request_below:
  assumes "web_scheme scheme" and "plain_host h" and "plain_path p" and "valid_method m"
  shows "\<exists>req. new_request m (scheme @ ''://'' @ h @ p) body = Inr req \<and> escaped_path (rq_url req) = p \<and>
    rq_method req = m \<and> rq_header req = [] \<and> rq_body req = body"
    and "\<exists>u. url_parse (scheme @ ''://'' @ h @ p) = Inr u"
proof -
  from assms(3) have p: "valid_encoded p EncodePath" "unescape EncodePath p = Some p" "prefix ''/'' p"
    by (simp_all add: plain_path_def)
  have "url_parse (scheme @ ''://'' @ h @ p @ query_part []) = Inr (built_url scheme h p p [])"
    by (rule url_parse_built [OF assms(1,2) p]) (simp add: plain_query_def has_ctl_byte_def)
  then have u: "url_parse (scheme @ ''://'' @ h @ p) = Inr (built_url scheme h p p [])"
    by (simp add: query_part_def)
  then show "\<exists>u. url_parse (scheme @ ''://'' @ h @ p) = Inr u" by blast
  have "m \<noteq> []" using assms(4) by (simp add: valid_method_def)
  moreover have "escaped_path ((built_url scheme h p p [])\<lparr>u_host := x\<rparr>) = p" for x
    using built_url_path [OF p, of scheme h "[]"] by (simp only: escaped_path_host)
  ultimately show "\<exists>req. new_request m (scheme @ ''://'' @ h @ p) body = Inr req \<and> escaped_path (rq_url req) = p \<and>
      rq_method req = m \<and> rq_header req = [] \<and> rq_body req = body"
    using u assms(4) by (simp add: new_request_def)
qed

lemma no_template:
  assumes "web_scheme scheme" and "plain_host h" and "plain_path p"
  shows "CHR ''{'' \<notin> set (scheme @ ''://'' @ h @ p)"
proof -
  have "byte (CHR ''{'') = 123" by (simp add: byte_def)
  then have "CHR ''{'' \<notin> set h" using plain_host_byte [OF assms(2), of "CHR ''{''"] by auto
  moreover have "CHR ''{'' \<notin> set p" using assms(3) by (simp add: plain_path_def)
  ultimately show ?thesis using assms(1) by (auto simp: web_scheme_def)
qed

section \<open>What a route answers\<close>

text \<open>A request for \<open>/<kind>/<owner>\<close>, and a status that depends only on who is asking.\<close>

definition asks_for :: "string \<Rightarrow> string \<Rightarrow> request \<Rightarrow> bool" where
  "asks_for kind owner q \<longleftrightarrow>
     rq_method q = ''GET'' \<and> clean_path (escaped_path (rq_url q)) = escaped_path (rq_url q) \<and>
     path_segments (escaped_path (rq_url q)) = [kind, owner] \<and> owner \<noteq> ''/''"

definition answers :: "(json \<Rightarrow> string) \<Rightarrow> (string option \<Rightarrow> int) \<Rightarrow> request \<Rightarrow> bool" where
  "answers text status req \<longleftrightarrow>
     (\<forall>q w. rq_url q = rq_url req \<and> rq_method q = rq_method req \<longrightarrow>
        (\<exists>resp. target_client text q w = (Inr resp, snd (identify (rq_header q) w)) \<and>
           rs_status resp = status (fst (identify (rq_header q) w)) \<and> rs_read_error resp = None))"

definition records_status :: "string \<Rightarrow> string option \<Rightarrow> int" where
  "records_status owner who = (case who of None \<Rightarrow> 401 | Some u \<Rightarrow> if u = owner then 200 else 403)"

definition idor_status :: "string option \<Rightarrow> int" where
  "idor_status who = (case who of None \<Rightarrow> 401 | Some u \<Rightarrow> 200)"

lemma record_routes:
  assumes "asks_for kind owner q"
  shows "kind = ''records'' \<Longrightarrow> target_mux text q w = records text owner q w"
    and "kind = ''idor'' \<Longrightarrow> target_mux text q w = idor text owner q w"
proof -
  from assms have a: "rq_method q = ''GET''" "clean_path (escaped_path (rq_url q)) = escaped_path (rq_url q)"
    "path_segments (escaped_path (rq_url q)) = [kind, owner]" "owner \<noteq> ''/''" by (simp_all add: asks_for_def)
  have r: "serve_route target_routes ''GET'' [''records'', owner] = Some (Records, [owner])"
    "serve_route target_routes ''GET'' [''idor'', owner] = Some (Idor, [owner])"
    using a(4) by (simp_all add: serve_route_def target_routes_def)
  note mux = serve_mux_route [OF refl a(2), where rts = target_routes and vs = "[owner]", unfolded a(1,3)]
  show "target_mux text q w = records text owner q w" if "kind = ''records''"
    using mux [where e = Records and handle = "target_endpoint text" and w = w] r(1) a(1) that
    by (simp add: target_mux_def target_endpoint_def)
  show "target_mux text q w = idor text owner q w" if "kind = ''idor''"
    using mux [where e = Idor and handle = "target_endpoint text" and w = w] r(2) a(1) that
    by (simp add: target_mux_def target_endpoint_def)
qed

lemma record_reply_simps [simp]: "rs_status (record_reply text who) = 200" "rs_read_error (record_reply text who) = None"
  by (simp_all add: record_reply_def json_reply_def)

lemma asks_for_cong:
  "rq_url q = rq_url req \<Longrightarrow> rq_method q = rq_method req \<Longrightarrow> asks_for kind owner req \<Longrightarrow> asks_for kind owner q"
  by (simp add: asks_for_def)

lemma records_answers: "asks_for ''records'' owner req \<Longrightarrow> answers text (records_status owner) req"
  unfolding answers_def
  by (auto simp: target_client_def record_routes(1) [OF asks_for_cong] records_def records_status_def
      case_prod_beta split: option.split)

lemma idor_answers: "asks_for ''idor'' owner req \<Longrightarrow> answers text idor_status req"
  unfolding answers_def
  by (auto simp: target_client_def record_routes(2) [OF asks_for_cong] idor_def idor_status_def
      case_prod_beta split: option.split)

section \<open>A source of sessions the target knows\<close>

text \<open>A turn of replay leaves the tokens as they are and takes at most four readings of the clock.\<close>

definition later :: "target_world \<Rightarrow> target_world \<Rightarrow> bool" where
  "later w w' \<longleftrightarrow> tw_toks w' = tw_toks w \<and> tw_now w \<le> tw_now w' \<and> tw_now w' \<le> tw_now w + 4"

text \<open>The status of an identity's exchange, given what the route answers.\<close>

definition seen_status :: "(string \<Rightarrow> string) \<Rightarrow> (string option \<Rightarrow> int) \<Rightarrow> string \<Rightarrow> int" where
  "seen_status user status i = status (if i = ''anon'' then None else Some (user i))"

text \<open>
  \<open>acts n i st w\<close>: in the state \<open>st\<close> the source has a session for \<open>i\<close> that will do for \<open>n\<close> more
  turns; the target takes it for the user \<open>user i\<close>.
\<close>

locale acting_source =
  fixes get :: "('e, 's, target_world) source"
    and acts :: "nat \<Rightarrow> string \<Rightarrow> 's \<Rightarrow> target_world \<Rightarrow> bool"
    and user :: "string \<Rightarrow> string"
  assumes get_acts: "acts (Suc n) i st w \<Longrightarrow> \<exists>s st' t. get i st w = (Inr s, st', snd (target_clock w)) \<and>
      s_bearer s \<noteq> [] \<and> s_headers s = [] \<and>
      map_of (tw_toks w) (s_bearer s) = Some \<lparr>us_user = user i, us_expiry = t\<rparr> \<and> tw_now w + 4 \<le> t"
    and acts_get: "acts (Suc n) i st w \<Longrightarrow> get i st w = (x, st', w1) \<Longrightarrow> acts (Suc n) j st w \<Longrightarrow>
      later w w' \<Longrightarrow> acts n j st' w'"
    and acts_later: "acts (Suc n) j st w \<Longrightarrow> later w w' \<Longrightarrow> acts n j st w'"
begin

lemma exchange_answered:
  assumes "rn_tick env = target_clock" and "rn_client env = target_client text" and "answers text status req"
    and "rq_url q = rq_url req" and "rq_method q = rq_method req"
    and "identify (rq_header q) (snd (target_clock w)) = (who, v)"
  shows "\<exists>r. exchange_result env i q w = (r, snd (target_clock v)) \<and> res_status r = status who \<and> \<not> is_failure r"
proof -
  from assms(3) [unfolded answers_def, rule_format, OF conjI [OF assms(4,5)], of "snd (target_clock w)"] assms(6)
  obtain resp where
    "target_client text q (snd (target_clock w)) = (Inr resp, v)" "rs_status resp = status who" "rs_read_error resp = None"
    by auto
  then show ?thesis
    using assms(1,2) by (auto simp: exchange_result_def is_failure_def case_prod_beta)
qed

lemma turn:
  assumes env: "rn_get env = get" "rn_tick env = target_clock" "rn_client env = target_client text"
    and req: "base_request ''GET'' url [] [] = Inr req" "answers text status req"
    and who: "i = ''anon'' \<or> acts (Suc n) i st w"
  shows "\<exists>r t st' w'. replay_one env ''GET'' url [] [] i st w = ((r, t), st', w') \<and>
    res_status r = seen_status user status i \<and> \<not> is_failure r \<and> later w w' \<and>
    (\<forall>j. acts (Suc n) j st w \<longrightarrow> acts n j st' w')"
proof (cases "i = ''anon''")
  case True
  have "rq_header req = []" using base_request_some(3) [OF req(1)] by simp
  then have "identify (rq_header req) (snd (target_clock w)) = (None, snd (target_clock w))"
    by (simp add: identify_nobody)
  from exchange_answered [OF env(2,3) req(2) refl refl this] obtain r where
    r: "exchange_result env i req w = (r, snd (target_clock (snd (target_clock w))))"
      "res_status r = status None" "\<not> is_failure r" by blast
  have l: "later w (snd (target_clock (snd (target_clock w))))" by (simp add: later_def target_clock_def)
  show ?thesis
    using True req(1) r l acts_later [OF _ l] by (auto simp: replay_one_def seen_status_def)
next
  case False
  with who have a: "acts (Suc n) i st w" by simp
  let ?tick = "\<lambda>w. snd (target_clock w)"
  from get_acts [OF a] obtain s st' t where s: "get i st w = (Inr s, st', ?tick w)" "s_bearer s \<noteq> []" "s_headers s = []"
    "map_of (tw_toks w) (s_bearer s) = Some \<lparr>us_user = user i, us_expiry = t\<rparr>" "tw_now w + 4 \<le> t" by blast
  have "identify (apply_header s (rq_header req)) (?tick (?tick w)) = (Some (user i), ?tick (?tick (?tick w)))"
    by (rule identify_applied [where t = t]) (use s in \<open>simp_all add: target_clock_def\<close>)
  then have "identify (rq_header (apply_session s req)) (?tick (?tick w)) = (Some (user i), ?tick (?tick (?tick w)))"
    by simp
  from exchange_answered [OF env(2,3) req(2) _ _ this] obtain r where
    r: "exchange_result env i (apply_session s req) (?tick w) = (r, ?tick (?tick (?tick (?tick w))))"
      "res_status r = status (Some (user i))" "\<not> is_failure r" by auto
  have l: "later w (?tick (?tick (?tick (?tick w))))" by (simp add: later_def target_clock_def)
  show ?thesis
    using False req(1) env(1) s(1) r l acts_get [OF a s(1) _ l] by (auto simp: replay_one_def seen_status_def)
qed

lemma matrix_row:
  assumes "rn_get env = get" "rn_tick env = target_clock" "rn_client env = target_client text"
    and "base_request ''GET'' url [] [] = Inr req" "answers text status req"
    and "\<forall>i \<in> set is. i = ''anon'' \<or> acts (length is + m) i st w"
    and "replay_run env is ''GET'' url [] [] st w = ((rs, ts), st', w')"
  shows "map res_status rs = map (seen_status user status) is \<and> list_all (\<lambda>r. \<not> is_failure r) rs \<and>
    (\<forall>j. acts (length is + m) j st w \<longrightarrow> acts m j st' w')"
  using assms(6,7)
proof (induction "is" arbitrary: st w rs ts)
  case (Cons i "is")
  from Cons.prems(1) have "i = ''anon'' \<or> acts (Suc (length is + m)) i st w" by simp
  from turn [OF assms(1-5) this] obtain r t st1 w1 where one:
    "replay_one env ''GET'' url [] [] i st w = ((r, t), st1, w1)" "res_status r = seen_status user status i"
    "\<not> is_failure r" "\<forall>j. acts (Suc (length is + m)) j st w \<longrightarrow> acts (length is + m) j st1 w1" by blast
  obtain rs1 ts1 st2 w2 where rest: "replay_run env is ''GET'' url [] [] st1 w1 = ((rs1, ts1), st2, w2)"
    by (metis prod.collapse)
  with Cons.prems(2) one(1) have out: "rs = r # rs1" "st2 = st'" "w2 = w'" by auto
  from Cons.prems(1) one(4) have "\<forall>j \<in> set is. j = ''anon'' \<or> acts (length is + m) j st1 w1" by auto
  from Cons.IH [OF this] rest out one(2-4) show ?case by auto
qed simp

text \<open>A whole corpus of requests whose answers depend only on who is asking.\<close>

lemma matrix_rows:
  assumes env: "rn_get env = get" "rn_tick env = target_clock" "rn_client env = target_client text"
    and xs: "\<forall>x \<in> set xs. q_method (f x) = ''GET'' \<and> q_header (f x) = [] \<and> q_body (f x) = [] \<and>
      (\<exists>req. base_request ''GET'' (base @ q_path (f x)) [] [] = Inr req \<and> answers text (status x) req)"
    and "\<forall>i \<in> set is. i = ''anon'' \<or> acts (length xs * length is) i st w"
    and "replay_rows env is (map f xs) base st w = ((rows, ts), st', w')"
  shows "map (\<lambda>row. map res_status (row_results row)) rows = map (\<lambda>x. map (seen_status user (status x)) is) xs \<and>
    list_all (\<lambda>row. list_all (\<lambda>r. \<not> is_failure r) (row_results row)) rows"
  using xs assms(5,6)
proof (induction xs arbitrary: st w rows ts)
  case (Cons x xs)
  let ?q = "f x"
  from Cons.prems(1) obtain req where q: "q_method ?q = ''GET''" "q_header ?q = []" "q_body ?q = []"
    "base_request ''GET'' (base @ q_path ?q) [] [] = Inr req" "answers text (status x) req" by auto
  obtain rs t st1 w1 where one: "replay_run env is ''GET'' (base @ q_path ?q) [] [] st w = ((rs, t), st1, w1)"
    by (metis prod.collapse)
  have "\<forall>i \<in> set is. i = ''anon'' \<or> acts (length is + length xs * length is) i st w"
    using Cons.prems(2) by simp
  from matrix_row [OF env q(4,5) this one] have row: "map res_status rs = map (seen_status user (status x)) is"
    "list_all (\<lambda>r. \<not> is_failure r) rs"
    "\<forall>j. acts (length is + length xs * length is) j st w \<longrightarrow> acts (length xs * length is) j st1 w1"
    by simp_all
  obtain rows1 ts1 st2 w2 where rest: "replay_rows env is (map f xs) base st1 w1 = ((rows1, ts1), st2, w2)"
    by (metis prod.collapse)
  with Cons.prems(3) one q(1-3) have out: "rows = \<lparr>row_request = ?q, row_results = rs\<rparr> # rows1" "st2 = st'" "w2 = w'"
    by auto
  from Cons.prems(2) row(3) have "\<forall>i \<in> set is. i = ''anon'' \<or> acts (length xs * length is) i st1 w1" by auto
  from Cons.IH [OF _ this] Cons.prems(1) rest out row(1,2) show ?case by simp
qed simp

end

end
