(* ===== verification/Target_Properties.thy ===== *)
theory Target_Properties
  imports Target_Facts Attach_Properties
begin

text \<open>
  Replay against the acceptance target: the matrix that the command prints is the target's
  authorization, cell by cell, whether the sessions come from a store or from a running daemon.
\<close>

section \<open>A store with warm sessions\<close>

text \<open>
  Identity \<open>i\<close> has a session that the target takes for \<open>user i\<close>, and both live for \<open>n\<close> more turns.
\<close>

definition warm :: "(string \<Rightarrow> string) \<Rightarrow> nat \<Rightarrow> string \<Rightarrow> target_world store \<Rightarrow> target_world \<Rightarrow> bool" where
  "warm user n i st w \<longleftrightarrow>
     (case lookup i st of
        Inl _ \<Rightarrow> False
      | Inr e \<Rightarrow>
          (case e_session e of
             None \<Rightarrow> False
           | Some (_, s) \<Rightarrow>
               session_ok i s \<and> s_bearer s \<noteq> [] \<and> \<not> expired s (tw_now w + 4 * int n) \<and>
               (case map_of (tw_toks w) (s_bearer s) of
                  None \<Rightarrow> False
                | Some us \<Rightarrow> us_user us = user i \<and> tw_now w + 4 * int n \<le> us_expiry us)))"

lemma warmE:
  assumes "warm user n i st w"
  obtains e a s t where "lookup i st = Inr e" "e_session e = Some (a, s)" "session_ok i s" "s_bearer s \<noteq> []"
    "\<not> expired s (tw_now w + 4 * int n)" "map_of (tw_toks w) (s_bearer s) = Some \<lparr>us_user = user i, us_expiry = t\<rparr>"
    "tw_now w + 4 * int n \<le> t"
proof -
  from assms obtain e a s us where "lookup i st = Inr e" "e_session e = Some (a, s)" "session_ok i s" "s_bearer s \<noteq> []"
    "\<not> expired s (tw_now w + 4 * int n)" "map_of (tw_toks w) (s_bearer s) = Some us" "us_user us = user i"
    "tw_now w + 4 * int n \<le> us_expiry us"
    by (auto simp: warm_def split: sum.splits option.splits)
  with that [of e a s "us_expiry us"] show thesis by (cases us) simp
qed

lemma warm_get:
  assumes "warm user n i st w"
  obtains e s t where "lookup i st = Inr e" "store_get target_clock i st w = (Inr s, put_entry i e st, snd (target_clock w))"
    "session_ok i s" "s_bearer s \<noteq> []" "map_of (tw_toks w) (s_bearer s) = Some \<lparr>us_user = user i, us_expiry = t\<rparr>"
    "tw_now w + 4 * int n \<le> t"
proof -
  from assms obtain e a s t where s: "lookup i st = Inr e" "e_session e = Some (a, s)" "session_ok i s" "s_bearer s \<noteq> []"
    "\<not> expired s (tw_now w + 4 * int n)" "map_of (tw_toks w) (s_bearer s) = Some \<lparr>us_user = user i, us_expiry = t\<rparr>"
    "tw_now w + 4 * int n \<le> t" by (rule warmE)
  have "\<not> expired s (tw_now w)" using s(5) expired_mono [of s "tw_now w" "tw_now w + 4 * int n"] by auto
  with s(1,2) have "store_get target_clock i st w = (Inr s, put_entry i e st, snd (target_clock w))"
    by (simp add: store_get_def get_entry_def snapshot_def check_live_def target_clock_def)
  from that [OF s(1) this s(3,4,6,7)] show thesis .
qed

lemma warm_later:
  assumes "warm user (Suc n) j st w" and "later w w'"
  shows "warm user n j st w'"
proof -
  from assms(1) obtain e a s t where s: "lookup j st = Inr e" "e_session e = Some (a, s)" "session_ok j s" "s_bearer s \<noteq> []"
    "\<not> expired s (tw_now w + 4 * int (Suc n))" "map_of (tw_toks w) (s_bearer s) = Some \<lparr>us_user = user j, us_expiry = t\<rparr>"
    "tw_now w + 4 * int (Suc n) \<le> t" by (rule warmE)
  from assms(2) have l: "tw_toks w' = tw_toks w" "tw_now w' + 4 * int n \<le> tw_now w + 4 * int (Suc n)"
    by (simp_all add: later_def)
  have "\<not> expired s (tw_now w' + 4 * int n)" using s(5) expired_mono l(2) by blast
  with s l show ?thesis by (simp add: warm_def)
qed

lemma warm_put: "lookup i st = Inr e \<Longrightarrow> warm user n j (put_entry i e st) w = warm user n j st w"
  by (cases "i = j") (simp_all add: warm_def lookup_def put_entry_def split: option.splits)

interpretation store_acts: acting_source "store_get target_clock" "warm user" user for user
proof unfold_locales
  fix n i st w
  assume "warm user (Suc n) i st w"
  then obtain e s t where "store_get target_clock i st w = (Inr s, put_entry i e st, snd (target_clock w))"
    "session_ok i s" "s_bearer s \<noteq> []" "map_of (tw_toks w) (s_bearer s) = Some \<lparr>us_user = user i, us_expiry = t\<rparr>"
    "tw_now w + 4 * int (Suc n) \<le> t" by (rule warm_get)
  then show "\<exists>s st' t. store_get target_clock i st w = (Inr s, st', snd (target_clock w)) \<and> s_bearer s \<noteq> [] \<and>
      s_headers s = [] \<and> map_of (tw_toks w) (s_bearer s) = Some \<lparr>us_user = user i, us_expiry = t\<rparr> \<and> tw_now w + 4 \<le> t"
    by (intro exI [of _ s] exI [of _ "put_entry i e st"] exI [of _ t]) (simp add: session_ok_def)
next
  fix n i st w x st' w1 j w'
  assume i: "warm user (Suc n) i st w" and get: "store_get target_clock i st w = (x, st', w1)"
    and j: "warm user (Suc n) j st w" "later w w'"
  from i obtain e s where "lookup i st = Inr e" "store_get target_clock i st w = (Inr s, put_entry i e st, snd (target_clock w))"
    by (rule warm_get)
  with get warm_later [OF j] show "warm user n j st' w'" by (auto simp: warm_put)
qed (rule warm_later)

section \<open>The same sessions over the control socket\<close>

definition attached_warm :: "(string \<Rightarrow> string) \<Rightarrow> nat \<Rightarrow> string \<Rightarrow> target_world store \<Rightarrow> target_world \<Rightarrow> bool" where
  "attached_warm user n i st w \<longleftrightarrow> warm user n i st w \<and> store_ok st \<and> plain_name i \<and>
     (case lookup i st of
        Inl _ \<Rightarrow> False
      | Inr e \<Rightarrow> (case e_session e of None \<Rightarrow> False | Some (_, s) \<Rightarrow> valid_utf8 (s_bearer s)))"

lemma attached_warm_later: "attached_warm user (Suc n) j st w \<Longrightarrow> later w w' \<Longrightarrow> attached_warm user n j st w'"
  by (auto simp: attached_warm_def dest: warm_later)

lemma attached_warm_get:
  assumes "attached_warm user n i st w"
  obtains e s t where "lookup i st = Inr e" "store_ok (put_entry i e st)"
    "attached_get target_clock show_err i st w = (Inr s, put_entry i e st, snd (target_clock w))"
    "s_headers s = []" "s_bearer s \<noteq> []" "map_of (tw_toks w) (s_bearer s) = Some \<lparr>us_user = user i, us_expiry = t\<rparr>"
    "tw_now w + 4 * int n \<le> t"
proof -
  from assms have a: "warm user n i st w" "store_ok st" "plain_name i" by (simp_all add: attached_warm_def)
  from a(1) obtain e s t where s: "lookup i st = Inr e"
    "store_get target_clock i st w = (Inr s, put_entry i e st, snd (target_clock w))" "s_bearer s \<noteq> []"
    "map_of (tw_toks w) (s_bearer s) = Some \<lparr>us_user = user i, us_expiry = t\<rparr>" "tw_now w + 4 * int n \<le> t"
    by (rule warm_get)
  from a(1) s(1) obtain b s' where s': "e_session e = Some (b, s')" "\<not> expired s' (tw_now w + 4 * int n)"
    by (auto elim!: warmE)
  then have "\<not> expired s' (tw_now w)" using expired_mono [of s' "tw_now w" "tw_now w + 4 * int n"] by auto
  with s(1,2) s'(1) have "s = s'"
    by (simp add: store_get_def get_entry_def snapshot_def check_live_def target_clock_def)
  with assms s(1) s'(1) have v: "valid_utf8 (s_bearer s)" by (simp add: attached_warm_def)
  let ?s = "session_of_creds (sent_creds (creds_of_session s))"
  have "attached_get target_clock show_err i st w = (Inr ?s, put_entry i e st, snd (target_clock w))"
    using client_creds_eq [OF a(3,2), of target_clock show_err w] s(2) by (simp add: attached_get_def)
  moreover have "s_headers ?s = []" "s_bearer ?s = s_bearer s"
    using v by (simp_all add: sent_creds_def to_valid_utf8_id)
  moreover have "store_ok (put_entry i e st)" using store_get_ok(1) [OF s(2) a(2)] .
  ultimately show thesis using that [OF s(1)] s(3-5) by simp
qed

interpretation attached_acts: acting_source "attached_get target_clock show_err" "attached_warm user" user
  for show_err user
proof unfold_locales
  fix n i st w
  assume "attached_warm user (Suc n) i st w"
  then obtain e s t where "attached_get target_clock show_err i st w = (Inr s, put_entry i e st, snd (target_clock w))"
    "s_headers s = []" "s_bearer s \<noteq> []" "map_of (tw_toks w) (s_bearer s) = Some \<lparr>us_user = user i, us_expiry = t\<rparr>"
    "tw_now w + 4 * int (Suc n) \<le> t" by (rule attached_warm_get)
  then show "\<exists>s st' t. attached_get target_clock show_err i st w = (Inr s, st', snd (target_clock w)) \<and>
      s_bearer s \<noteq> [] \<and> s_headers s = [] \<and>
      map_of (tw_toks w) (s_bearer s) = Some \<lparr>us_user = user i, us_expiry = t\<rparr> \<and> tw_now w + 4 \<le> t"
    by (intro exI [of _ s] exI [of _ "put_entry i e st"] exI [of _ t]) simp
next
  fix n i st w x st' w1 j w'
  assume i: "attached_warm user (Suc n) i st w" and get: "attached_get target_clock show_err i st w = (x, st', w1)"
    and j: "attached_warm user (Suc n) j st w" "later w w'"
  from i obtain e s where e: "lookup i st = Inr e" "store_ok (put_entry i e st)"
    "attached_get target_clock show_err i st w = (Inr s, put_entry i e st, snd (target_clock w))"
    by (rule attached_warm_get)
  with get have st': "st' = put_entry i e st" by simp
  from attached_warm_later [OF j] have "attached_warm user n j st w'" .
  with e(1,2) show "attached_warm user n j st' w'"
    unfolding st' by (cases "i = j") (simp_all add: attached_warm_def warm_put store_simps)
qed (rule attached_warm_later)

section \<open>The requests\<close>

text \<open>A path of two segments of letters and digits, below a target without a path.\<close>

definition plain_segment :: "string \<Rightarrow> bool" where
  "plain_segment s \<longleftrightarrow> s \<noteq> [] \<and> list_all is_alnum s"

definition grid_path :: "string \<Rightarrow> string \<Rightarrow> string" where
  "grid_path kind owner = ''/'' @ kind @ ''/'' @ owner"

definition grid_request :: "string \<times> string \<Rightarrow> corpus_request" where
  "grid_request ko = path_request (grid_path (fst ko) (snd ko), ''GET'')"

lemma plain_segment_facts:
  assumes "plain_segment s"
  shows "CHR ''/'' \<notin> set s" "s \<noteq> []" "s \<noteq> ''.''" "s \<noteq> ''..''" "s \<noteq> ''/''" "escape s m = s"
    "last s \<noteq> CHR ''/''"
proof -
  from assms have a: "s \<noteq> []" "\<forall>c \<in> set s. is_alnum c" by (auto simp: plain_segment_def list_all_iff)
  have n: "\<not> is_alnum (CHR ''/'')" "\<not> is_alnum (CHR ''.'')" by code_simp+
  show "CHR ''/'' \<notin> set s" "s \<noteq> ''.''" "s \<noteq> ''..''" "s \<noteq> ''/''" using a n by auto
  then show "last s \<noteq> CHR ''/''" using a(1) last_in_set by metis
  show "s \<noteq> []" by (rule a(1))
  have "list_all (\<lambda>c. \<not> should_escape c m) s" using a(2) by (auto simp: list_all_iff should_escape_def)
  then show "escape s m = s" by (induction s) (simp_all add: escape_def)
qed

lemma grid_split:
  "plain_segment k \<Longrightarrow> plain_segment o' \<Longrightarrow> split_on (CHR ''/'') (grid_path k o') = [[], k, o']"
proof -
  assume a: "plain_segment k" "plain_segment o'"
  have "grid_path k o' = [] @ CHR ''/'' # k @ CHR ''/'' # o'" by (simp add: grid_path_def)
  then show ?thesis
    using plain_segment_facts(1) [OF a(1)] plain_segment_facts(1) [OF a(2)]
    by (simp add: split_on_plain split_on_sep)
qed

lemma grid_clean:
  assumes "plain_segment k" "plain_segment o'"
  shows "clean_path (grid_path k o') = grid_path k o'" "path_segments (grid_path k o') = [k, o']"
proof -
  note f = plain_segment_facts [OF assms(1)] and g = plain_segment_facts [OF assms(2)]
  have l: "last (grid_path k o') \<noteq> CHR ''/''" using g(2,7) by (simp add: grid_path_def)
  have "grid_path k o' \<noteq> []" "prefix ''/'' (grid_path k o')" by (simp_all add: grid_path_def)
  with l show "clean_path (grid_path k o') = grid_path k o'"
    using grid_split [OF assms] f g by (simp add: clean_path_def Let_def) (simp add: grid_path_def)
  have u: "path_unescape k = k" "path_unescape o' = o'"
    using unescape_escape [of EncodePathSegment] f(6) [of EncodePathSegment] g(6) [of EncodePathSegment]
    by (simp_all add: path_unescape_def) (metis encoding.distinct option.simps(5))+
  have "split_on (CHR ''/'') (tl (grid_path k o')) = [k, o']"
    using split_on_sep [OF f(1)] split_on_plain [OF g(1)] by (simp add: grid_path_def)
  then show "path_segments (grid_path k o') = [k, o']" using g(2) u by (simp add: path_segments_def)
qed

lemma grid_plain:
  assumes "plain_segment k" and "plain_segment o'"
  shows "plain_path (grid_path k o')"
proof -
  note f = plain_segment_facts [OF assms(1)] and g = plain_segment_facts [OF assms(2)]
  have "escape (grid_path k o') EncodePath = escape ''/'' EncodePath @ escape k EncodePath @ escape ''/'' EncodePath @ escape o' EncodePath"
    by (simp add: grid_path_def escape_def)
  then have e: "escape (grid_path k o') EncodePath = grid_path k o'" using f(6) g(6) slash_plain by (simp add: grid_path_def)
  have "\<not> is_alnum (CHR ''{'')" by code_simp
  then have "CHR ''{'' \<notin> set (grid_path k o')" using assms by (auto simp: plain_segment_def grid_path_def list_all_iff)
  with valid_escape [of "grid_path k o'"] unescape_escape [of EncodePath "grid_path k o'"] e show ?thesis
    by (simp add: plain_path_def grid_path_def)
qed

lemma grid_base_request:
  assumes "web_scheme scheme" and "plain_host h" and "plain_segment k" and "plain_segment o'"
  shows "\<exists>req. base_request ''GET'' ((scheme @ ''://'' @ h) @ grid_path k o') [] [] = Inr req \<and> asks_for k o' req"
proof -
  have "valid_method ''GET''" by code_simp
  from request_below(1) [OF assms(1,2) grid_plain [OF assms(3,4)] this] obtain req where
    "new_request ''GET'' (scheme @ ''://'' @ h @ grid_path k o') [] = Inr req" "escaped_path (rq_url req) = grid_path k o'"
    "rq_method req = ''GET''" by blast
  then show ?thesis
    using grid_clean [OF assms(3,4)] plain_segment_facts(5) [OF assms(4)] by (auto simp: base_request_def asks_for_def)
qed

section \<open>The matrix\<close>

text \<open>The status that the target's rules give user \<open>who\<close> for a path of the grid.\<close>

definition grid_status :: "string \<times> string \<Rightarrow> string option \<Rightarrow> int" where
  "grid_status ko = (if fst ko = ''idor'' then idor_status else records_status (snd ko))"

definition grid_ok :: "(string \<times> string) list \<Rightarrow> bool" where
  "grid_ok grid \<longleftrightarrow> list_all (\<lambda>(k, o'). (k = ''records'' \<or> k = ''idor'') \<and> plain_segment o') grid"

lemma grid_answers:
  assumes "web_scheme scheme" and "plain_host h" and "grid_ok grid" and "ko \<in> set grid"
  shows "\<exists>req. base_request ''GET'' ((scheme @ ''://'' @ h) @ q_path (grid_request ko)) [] [] = Inr req \<and>
    answers text (grid_status ko) req"
proof -
  obtain k o' where ko: "ko = (k, o')" by (cases ko)
  from assms(3,4) ko have k: "k = ''records'' \<or> k = ''idor''" "plain_segment o'"
    by (auto simp: grid_ok_def list_all_iff)
  have "plain_segment ''records''" "plain_segment ''idor''" by code_simp+
  with k have "plain_segment k" by auto
  from grid_base_request [OF assms(1,2) this k(2)] obtain req where
    "base_request ''GET'' ((scheme @ ''://'' @ h) @ grid_path k o') [] [] = Inr req" "asks_for k o' req" by blast
  then show ?thesis
    using k(1) records_answers idor_answers by (auto simp: ko grid_request_def path_request_def grid_status_def)
qed

lemma host_no_slash: "plain_host h \<Longrightarrow> trim_right (scheme @ ''://'' @ h) ''/'' = scheme @ ''://'' @ h"
proof -
  assume h: "plain_host h"
  then have "h \<noteq> []" by (simp add: plain_host_def)
  then obtain f c where hc: "h = f @ [c]" by (metis rev_exhaust)
  then have "c \<noteq> CHR ''/''" using plain_host_byte [OF h, of c] byte_marks(3) by auto
  then show ?thesis by (simp add: hc trim_right_def)
qed

lemma differ_plain:
  assumes "list_all (\<lambda>r. \<not> is_failure r) rs" and "\<forall>n \<in> set (map res_status rs). 0 \<le> n"
  shows "statuses_differ rs \<longleftrightarrow> (\<exists>m \<in> set (map res_status rs). \<exists>n \<in> set (map res_status rs). m \<noteq> n)"
proof (cases rs)
  case (Cons r rest)
  with assms have ok: "\<not> is_failure r" "res_status r \<noteq> -1" "\<forall>x \<in> set rest. \<not> is_failure x"
    by (auto simp: list_all_iff)
  then have "statuses_differ rs \<longleftrightarrow> (\<exists>x \<in> set rest. res_status x \<noteq> res_status r)"
    using differ_from_iff [OF ok(2)] Cons by (auto simp: statuses_differ_def)
  then show ?thesis using Cons by (auto; metis)
qed (simp add: statuses_differ_def)

lemma marker_of_row:
  assumes "map res_status rs = map f is" and "list_all (\<lambda>r. \<not> is_failure r) rs" and "\<And>i. 0 \<le> f i"
  shows "statuses_differ rs \<longleftrightarrow> (\<exists>i \<in> set is. \<exists>j \<in> set is. f i \<noteq> f j)"
  using differ_plain [OF assms(2)] assms(1,3) by auto

lemma seen_status_bounds: "0 \<le> seen_status user (grid_status ko) i"
  by (simp add: seen_status_def grid_status_def idor_status_def records_status_def split: option.split)

lemma corpus_matrix:
  fixes env :: "('e, 's, target_world) replay_env"
  assumes src: "acting_source (rn_get env) acts user" and env: "rn_tick env = target_clock" "rn_client env = target_client text"
    and target: "web_scheme scheme" "plain_host h" and grid: "grid_ok grid"
    and acts: "\<forall>i \<in> set is. i = ''anon'' \<or> acts (length grid * length is) i st w"
    and run: "run_corpus env is (map grid_request grid) (scheme @ ''://'' @ h) st w = ((rows, ts), st', w')"
  shows "map (\<lambda>row. map res_status (row_results row)) rows = map (\<lambda>ko. map (seen_status user (grid_status ko)) is) grid \<and>
    list_all (\<lambda>row. list_all (\<lambda>r. \<not> is_failure r) (row_results row)) rows"
proof (rule acting_source.matrix_rows [OF src refl env])
  show "\<forall>ko \<in> set grid. q_method (grid_request ko) = ''GET'' \<and> q_header (grid_request ko) = [] \<and>
      q_body (grid_request ko) = [] \<and>
      (\<exists>req. base_request ''GET'' ((scheme @ ''://'' @ h) @ q_path (grid_request ko)) [] [] = Inr req \<and>
        answers text (grid_status ko) req)"
    using grid_answers [OF target grid] by (simp add: grid_request_def path_request_def)
  show "replay_rows env is (map grid_request grid) (scheme @ ''://'' @ h) st w = ((rows, ts), st', w')"
    using run host_no_slash [OF target(2)] by (simp add: run_corpus_def)
qed (rule acts)

text \<open>The cell of an identity, written out, and the marker of a row.\<close>

definition cell :: "(string \<Rightarrow> string) \<Rightarrow> string \<times> string \<Rightarrow> string \<Rightarrow> int" where
  "cell user ko i =
     (if i = ''anon'' then 401 else if fst ko = ''records'' \<and> user i \<noteq> snd ko then 403 else 200)"

lemma cell_seen: "grid_ok grid \<Longrightarrow> ko \<in> set grid \<Longrightarrow> seen_status user (grid_status ko) i = cell user ko i"
  by (auto simp: grid_ok_def list_all_iff seen_status_def grid_status_def idor_status_def records_status_def cell_def)

definition marked :: "(string \<Rightarrow> string) \<Rightarrow> string list \<Rightarrow> string \<times> string \<Rightarrow> bool" where
  "marked user is ko \<longleftrightarrow> (\<exists>i \<in> set is. \<exists>j \<in> set is. cell user ko i \<noteq> cell user ko j)"

lemma matrix_markers:
  assumes "map (\<lambda>row. map res_status (row_results row)) rows = map (\<lambda>ko. map (cell user ko) is) grid"
    and "list_all (\<lambda>row. list_all (\<lambda>r. \<not> is_failure r) (row_results row)) rows"
  shows "map (\<lambda>row. statuses_differ (row_results row)) rows = map (marked user is) grid"
  using assms
proof (induction rows arbitrary: grid)
  case (Cons row rows)
  then obtain ko grid' where g: "grid = ko # grid'" "map res_status (row_results row) = map (cell user ko) is" by auto
  have "0 \<le> cell user ko i" for i by (simp add: cell_def)
  with Cons g marker_of_row [OF g(2)] show ?case by (simp add: marked_def)
qed simp

lemma corpus_matrix_cells:
  fixes env :: "('e, 's, target_world) replay_env"
  assumes "acting_source (rn_get env) acts user" and "rn_tick env = target_clock" "rn_client env = target_client text"
    and "web_scheme scheme" "plain_host h" and "grid_ok grid"
    and "\<forall>i \<in> set is. i = ''anon'' \<or> acts (length grid * length is) i st w"
    and "run_corpus env is (map grid_request grid) (scheme @ ''://'' @ h) st w = ((rows, ts), st', w')"
  shows "map (\<lambda>row. map res_status (row_results row)) rows = map (\<lambda>ko. map (cell user ko) is) grid \<and>
    map (\<lambda>row. statuses_differ (row_results row)) rows = map (marked user is) grid"
proof -
  have "map (\<lambda>ko. map (seen_status user (grid_status ko)) is) grid = map (\<lambda>ko. map (cell user ko) is) grid"
    using cell_seen [OF assms(6)] by simp
  with corpus_matrix [OF assms] have rows: "map (\<lambda>row. map res_status (row_results row)) rows
      = map (\<lambda>ko. map (cell user ko) is) grid"
    "list_all (\<lambda>row. list_all (\<lambda>r. \<not> is_failure r) (row_results row)) rows" by simp_all
  from matrix_markers [OF this] rows(1) show ?thesis by blast
qed

text \<open>C12: The matrix that a corpus replay prints is the target's authorization: for every identity whose
  session the target takes for its user, and for the baseline \<open>anon\<close>, each cell of a correctly
  protected record is 401, 403 or 200 as the user is nobody, somebody else or the owner, each cell of a
  broken one is 200 for everybody who is logged in, and a row is marked exactly when two of its cells
  differ.  So it is with the store's own sessions and with those of a daemon that is attached to.\<close>

theorem replay_shows_authorization:
  assumes "env = \<lparr>rn_get = store_get target_clock, rn_client = target_client text, rn_tick = target_clock\<rparr>"
    and "env' = \<lparr>rn_get = attached_get target_clock show_err, rn_client = target_client text, rn_tick = target_clock\<rparr>"
    and "web_scheme scheme" and "plain_host h" and "grid_ok grid"
    and "\<forall>i \<in> set is. i = ''anon'' \<or> attached_warm user (length grid * length is) i st w"
    and "run_corpus env is (map grid_request grid) (scheme @ ''://'' @ h) st w = ((rows, ts), st', w')"
    and "run_corpus env' is (map grid_request grid) (scheme @ ''://'' @ h) st w = ((rows', ts'), st'', w'')"
  shows "map (\<lambda>row. map res_status (row_results row)) rows = map (\<lambda>ko. map (cell user ko) is) grid \<and>
    map (\<lambda>row. map res_status (row_results row)) rows' = map (\<lambda>ko. map (cell user ko) is) grid \<and>
    map (\<lambda>row. statuses_differ (row_results row)) rows = map (marked user is) grid \<and>
    map (\<lambda>row. statuses_differ (row_results row)) rows' = map (marked user is) grid"
proof -
  have "\<forall>i \<in> set is. i = ''anon'' \<or> warm user (length grid * length is) i st w"
    using assms(6) by (auto simp: attached_warm_def)
  from corpus_matrix_cells [where acts = "warm user", OF _ _ _ assms(3-5) this assms(7)]
    store_acts.acting_source_axioms assms(1)
  have own: "map (\<lambda>row. map res_status (row_results row)) rows = map (\<lambda>ko. map (cell user ko) is) grid"
    "map (\<lambda>row. statuses_differ (row_results row)) rows = map (marked user is) grid" by simp_all
  from corpus_matrix_cells [where acts = "attached_warm user", OF _ _ _ assms(3-6) assms(8)]
    attached_acts.acting_source_axioms assms(2)
  have "map (\<lambda>row. map res_status (row_results row)) rows' = map (\<lambda>ko. map (cell user ko) is) grid"
    "map (\<lambda>row. statuses_differ (row_results row)) rows' = map (marked user is) grid" by simp_all
  with own show ?thesis by simp
qed

text \<open>Two identities and the target that knows their tokens.\<close>

definition grid_session :: "string \<Rightarrow> string \<Rightarrow> session" where
  "grid_session i tok = empty_session\<lparr>s_identity := i, s_bearer := tok\<rparr>"

definition grid_recipe :: "string \<Rightarrow> target_world recipe" where
  "grid_recipe i =
     \<lparr>r_identity = i, r_establish = (\<lambda>w. (Inl (LibError ''no login''), w)),
      r_refresh = (\<lambda>_ w. (Inl (LibError ''no login''), w)),
      r_logout = \<lparr>status_codes = [401], location_contains = [], body_contains = []\<rparr>\<rparr>"

definition grid_entry :: "string \<Rightarrow> string \<Rightarrow> target_world entry" where
  "grid_entry i tok = (new_entry (grid_recipe i))\<lparr>e_session := Some (0, grid_session i tok), e_next := 1\<rparr>"

definition grid_store :: "target_world store" where
  "grid_store = \<lparr>st_entries = [(''ada'', grid_entry ''ada'' ''ta''), (''ben'', grid_entry ''ben'' ''tb'')],
     st_max_burst = 10, st_window = 60 * second\<rparr>"

definition grid_world :: target_world where
  "grid_world = (new_token_store (8 * second) sample_now (\<lambda>_. Inl (LibError ''no entropy'')))
     \<lparr>tw_toks := [(''ta'', \<lparr>us_user = ''alice'', us_expiry = sample_now + 8 * second\<rparr>),
                 (''tb'', \<lparr>us_user = ''bob'', us_expiry = sample_now + 8 * second\<rparr>)]\<rparr>"

definition grid_user :: "string \<Rightarrow> string" where
  "grid_user i = (if i = ''ada'' then ''alice'' else ''bob'')"

lemma grid_store_ok: "store_ok grid_store"
proof -
  have "login_recipe (grid_recipe i)" for i by unfold_locales (simp_all add: grid_recipe_def)
  then show ?thesis
    by (auto simp: store_ok_def grid_store_def lookup_def entry_ok_def sessions_ok_def grid_entry_def new_entry_def
        grid_recipe_def grid_session_def session_ok_def has_material_def empty_session_def split: if_splits)
qed

lemma grid_warm:
  "i = ''ada'' \<or> i = ''ben'' \<Longrightarrow> attached_warm grid_user 6 i grid_store grid_world"
proof -
  have "valid_utf8 ''ta''" "valid_utf8 ''tb''" by code_simp+
  then show "i = ''ada'' \<or> i = ''ben'' \<Longrightarrow> attached_warm grid_user 6 i grid_store grid_world"
    using grid_store_ok
    by (auto simp: attached_warm_def warm_def plain_name_def lookup_def grid_store_def grid_entry_def new_entry_def
        grid_session_def empty_session_def session_ok_def has_material_def expired_def grid_world_def
        new_token_store_def grid_user_def)
qed

theorem replay_shows_authorization_witness:
  "\<exists>rows ts st' w'. run_corpus \<lparr>rn_get = store_get target_clock, rn_client = target_client sample_text, rn_tick = target_clock\<rparr>
      [''ada'', ''ben'', ''anon''] (map grid_request [(''records'', ''alice''), (''idor'', ''alice'')]) ''https://target''
      grid_store grid_world = ((rows, ts), st', w') \<and>
    map (\<lambda>row. map res_status (row_results row)) rows = [[200, 403, 401], [200, 200, 401]]"
proof -
  let ?env = "\<lparr>rn_get = store_get target_clock, rn_client = target_client sample_text, rn_tick = target_clock\<rparr>"
  let ?env' = "\<lparr>rn_get = attached_get target_clock (\<lambda>_. ''error''), rn_client = target_client sample_text, rn_tick = target_clock\<rparr>"
  let ?is = "[''ada'', ''ben'', ''anon'']" and ?grid = "[(''records'', ''alice''), (''idor'', ''alice'')]"
  let ?url = "''https'' @ ''://'' @ ''target''"
  obtain rows ts st' w' where run: "run_corpus ?env ?is (map grid_request ?grid) ?url grid_store grid_world
      = ((rows, ts), st', w')" by (metis prod.collapse)
  obtain rows' ts' st'' w'' where run': "run_corpus ?env' ?is (map grid_request ?grid) ?url grid_store grid_world
      = ((rows', ts'), st'', w'')" by (metis prod.collapse)
  have url: "web_scheme ''https''" "plain_host ''target''" "grid_ok ?grid" by code_simp+
  have warm: "\<forall>i \<in> set ?is. i = ''anon'' \<or> attached_warm grid_user (length ?grid * length ?is) i grid_store grid_world"
  proof -
    have "length ?grid * length ?is = 6" by simp
    then show ?thesis using grid_warm by (auto simp only: set_simps insert_iff empty_iff)
  qed
  have "map (\<lambda>ko. map (cell grid_user ko) ?is) ?grid = [[200, 403, 401], [200, 200, 401]]" by code_simp
  with replay_shows_authorization [OF refl refl url warm run run'] run show ?thesis by auto
qed

end
