(* ===== verification/Cookie_Facts.thy ===== *)
theory Cookie_Facts
  imports Mock_Properties
begin

text \<open>
  Cookies with plain names and values on the wire: what a server puts into a \<open>Set-Cookie\<close> line comes
  back from the \<open>Cookie\<close> line of a request that carries it.
\<close>

section \<open>Plain tokens\<close>

definition token_char :: "char \<Rightarrow> bool" where
  "token_char c \<longleftrightarrow> is_alnum c \<or> c = CHR ''-'' \<or> c = CHR ''_''"

definition safe_token :: "string \<Rightarrow> bool" where
  "safe_token s \<longleftrightarrow> s \<noteq> [] \<and> list_all token_char s"

lemma token_char_range:
  assumes "token_char c"
  shows "45 \<le> byte c \<and> byte c < 123 \<and> byte c \<notin> {47, 58, 59, 60, 61, 62, 63, 64, 91, 92, 93, 94, 96}"
  using assms by (auto simp: token_char_def is_alnum_def is_digit_def is_lower_def is_upper_def byte_def)

lemma token_char_not:
  assumes "token_char c"
  shows "c \<noteq> CHR '';''" "c \<noteq> CHR ''=''" "c \<noteq> CHR '' ''" "c \<noteq> CHR '',''" "c \<noteq> CHR 0x22" "c \<noteq> CHR ''{''"
    "c \<noteq> CHR ''&''" "c \<noteq> CHR 0x27" "c \<noteq> CHR ''<''" "c \<noteq> CHR ''>''" "c \<noteq> CHR 0x09" "c \<noteq> CHR 0x0A" "c \<noteq> CHR 0x0D"
  using token_char_range [OF assms] by (auto simp: byte_def)

lemma token_char_bytes:
  assumes "token_char c"
  shows "token_byte c" "valid_cookie_byte c" "byte c \<noteq> 10" "byte c \<noteq> 13"
proof -
  show "token_byte c" using assms by (auto simp: token_char_def token_byte_def)
  show "valid_cookie_byte c"
    using token_char_range [OF assms] by (auto simp: valid_cookie_byte_def byte_def)
  show "byte c \<noteq> 10" "byte c \<noteq> 13" using token_char_range [OF assms] by auto
qed

lemma safe_chars: "safe_token s \<Longrightarrow> c \<in> set s \<Longrightarrow> token_char c"
  by (auto simp: safe_token_def list_all_iff)

lemma safe_nonempty: "safe_token s \<Longrightarrow> s \<noteq> []"
  by (simp add: safe_token_def)

lemma safe_absent:
  assumes "safe_token s"
  shows "CHR '';'' \<notin> set s" "CHR ''='' \<notin> set s" "CHR '' '' \<notin> set s" "CHR '','' \<notin> set s" "CHR ''{'' \<notin> set s"
    "CHR 0x22 \<notin> set s"
  using safe_chars [OF assms] token_char_not by blast+

lemma safe_valid: "safe_token s \<Longrightarrow> list_all token_byte s \<and> list_all valid_cookie_byte s"
  by (auto simp: list_all_iff safe_chars token_char_bytes)

lemma dropWhile_id: "(s \<noteq> [] \<Longrightarrow> \<not> P (hd s)) \<Longrightarrow> dropWhile P s = s"
  by (cases s) simp_all

lemma trim_id:
  assumes "s \<noteq> []" and "hd s \<notin> set cs" and "last s \<notin> set cs"
  shows "trim s cs = s"
proof -
  have "dropWhile (\<lambda>c. c \<in> set cs) s = s" "dropWhile (\<lambda>c. c \<in> set cs) (rev s) = rev s"
    using assms by (simp_all add: dropWhile_id hd_rev)
  then show ?thesis by (simp add: trim_def trim_left_def trim_right_def)
qed

lemma trim_string_ends:
  assumes "s \<noteq> []" and "token_char (hd s)" and "token_char (last s)"
  shows "trim_string s = s"
  unfolding trim_string_def using assms token_char_not by (intro trim_id) auto

lemma safe_ends: "safe_token s \<Longrightarrow> token_char (hd s) \<and> token_char (last s)"
  by (simp add: safe_nonempty safe_chars)

lemma safe_trim: "safe_token s \<Longrightarrow> trim_string s = s"
  using safe_ends safe_nonempty trim_string_ends by blast

lemma trim_space_left: "trim_string (CHR '' '' # s) = trim_string s"
  by (simp add: trim_string_def trim_def trim_left_def)

lemma safe_html: "safe_token s \<Longrightarrow> html_escape s = s"
proof -
  assume s: "safe_token s"
  have "html_escape s = concat (map (\<lambda>c. [c]) s)"
    unfolding html_escape_def
    by (rule arg_cong [where f = concat], rule map_cong [OF refl]) (use safe_chars [OF s] token_char_not in auto)
  then show ?thesis by (simp add: concat_map_singleton)
qed

lemma safe_sanitized: "safe_token s \<Longrightarrow> sanitize_cookie_value s = s \<and> sanitize_cookie_name s = s"
proof -
  assume s: "safe_token s"
  have "filter valid_cookie_byte s = s" using safe_valid [OF s] by (simp add: filter_id_conv list_all_iff)
  moreover have "map (\<lambda>c. if byte c = 10 \<or> byte c = 13 then CHR ''-'' else c) s = s"
    by (rule map_idI) (use safe_chars [OF s] token_char_bytes in auto)
  ultimately show ?thesis using safe_absent [OF s] by (simp add: sanitize_cookie_value_def sanitize_cookie_name_def)
qed

section \<open>One pair\<close>

lemma cut_plain_pair: "safe_token n \<Longrightarrow> cut (CHR ''='') (n @ CHR ''='' # v) = (n, Some v)"
  by (rule cut_at) (rule safe_absent)

lemma cookie_value_safe: "safe_token v \<Longrightarrow> cookie_value v = Some v"
proof -
  assume v: "safe_token v"
  then have "hd v \<noteq> CHR 0x22" using safe_ends token_char_not(5) by blast
  with safe_valid [OF v] show ?thesis by (simp add: cookie_value_def Let_def)
qed

lemma read_pair_safe: "safe_token n \<Longrightarrow> safe_token v \<Longrightarrow> read_pair (n @ CHR ''='' # v) = Some (n, v)"
  using safe_valid [of n] safe_nonempty [of n]
  by (simp add: read_pair_def cut_plain_pair safe_trim cookie_value_safe)

lemma pair_ends:
  assumes "safe_token n" and "safe_token v"
  shows "trim_string (n @ CHR ''='' # v) = n @ CHR ''='' # v"
  using assms by (intro trim_string_ends) (auto simp: safe_nonempty hd_append safe_ends)

section \<open>A response's line\<close>

lemma set_cookie_safe:
  assumes "safe_token n" and "safe_token v"
  shows "set_cookie (n @ CHR ''='' # v @ ''; Path=/'') = Some \<lparr>c_name = n, c_value = v, c_domain = [], c_path = ''/''\<rparr>"
    and "set_cookie (n @ CHR ''='' # v @ ''; Path=/; HttpOnly'')
      = Some \<lparr>c_name = n, c_value = v, c_domain = [], c_path = ''/''\<rparr>"
proof -
  let ?p = "n @ CHR ''='' # v"
  have no: "CHR '';'' \<notin> set ?p" using safe_absent(1) [OF assms(1)] safe_absent(1) [OF assms(2)] by simp
  have a: "split_on (CHR '';'') (?p @ CHR '';'' # '' Path=/'') = [?p, '' Path=/'']"
    "split_on (CHR '';'') (?p @ CHR '';'' # '' Path=/; HttpOnly'') = [?p, '' Path=/'', '' HttpOnly'']"
    using split_on_sep [OF no] by simp_all
  have b: "cookie_attribute c (trim_string '' Path=/'') = c\<lparr>c_path := ''/''\<rparr>"
    "cookie_attribute c (trim_string '' HttpOnly'') = c" for c
  proof -
    have "trim_string (trim_string '' Path=/'') = ''Path=/''" "trim_string (trim_string '' HttpOnly'') = ''HttpOnly''"
      "list_all valid_cookie_byte ''/''" "to_lower ''Path'' = ''path''" "to_lower ''HttpOnly'' = ''httponly''" by code_simp+
    then show "cookie_attribute c (trim_string '' Path=/'') = c\<lparr>c_path := ''/''\<rparr>"
      "cookie_attribute c (trim_string '' HttpOnly'') = c" by (simp_all add: cookie_attribute_def)
  qed
  show "set_cookie (n @ CHR ''='' # v @ ''; Path=/'') = Some \<lparr>c_name = n, c_value = v, c_domain = [], c_path = ''/''\<rparr>"
    using a(1) b pair_ends [OF assms] read_pair_safe [OF assms] by (simp add: set_cookie_def)
  show "set_cookie (n @ CHR ''='' # v @ ''; Path=/; HttpOnly'')
      = Some \<lparr>c_name = n, c_value = v, c_domain = [], c_path = ''/''\<rparr>"
    using a(2) b pair_ends [OF assms] read_pair_safe [OF assms] by (simp add: set_cookie_def)
qed

section \<open>A request's line\<close>

definition safe_cookie :: "cookie \<Rightarrow> bool" where
  "safe_cookie c \<longleftrightarrow> safe_token (c_name c) \<and> safe_token (c_value c)"

lemma safe_cookie_pair: "safe_cookie c \<Longrightarrow> cookie_pair c = c_name c @ CHR ''='' # c_value c"
  by (simp add: cookie_pair_def safe_cookie_def safe_sanitized)

lemma split_cookie_line:
  assumes "list_all safe_cookie cs" and "CHR '';'' \<notin> set (last (split_on (CHR '';'') old))" and "old \<noteq> []"
  shows "split_on (CHR '';'') (cookie_line old cs) =
    split_on (CHR '';'') old @ map (\<lambda>c. CHR '' '' # cookie_pair c) cs"
  using assms
proof (induction cs arbitrary: old)
  case (Cons c cs)
  have no: "CHR '';'' \<notin> set (CHR '' '' # cookie_pair c)"
    using Cons.prems(1) safe_absent(1) by (simp add: safe_cookie_pair safe_cookie_def)
  have split: "split_on (CHR '';'') (s @ CHR '';'' # t) = split_on (CHR '';'') s @ split_on (CHR '';'') t" for s t
    by (induction s) (auto split: list.splits)
  then have "split_on (CHR '';'') (old @ ''; '' @ cookie_pair c) = split_on (CHR '';'') old @ [CHR '' '' # cookie_pair c]"
    using split_on_plain [OF no] split [of old "CHR '' '' # cookie_pair c"] by simp
  with Cons.IH [of "old @ ''; '' @ cookie_pair c"] Cons.prems no show ?case by simp
qed simp

lemma request_cookie_safe:
  assumes "list_all safe_cookie cs" and "hvalues h ''Cookie'' = [cookie_line [] cs]" and "cs \<noteq> []"
  shows "request_cookie h n = map_of (map (\<lambda>c. (c_name c, c_value c)) cs) n"
proof -
  obtain c rest where cs: "cs = c # rest" using assms(3) by (cases cs) auto
  with assms(1) have c: "safe_cookie c" "list_all safe_cookie rest" by simp_all
  then have no: "CHR '';'' \<notin> set (cookie_pair c)" using safe_absent(1) by (simp add: safe_cookie_pair safe_cookie_def)
  have "split_on (CHR '';'') (cookie_line [] cs) = cookie_pair c # map (\<lambda>c. CHR '' '' # cookie_pair c) rest"
    using split_cookie_line [OF c(2), of "cookie_pair c"] split_on_plain [OF no] no by (simp add: cs)
  then have "map trim_string (split_on (CHR '';'') (cookie_line [] cs)) = map cookie_pair cs"
    using assms(1) by (auto simp: cs trim_space_left safe_cookie_pair safe_cookie_def pair_ends list_all_iff)
  then have "map trim_string (concat (map (split_on (CHR '';'')) (hvalues h ''Cookie''))) = map cookie_pair cs"
    using assms(2) by simp
  moreover have "List.map_filter (\<lambda>part. if part = [] then None else read_pair part) (map cookie_pair cs)
      = map (\<lambda>c. (c_name c, c_value c)) cs"
    using assms(1)
    by (induction cs) (simp_all add: map_filter_simps safe_cookie_pair safe_cookie_def read_pair_safe)
  ultimately show ?thesis by (simp add: request_cookie_def)
qed

lemma hvalues_add_cookies:
  assumes "hvalues h ''Cookie'' = []" and "cs \<noteq> []"
  shows "hvalues (foldl add_cookie h cs) ''Cookie'' = [cookie_line [] cs]"
proof -
  have single: "hvalues (add_cookie g c) ''Cookie'' = [hget (add_cookie g c) ''Cookie'']" for g c
    by (simp add: add_cookie_def Let_def header_simps)
  from assms(2) obtain front c where cs: "cs = front @ [c]" by (metis rev_exhaust)
  have "hvalues (foldl add_cookie h cs) ''Cookie'' = [hget (foldl add_cookie h cs) ''Cookie'']"
    using single by (simp add: cs)
  also have "hget (foldl add_cookie h cs) ''Cookie'' = cookie_line (hget h ''Cookie'') cs" by (rule hget_add_cookies)
  also have "hget h ''Cookie'' = []" using assms(1) by (simp add: hget_def)
  finally show ?thesis .
qed

end
