(* ===== verification/Target_Login.thy ===== *)
theory Target_Login
  imports Target_Facts Cookie_Facts Multi_Recipe
begin

text \<open>
  Logins against the acceptance target.  A multistep recipe gets past its anti-CSRF form: the token is
  taken from the page, goes back in the form and, by the cookie jar, in the cookie.
\<close>

section \<open>Tokens of the target\<close>

text \<open>\<open>rand.Read\<close> fills the 24 bytes or fails.\<close>

definition entropy_ok :: "target_world \<Rightarrow> bool" where
  "entropy_ok w \<longleftrightarrow> (\<forall>n b. tw_random w n = Inr b \<longrightarrow> length b = 24)"

lemma token_chars_digit: "token_char (digit_char n)"
proof -
  have "48 + n mod 10 < 256" "48 + n mod 10 \<le> 57" by simp_all
  then show ?thesis by (simp add: token_char_def is_alnum_def is_digit_def digit_char_def byte_char_of)
qed

lemma decimal_safe: "safe_token (decimal n)"
proof (induction n rule: decimal.induct)
  case (1 n)
  show ?case
  proof (cases "n < 10")
    case True
    then show ?thesis using token_chars_digit [of n] by (simp add: decimal.simps safe_token_def)
  next
    case False
    with 1 show ?thesis using token_chars_digit [of "n mod 10"] by (subst decimal.simps) (simp add: safe_token_def)
  qed
qed

lemma lower_hex_safe: "n < 16 \<Longrightarrow> token_char (lower_hex n)"
proof -
  assume n: "n < 16"
  have "list_all token_char ''0123456789abcdef''" "length ''0123456789abcdef'' = 16" by code_simp+
  then show ?thesis using n by (simp only: lower_hex_def list_all_length)
qed

lemma hex_safe: "s \<noteq> [] \<Longrightarrow> safe_token (hex_encode s)"
proof -
  assume s: "s \<noteq> []"
  have "list_all token_char (hex_encode s)"
  proof (induction s)
    case (Cons c s)
    have "byte c div 16 < 16" using byte_less [of c] by simp
    with Cons show ?case using lower_hex_safe by (simp add: hex_encode_def)
  qed (simp add: hex_encode_def)
  moreover have "hex_encode s \<noteq> []" using s by (cases s) (simp_all add: hex_encode_def)
  ultimately show ?thesis by (simp add: safe_token_def)
qed

lemma integer_safe: "safe_token (integer_text n)"
proof -
  have "token_char (CHR ''-'')" by code_simp
  then show ?thesis using decimal_safe by (auto simp: integer_text_def safe_token_def)
qed

lemma rand_token_facts:
  assumes "rand_token w = (t, w1)" and "entropy_ok w"
  shows "safe_token t" "tw_toks w1 = tw_toks w" "tw_csrf w1 = tw_csrf w" "tw_ttl w1 = tw_ttl w"
    "tw_random w1 = tw_random w" "entropy_ok w1" "tw_now w \<le> tw_now w1" "tw_now w1 \<le> tw_now w + 1"
proof -
  have t: "token_char (CHR ''t'')" by code_simp
  have "b \<noteq> []" if "tw_random w n = Inr b" for n b using assms(2) that by (fastforce simp: entropy_ok_def)
  with assms(1) t show "safe_token t"
    using hex_safe integer_safe [of "tw_now w - unix_epoch"]
    by (auto simp: rand_token_def target_clock_def safe_token_def Let_def split: sum.splits)
  show "tw_random w1 = tw_random w" "tw_toks w1 = tw_toks w" "tw_csrf w1 = tw_csrf w" "tw_ttl w1 = tw_ttl w"
    "tw_now w \<le> tw_now w1" "tw_now w1 \<le> tw_now w + 1"
    using assms(1) by (auto simp: rand_token_def target_clock_def Let_def split: sum.splits)
  then show "entropy_ok w1" using assms(2) by (simp add: entropy_ok_def)
qed

lemma mint_facts:
  assumes "mint user w = (t, w1)" and "entropy_ok w"
  shows "safe_token t" "map_of (tw_toks w1) t = Some \<lparr>us_user = user, us_expiry = us_expiry (the (map_of (tw_toks w1) t))\<rparr>"
    "tw_now w1 - 1 + tw_ttl w = us_expiry (the (map_of (tw_toks w1) t))" "tw_now w1 \<le> tw_now w + 2"
    "tw_csrf w1 = tw_csrf w" "tw_ttl w1 = tw_ttl w" "entropy_ok w1"
proof -
  obtain t0 w0 where r: "rand_token w = (t0, w0)" by fastforce
  note f = rand_token_facts [OF r assms(2)]
  from assms(1) r have w1: "t = t0" "w1 = (snd (target_clock w0))\<lparr>tw_toks :=
      AList.update t0 \<lparr>us_user = user, us_expiry = tw_now w0 + tw_ttl w0\<rparr> (tw_toks w0)\<rparr>"
    by (auto simp: mint_def target_clock_def)
  then show "safe_token t" "map_of (tw_toks w1) t = Some \<lparr>us_user = user, us_expiry = us_expiry (the (map_of (tw_toks w1) t))\<rparr>"
    "tw_now w1 - 1 + tw_ttl w = us_expiry (the (map_of (tw_toks w1) t))" "tw_now w1 \<le> tw_now w + 2"
    "tw_csrf w1 = tw_csrf w" "tw_ttl w1 = tw_ttl w" "entropy_ok w1"
    using f by (simp_all add: target_clock_def entropy_ok_def)
qed


section \<open>The environment of the login\<close>

text \<open>
  \<open>net/http/cookiejar\<close> for one host and cookies for all paths: a cookie that is set replaces the one of
  its name, and every request carries all of them.
\<close>

definition jar_set :: "cookie list \<Rightarrow> cookie \<Rightarrow> cookie list" where
  "jar_set jar c = filter (\<lambda>d. c_name d \<noteq> c_name c) jar @ [c]"

definition jar_do ::
  "target_world client \<Rightarrow> cookie list \<Rightarrow> request \<Rightarrow> target_world \<Rightarrow> (gerror + response) \<times> cookie list \<times> target_world"
where
  "jar_do client jar req w =
     (case client (req\<lparr>rq_header := foldl add_cookie (rq_header req) jar\<rparr>) w of
        (Inl err, w1) \<Rightarrow> (Inl err, jar, w1)
      | (Inr resp, w1) \<Rightarrow> (Inr resp, foldl jar_set jar (rs_cookies resp), w1))"

text \<open>The pattern finds the token of the form, and a map is visited in any order.\<close>

definition login_env_ok :: "target_world client \<Rightarrow> string \<Rightarrow> (cookie list, target_world) login_env \<Rightarrow> bool" where
  "login_env_ok client pat env \<longleftrightarrow>
     le_jar env = [] \<and> le_do env = jar_do client \<and> (\<forall>jar u. le_cookies env jar u = jar) \<and>
     (\<forall>vs w. mset (fst (le_order env vs w)) = mset vs \<and> snd (le_order env vs w) = w) \<and>
     (\<exists>re. le_regexp env pat = Inr re \<and> (\<forall>tok. safe_token tok \<longrightarrow> (\<exists>m. re (csrf_page tok) = Some [m, tok])))"

section \<open>Templates\<close>

lemma subst_visits:
  assumes "login_env_ok client pat env"
  obtains order where "subst env s vs w = (subst_ordered s order, w)" "mset order = mset vs"
proof -
  obtain order w1 where o: "le_order env vs w = (order, w1)" by fastforce
  have "mset (fst (le_order env vs w)) = mset vs \<and> snd (le_order env vs w) = w"
    using assms by (simp add: login_env_ok_def)
  with o that show thesis by (simp add: subst_def)
qed

lemma plain_template: "CHR ''{'' \<notin> set s \<Longrightarrow> replace_all s (template k) v = s"
  by (rule replace_all_absent) (auto simp: template_def contains_def dest!: set_mono_sublist)

lemma subst_plain: "login_env_ok client pat env \<Longrightarrow> CHR ''{'' \<notin> set s \<Longrightarrow> subst env s vs w = (s, w)"
proof -
  assume env: "login_env_ok client pat env" and s: "CHR ''{'' \<notin> set s"
  have "subst_ordered s order = s" for order
    using plain_template [OF s] by (induction order) (auto simp: subst_ordered_def)
  with subst_visits [OF env, of s vs w] show ?thesis by metis
qed

lemma template_once: "replace_all (template k) (template k) v = v"
  by (simp add: replace_all.simps [of "template k"]) (simp add: template_def)

lemma template_other:
  "replace_all (template ''password'') (template ''csrf'') v = template ''password''"
  "replace_all (template ''csrf'') (template ''password'') v = template ''csrf''"
  by (simp_all add: template_def replace_all.simps)

lemma two_orders: "mset order = mset [a, b] \<Longrightarrow> order = [a, b] \<or> order = [b, a]"
proof -
  assume m: "mset order = mset [a, b]"
  then have "length order = 2" by (metis length_Cons list.size(3) mset_eq_length numeral_2_eq_2)
  then obtain x y where "order = [x, y]" by (auto simp: numeral_2_eq_2 length_Suc_conv)
  with m show ?thesis by (auto simp: add_eq_conv_ex)
qed

lemma subst_templates:
  assumes env: "login_env_ok client pat env" and pw: "CHR ''{'' \<notin> set pw" and tok: "CHR ''{'' \<notin> set tok"
  shows "subst env (template ''password'') [(''password'', pw), (''csrf'', tok)] w = (pw, w)"
    and "subst env (template ''csrf'') [(''password'', pw), (''csrf'', tok)] w = (tok, w)"
proof -
  let ?vs = "[(''password'', pw), (''csrf'', tok)]"
  obtain order where o: "subst env (template ''password'') ?vs w = (subst_ordered (template ''password'') order, w)"
    "mset order = mset ?vs" by (rule subst_visits [OF env])
  show "subst env (template ''password'') ?vs w = (pw, w)"
    using two_orders [OF o(2)] o(1)
    by (auto simp: subst_ordered_def template_once template_other plain_template [OF pw])
  obtain order' where o': "subst env (template ''csrf'') ?vs w = (subst_ordered (template ''csrf'') order', w)"
    "mset order' = mset ?vs" by (rule subst_visits [OF env])
  show "subst env (template ''csrf'') ?vs w = (tok, w)"
    using two_orders [OF o'(2)] o'(1)
    by (auto simp: subst_ordered_def template_once template_other plain_template [OF tok])
qed

section \<open>The recipe\<close>

definition csrf_rule :: "string \<Rightarrow> extract_rule" where
  "csrf_rule pat = \<lparr>x_name = ''csrf'', x_from = ''body'', x_pattern = pat\<rparr>"

definition form_step :: "string \<Rightarrow> string \<Rightarrow> login_step" where
  "form_step base pat =
     \<lparr>ls_method = ''GET'', ls_url = base @ ''/csrf-form'', ls_form = [], ls_body = [], ls_extract = [csrf_rule pat]\<rparr>"

definition post_step :: "string \<Rightarrow> string \<Rightarrow> login_step" where
  "post_step base user =
     \<lparr>ls_method = ''POST'', ls_url = base @ ''/csrf-login'',
      ls_form = [(''username'', user), (''password'', template ''password''), (''csrf'', template ''csrf'')],
      ls_body = [], ls_extract = []\<rparr>"

text \<open>The recipe of the identity \<open>alice_multi\<close> of the acceptance tests.\<close>

definition csrf_flow :: "string \<Rightarrow> string \<Rightarrow> string \<Rightarrow> string \<Rightarrow> string \<Rightarrow> logout_signature \<Rightarrow> multistep" where
  "csrf_flow i base pat user pw sig =
     \<lparr>ms_id = i, ms_password = pw, ms_steps = [form_step base pat, post_step base user],
      ms_capture = \<lparr>cs_csrf = [], cs_bearer = None\<rparr>, ms_signature = sig\<rparr>"

section \<open>The two steps\<close>

lemma target_route:
  assumes "escaped_path (rq_url q) = p" and "clean_path p = p"
    and "serve_route target_routes (rq_method q) (path_segments p) = Some (e, vs)" and "rq_method q \<noteq> ''HEAD''"
  shows "target_client text q w = (case target_endpoint text e vs q w of (resp, w1) \<Rightarrow> (Inr resp, w1))"
  unfolding target_client_def target_mux_def
  using serve_mux_route [OF assms(1-3), where handle = "target_endpoint text" and w = w] assms(4)
  by (simp add: case_prod_beta)

lemma login_routes:
  "escaped_path (rq_url q) = ''/csrf-form'' \<Longrightarrow> rq_method q = ''GET'' \<Longrightarrow>
     target_client text q w = (case csrf_form q w of (resp, w1) \<Rightarrow> (Inr resp, w1))"
  "escaped_path (rq_url q) = ''/csrf-login'' \<Longrightarrow> rq_method q = ''POST'' \<Longrightarrow>
     target_client text q w = (case csrf_login text q w of (resp, w1) \<Rightarrow> (Inr resp, w1))"
  "escaped_path (rq_url q) = ''/whoami'' \<Longrightarrow> rq_method q = ''GET'' \<Longrightarrow>
     target_client text q w = (case whoami text q w of (resp, w1) \<Rightarrow> (Inr resp, w1))"
proof -
  have c: "clean_path ''/csrf-form'' = ''/csrf-form''" "clean_path ''/csrf-login'' = ''/csrf-login''"
    "clean_path ''/whoami'' = ''/whoami''" by code_simp+
  have r: "serve_route target_routes ''GET'' (path_segments ''/csrf-form'') = Some (CsrfForm, [])"
    "serve_route target_routes ''POST'' (path_segments ''/csrf-login'') = Some (CsrfLogin, [])"
    "serve_route target_routes ''GET'' (path_segments ''/whoami'') = Some (Whoami, [])" by code_simp+
  show "escaped_path (rq_url q) = ''/csrf-form'' \<Longrightarrow> rq_method q = ''GET'' \<Longrightarrow>
     target_client text q w = (case csrf_form q w of (resp, w1) \<Rightarrow> (Inr resp, w1))"
    using target_route [OF _ c(1), of q CsrfForm "[]" "text" w] r(1) by (simp add: target_endpoint_def)
  show "escaped_path (rq_url q) = ''/csrf-login'' \<Longrightarrow> rq_method q = ''POST'' \<Longrightarrow>
     target_client text q w = (case csrf_login text q w of (resp, w1) \<Rightarrow> (Inr resp, w1))"
    using target_route [OF _ c(2), of q CsrfLogin "[]" "text" w] r(2) by (simp add: target_endpoint_def)
  show "escaped_path (rq_url q) = ''/whoami'' \<Longrightarrow> rq_method q = ''GET'' \<Longrightarrow>
     target_client text q w = (case whoami text q w of (resp, w1) \<Rightarrow> (Inr resp, w1))"
    using target_route [OF _ c(3), of q Whoami "[]" "text" w] r(3) by (simp add: target_endpoint_def)
qed

definition path_cookie :: "string \<Rightarrow> string \<Rightarrow> cookie" where
  "path_cookie n v = \<lparr>c_name = n, c_value = v, c_domain = [], c_path = ''/''\<rparr>"

lemma set_cookie_key [simp]: "canonical_key ''Set-Cookie'' = ''Set-Cookie''"
  by code_simp

lemma login_names: "safe_token ''csrf_cookie''" "safe_token ''session''" "plain_path ''/csrf-form''" "plain_path ''/csrf-login''"
  "valid_method ''GET''" "valid_method ''POST''"
  by code_simp+

lemma csrf_form_cookies:
  "safe_token tok \<Longrightarrow> rs_cookies (html_reply [(''Set-Cookie'', [''csrf_cookie='' @ sanitize_cookie_value tok @ ''; Path=/''])] body)
     = [path_cookie ''csrf_cookie'' tok]"
  using set_cookie_safe(1) [OF login_names(1)]
  by (simp add: html_reply_def server_reply_def hvalues_def safe_sanitized map_filter_simps path_cookie_def)

lemma session_cookies:
  "safe_token tok \<Longrightarrow> rs_cookies (login_reply text tok kvs ttl) = [path_cookie ''session'' tok]"
  using set_cookie_safe(2) [OF login_names(2)]
  by (simp add: login_reply_def json_reply_def session_cookie_def server_reply_def hvalues_def safe_sanitized
      map_filter_simps path_cookie_def)

text \<open>The first step takes the token from the page and the jar keeps the cookie.\<close>

lemma first_step:
  assumes env: "login_env_ok (target_client text) pat env" and base: "web_scheme scheme" "plain_host h"
    and csrf: "mint_csrf w = (tok, w1)" and tok: "safe_token tok"
  shows "\<exists>last. run_step env i 1 (form_step (scheme @ ''://'' @ h) pat)
      \<lparr>pr_jar = [], pr_vars = [(''password'', pw)], pr_last = None\<rparr> w
    = (Inr \<lparr>pr_jar = [path_cookie ''csrf_cookie'' tok], pr_vars = [(''password'', pw), (''csrf'', tok)],
           pr_last = Some last\<rparr>, w1)"
proof -
  let ?url = "scheme @ ''://'' @ h @ ''/csrf-form''"
  from request_below(1) [OF base login_names(3,5)] obtain req where req: "new_request ''GET'' ?url [] = Inr req"
    "escaped_path (rq_url req) = ''/csrf-form''" "rq_method req = ''GET''" by blast
  have url: "subst env ?url vs w = (?url, w)" for vs
    by (rule subst_plain [OF env no_template [OF base login_names(3)]])
  let ?page = "html_reply [(''Set-Cookie'', [''csrf_cookie='' @ sanitize_cookie_value tok @ ''; Path=/''])] (csrf_page tok)"
  have sent: "target_client text req w = (Inr ?page, w1)"
    using login_routes(1) [OF req(2,3)] csrf by (simp add: csrf_form_def)
  have page: "rs_status ?page = 200" "rs_body ?page = csrf_page tok" "rs_read_error ?page = None"
    by (simp_all add: html_reply_def)
  from env obtain re m where re: "le_regexp env pat = Inr re" "re (csrf_page tok) = Some [m, tok]" "le_do env = jar_do (target_client text)"
    using tok by (auto simp: login_env_ok_def)
  have x: "apply_extract env (csrf_rule pat) ?page (csrf_page tok) = Inr tok"
    using re(1,2) by (simp add: apply_extract_def csrf_rule_def)
  have do: "le_do env [] req w = (Inr ?page, [path_cookie ''csrf_cookie'' tok], w1)"
    using sent csrf_form_cookies [OF tok] by (simp add: re(3) jar_do_def jar_set_def)
  have v: "AList.update ''csrf'' tok [(''password'', pw)] = [(''password'', pw), (''csrf'', tok)]" by simp
  show ?thesis
    using url req(1) do page x tok v
    by (simp add: run_step_def form_step_def step_body_def step_request_def csrf_rule_def safe_nonempty)
qed

text \<open>A form that names the user, with the token in the form and in the cookie, is accepted.\<close>

lemma csrf_login_accepts:
  assumes "rq_method q = ''POST''" and "hget (rq_header q) ''Content-Type'' = form_content_type"
    and "rq_body q = values_encode [(''username'', user), (''password'', pw), (''csrf'', tok)]"
    and "request_cookie (rq_header q) ''csrf_cookie'' = Some tok" and "valid_csrf tok w"
    and "map_of valid_users user = Some pw" and "mint user w = (ses, w1)"
  shows "csrf_login text q w = (login_reply text ses [] (tw_ttl w1), w1)"
proof -
  let ?form = "[(''username'', user), (''password'', pw), (''csrf'', tok)]"
  have f: "form_value q k = v" if "(k, v) \<in> set ?form" for k v
    by (rule form_read [OF assms(1-3) _ that]) simp
  have v: "form_value q ''username'' = user" "form_value q ''password'' = pw" "form_value q ''csrf'' = tok"
    by (rule f, simp)+
  show ?thesis
    using assms(4-7) v by (auto simp: csrf_login_def target_login_def good_password_def valid_csrf_def)
qed

lemma second_step:
  assumes env: "login_env_ok (target_client text) pat env" and base: "web_scheme scheme" "plain_host h"
    and tok: "safe_token tok" "valid_csrf tok w" and user: "map_of valid_users user = Some pw"
    and mint: "mint user w = (ses, w1)" "safe_token ses"
  shows "\<exists>resp body. run_step env i n (post_step (scheme @ ''://'' @ h) user)
      \<lparr>pr_jar = [path_cookie ''csrf_cookie'' tok], pr_vars = [(''password'', pw), (''csrf'', tok)], pr_last = prev\<rparr> w
    = (Inr \<lparr>pr_jar = [path_cookie ''csrf_cookie'' tok, path_cookie ''session'' ses],
           pr_vars = [(''password'', pw), (''csrf'', tok)],
           pr_last = Some (resp, body, scheme @ ''://'' @ h @ ''/csrf-login'')\<rparr>, w1)"
proof -
  let ?url = "scheme @ ''://'' @ h @ ''/csrf-login''"
  let ?form = "[(''username'', user), (''password'', pw), (''csrf'', tok)]"
  let ?jar = "[path_cookie ''csrf_cookie'' tok]"
  from request_below(1) [OF base login_names(4,6)] obtain req where
    req: "new_request ''POST'' ?url (values_encode ?form) = Inr req"
    "escaped_path (rq_url req) = ''/csrf-login''" "rq_method req = ''POST''" "rq_header req = []"
    "rq_body req = values_encode ?form" by blast
  have url: "subst env ?url vs w = (?url, w)" for vs
    by (rule subst_plain [OF env no_template [OF base login_names(4)]])
  have names: "CHR ''{'' \<notin> set user" "CHR ''{'' \<notin> set pw"
    using user by (auto simp: valid_users_def split: if_splits)
  have body: "step_body env [(''password'', pw), (''csrf'', tok)] (post_step (scheme @ ''://'' @ h) user) w
      = ((values_encode ?form, form_content_type), w)"
    using subst_plain [OF env names(1)] subst_templates [OF env names(2) safe_absent(5) [OF tok(1)]]
    by (simp add: step_body_def post_step_def values_set_def)
  have fc: "form_content_type \<noteq> []" by (simp add: form_content_type_def)
  define q where "q = req\<lparr>rq_header := hset (rq_header req) ''Content-Type'' form_content_type\<rparr>"
  define q' where "q' = q\<lparr>rq_header := foldl add_cookie (rq_header q) ?jar\<rparr>"
  have ct: "canonical_key ''Content-Type'' = ''Content-Type''" by code_simp
  have hq: "hvalues (rq_header q) ''Cookie'' = []" "hget (rq_header q) ''Content-Type'' = form_content_type"
    using ct by (simp_all add: q_def req(4) header_simps)
  have q': "escaped_path (rq_url q') = ''/csrf-login''" "rq_method q' = ''POST''" "rq_body q' = values_encode ?form"
    using req by (simp_all add: q'_def q_def)
  have "hget (rq_header q') ''Content-Type'' = hget (rq_header q) ''Content-Type''"
    using ct by (simp add: q'_def hget_def header_simps)
  with hq(2) have cont: "hget (rq_header q') ''Content-Type'' = form_content_type" by simp
  have safe: "list_all safe_cookie ?jar"
    using tok(1) login_names(1) by (simp add: safe_cookie_def path_cookie_def)
  have "hvalues (rq_header q') ''Cookie'' = [cookie_line [] ?jar]"
    using hvalues_add_cookies [OF hq(1), of ?jar] by (simp add: q'_def)
  from request_cookie_safe [OF safe this] have cookie: "request_cookie (rq_header q') ''csrf_cookie'' = Some tok"
    by (simp add: path_cookie_def)
  let ?resp = "login_reply text ses [] (tw_ttl w1)"
  have sent: "target_client text q' w = (Inr ?resp, w1)"
    using login_routes(2) [OF q'(1,2)] csrf_login_accepts [OF q'(2) cont q'(3) cookie tok(2) user mint(1)] by simp
  have "jar_set ?jar (path_cookie ''session'' ses) = ?jar @ [path_cookie ''session'' ses]"
    by (simp add: jar_set_def path_cookie_def)
  then have do: "le_do env ?jar q w = (Inr ?resp, [path_cookie ''csrf_cookie'' tok, path_cookie ''session'' ses], w1)"
    using env sent session_cookies [OF mint(2)] by (simp add: login_env_ok_def jar_do_def q'_def)
  have status: "rs_status ?resp = 200" "rs_read_error ?resp = None" by (simp_all add: login_reply_def json_reply_def)
  have step: "ls_method (post_step (scheme @ ''://'' @ h) user) = ''POST''" "ls_url (post_step (scheme @ ''://'' @ h) user) = ?url"
    "ls_extract (post_step (scheme @ ''://'' @ h) user) = []" by (simp_all add: post_step_def)
  show ?thesis
    using url body req(1) do status fc step
    by (simp add: run_step_def step_request_def q_def [symmetric])
qed

section \<open>The whole login\<close>

lemma mint_csrf_facts:
  assumes "mint_csrf w = (tok, w1)" and "entropy_ok w"
  shows "safe_token tok" "valid_csrf tok w1" "entropy_ok w1" "tw_ttl w1 = tw_ttl w"
proof -
  obtain w0 where r: "rand_token w = (tok, w0)" "w1 = w0\<lparr>tw_csrf := List.insert tok (tw_csrf w0)\<rparr>"
    using assms(1) by (auto simp: mint_csrf_def split: prod.splits)
  note f = rand_token_facts [OF r(1) assms(2)]
  show "safe_token tok" by (rule f)
  show "valid_csrf tok w1" using safe_nonempty [OF f(1)] by (simp add: valid_csrf_def r(2))
  show "entropy_ok w1" "tw_ttl w1 = tw_ttl w" using f(4,6) by (simp_all add: r(2) entropy_ok_def)
qed

definition cookie_session :: "string \<Rightarrow> cookie list \<Rightarrow> session" where
  "cookie_session i cs = empty_session\<lparr>s_identity := i, s_cookies := cs\<rparr>"

lemma csrf_establish:
  assumes env: "login_env_ok (target_client text) pat env" and base: "web_scheme scheme" "plain_host h"
    and user: "map_of valid_users user = Some pw" and w: "entropy_ok w"
  obtains tok ses v w1 where "mint user v = (ses, w1)" "entropy_ok v" "tw_ttl v = tw_ttl w" "safe_token tok" "safe_token ses"
    "multi_establish env (csrf_flow i (scheme @ ''://'' @ h) pat user pw sig) w
      = (Inr (cookie_session i [path_cookie ''csrf_cookie'' tok, path_cookie ''session'' ses]), w1)"
proof -
  obtain tok v where csrf: "mint_csrf w = (tok, v)" by fastforce
  note c = mint_csrf_facts [OF csrf w]
  obtain ses w1 where mint: "mint user v = (ses, w1)" by fastforce
  note m = mint_facts(1) [OF mint c(3)]
  let ?base = "scheme @ ''://'' @ h" and ?start = "\<lparr>pr_jar = [], pr_vars = [(''password'', pw)], pr_last = None\<rparr>"
  let ?jar = "[path_cookie ''csrf_cookie'' tok, path_cookie ''session'' ses]"
  obtain prev where one: "run_step env i 1 (form_step ?base pat) ?start w
      = (Inr \<lparr>pr_jar = [path_cookie ''csrf_cookie'' tok], pr_vars = [(''password'', pw), (''csrf'', tok)],
             pr_last = Some prev\<rparr>, v)"
    using first_step [OF env base csrf c(1)] by blast
  obtain resp body where two: "run_step env i 2 (post_step ?base user)
      \<lparr>pr_jar = [path_cookie ''csrf_cookie'' tok], pr_vars = [(''password'', pw), (''csrf'', tok)], pr_last = Some prev\<rparr> v
    = (Inr \<lparr>pr_jar = ?jar, pr_vars = [(''password'', pw), (''csrf'', tok)],
           pr_last = Some (resp, body, ?base @ ''/csrf-login'')\<rparr>, w1)"
    using second_step [OF env base c(1,2) user mint m] by simp blast
  have steps: "run_steps env i 0 [form_step ?base pat, post_step ?base user] ?start w
      = (Inr \<lparr>pr_jar = ?jar, pr_vars = [(''password'', pw), (''csrf'', tok)],
             pr_last = Some (resp, body, ?base @ ''/csrf-login'')\<rparr>, w1)"
    using one two by (simp add: numeral_2_eq_2)
  obtain u where u: "url_parse (?base @ ''/csrf-login'') = Inr u"
    using request_below(2) [OF base login_names(4,6)] by auto
  have jar: "le_jar env = []" "le_cookies env ?jar u = ?jar" using env by (simp_all add: login_env_ok_def)
  have "multi_establish env (csrf_flow i ?base pat user pw sig) w = (Inr (cookie_session i ?jar), w1)"
    using steps u jar
    by (simp add: multi_establish_def csrf_flow_def capture_session_def cookie_session_def empty_session_def)
  with that [OF mint c(3,4,1) m] show thesis by simp
qed

text \<open>A session of plain cookies is recognised by its session cookie.\<close>

lemma identify_cookie_session:
  assumes "safe_token tok" and "safe_token ses" and "hvalues h ''Authorization'' = []" and "hvalues h ''Cookie'' = []"
    and "map_of (tw_toks w) ses = Some \<lparr>us_user = u, us_expiry = t\<rparr>" and "tw_now w \<le> t"
  shows "identify (apply_header (cookie_session i [path_cookie ''csrf_cookie'' tok, path_cookie ''session'' ses]) h) w
    = (Some u, snd (target_clock w))"
proof -
  let ?cs = "[path_cookie ''csrf_cookie'' tok, path_cookie ''session'' ses]"
  have h: "apply_header (cookie_session i ?cs) h = foldl add_cookie h ?cs"
    by (simp add: apply_header_def cookie_session_def empty_session_def)
  have "bearer_of (foldl add_cookie h ?cs) = None"
    using assms(3) by (simp add: bearer_of_def hget_def header_simps)
  moreover have "request_cookie (foldl add_cookie h ?cs) ''session'' = Some ses"
  proof -
    have "list_all safe_cookie ?cs" using assms(1,2) login_names by (simp add: safe_cookie_def path_cookie_def)
    from request_cookie_safe [OF this hvalues_add_cookies [OF assms(4)]] show ?thesis by (simp add: path_cookie_def)
  qed
  ultimately show ?thesis
    using h find_live_token [OF assms(5) safe_nonempty [OF assms(2)] assms(6)]
    by (simp add: identify_def identify_cookie_def)
qed

text \<open>C13: A scripted login gets past an anti-CSRF form: with the right password the multistep recipe of the
  acceptance tests (a GET that extracts the token, a POST that sends it back in the form while the cookie
  jar sends it in the cookie) yields a session of its identity, whatever order the variables are visited
  in and whatever state the target is in, and the target takes a request with that session for the user
  for as long as its tokens live.\<close>

theorem multistep_passes_csrf:
  assumes "login_env_ok (target_client text) pat env" and "web_scheme scheme" and "plain_host h"
    and "map_of valid_users user = Some pw" and "entropy_ok w"
    and "multi_establish env (csrf_flow i (scheme @ ''://'' @ h) pat user pw sig) w = (x, w1)"
    and "tw_toks v = tw_toks w1" and "tw_now v < tw_now w1 + tw_ttl w"
    and "rq_method q = ''GET''" and "escaped_path (rq_url q) = ''/whoami''"
    and "hvalues (rq_header q) ''Authorization'' = []" and "hvalues (rq_header q) ''Cookie'' = []"
  shows "\<exists>s resp v'. x = Inr s \<and> session_ok i s \<and> target_client text (apply_session s q) v = (Inr resp, v') \<and>
    rs_status resp = 200 \<and> rs_body resp = text (JObj [(''user'', jstring user)])"
proof -
  from assms(1-5) obtain tok ses v0 w2 where l: "mint user v0 = (ses, w2)" "entropy_ok v0" "tw_ttl v0 = tw_ttl w"
    "safe_token tok" "safe_token ses"
    "multi_establish env (csrf_flow i (scheme @ ''://'' @ h) pat user pw sig) w
      = (Inr (cookie_session i [path_cookie ''csrf_cookie'' tok, path_cookie ''session'' ses]), w2)"
    by (rule csrf_establish)
  let ?s = "cookie_session i [path_cookie ''csrf_cookie'' tok, path_cookie ''session'' ses]"
  from l(6) assms(6) have x: "x = Inr ?s" "w2 = w1" by simp_all
  note m = mint_facts [OF l(1,2)]
  have live: "tw_now v \<le> us_expiry (the (map_of (tw_toks w1) ses))" using m(3) l(3) assms(8) x(2) by simp
  have known: "map_of (tw_toks v) ses = Some \<lparr>us_user = user, us_expiry = us_expiry (the (map_of (tw_toks w1) ses))\<rparr>"
    using m(2) assms(7) x(2) by simp
  have "identify (apply_header ?s (rq_header q)) v = (Some user, snd (target_clock v))"
    by (rule identify_cookie_session [OF l(4,5) assms(11,12) known live])
  then have "target_client text (apply_session ?s q) v
      = (Inr (json_reply text [] [(''user'', jstring user)]), snd (target_clock v))"
    using login_routes(3) [of "apply_session ?s q" "text" v] assms(9,10) by (simp add: whoami_def)
  moreover have "session_ok i ?s" by (simp add: session_ok_def has_material_def cookie_session_def empty_session_def)
  ultimately show ?thesis using x(1) by (simp add: json_reply_def)
qed

text \<open>A pattern for this page: what stands between the attribute and the next quotation mark.\<close>

definition page_head :: string where
  "page_head =
     line ''<!doctype html><html><body>'' @
     line ''<form method=\"post\" action=\"/csrf-login\">'' @ ''<input type=\"hidden\" name=\"csrf\" value=\"''"

definition page_matcher :: matcher where
  "page_matcher body = Some [[], takeWhile (\<lambda>c. c \<noteq> CHR 0x22) (drop (length page_head) body)]"

definition page_env :: "(cookie list, target_world) login_env" where
  "page_env =
     \<lparr>le_jar = [], le_do = jar_do (target_client sample_text), le_cookies = (\<lambda>jar u. jar),
      le_regexp = (\<lambda>_. Inr page_matcher), le_json = (\<lambda>_. Inl (LibError ''not json'')), le_order = (\<lambda>vs w. (rev vs, w))\<rparr>"

lemma page_env_ok: "login_env_ok (target_client sample_text) pat page_env"
proof -
  have "page_matcher (csrf_page tok) = Some [[], tok]" if tok: "safe_token tok" for tok
  proof -
    obtain rest where page: "csrf_page tok = page_head @ tok @ CHR 0x22 # rest"
      using safe_html [OF tok] by (simp add: csrf_page_def page_head_def line_def)
    have "takeWhile (\<lambda>c. c \<noteq> CHR 0x22) (tok @ CHR 0x22 # rest) = tok"
      using safe_absent(6) [OF tok] by (subst takeWhile_append2) auto
    then show ?thesis by (simp add: page page_matcher_def)
  qed
  then show ?thesis by (auto simp: login_env_ok_def page_env_def)
qed

definition target_world_0 :: target_world where
  "target_world_0 = new_token_store (8 * second) sample_now (\<lambda>_. Inl (LibError ''no entropy''))"

definition target_whoami :: request where
  "target_whoami = \<lparr>rq_method = ''GET'', rq_url = empty_url\<lparr>u_path := ''/whoami''\<rparr>, rq_header = [], rq_body = []\<rparr>"

theorem multistep_passes_csrf_witness:
  "\<exists>s w1 resp v'. multi_establish page_env
       (csrf_flow ''ada'' (''https'' @ ''://'' @ ''target'') ''value'' ''alice'' ''pw'' (fp_signature mock_form)) target_world_0
       = (Inr s, w1) \<and>
     target_client sample_text (apply_session s target_whoami) w1 = (Inr resp, v') \<and> rs_body resp = ''alice''"
proof -
  let ?flow = "csrf_flow ''ada'' (''https'' @ ''://'' @ ''target'') ''value'' ''alice'' ''pw'' (fp_signature mock_form)"
  obtain x w1 where run: "multi_establish page_env ?flow target_world_0 = (x, w1)" by fastforce
  have url: "web_scheme ''https''" "plain_host ''target''" "map_of valid_users ''alice'' = Some ''pw''" by code_simp+
  have ent: "entropy_ok target_world_0" by (simp add: entropy_ok_def target_world_0_def new_token_store_def)
  have now: "tw_now w1 < tw_now w1 + tw_ttl target_world_0" by (simp add: target_world_0_def new_token_store_def)
  have q: "rq_method target_whoami = ''GET''" "escaped_path (rq_url target_whoami) = ''/whoami''"
    "hvalues (rq_header target_whoami) ''Authorization'' = []" "hvalues (rq_header target_whoami) ''Cookie'' = []"
    by code_simp+
  have "sample_text (JObj [(''user'', jstring ''alice'')]) = ''alice''" by code_simp
  with multistep_passes_csrf [OF page_env_ok url ent run refl now q] run show ?thesis by auto
qed

end
