(* ===== verification/Target_Process.thy ===== *)
theory Target_Process
  imports Target Go_Net
begin

text \<open>
  The process around the handlers of \<open>e2e/target\<close>: the certificate that \<open>selfSignedCert\<close> makes, the
  start, the two lines it prints and the end.  The cryptography, the files and the listener are
  parameters in the record \<open>process_env\<close>.
\<close>

section \<open>The certificate\<close>

datatype key_usage = DigitalSignature | KeyEncipherment | ServerAuth

record cert_template =
  ct_serial :: int
  ct_common_name :: string
  ct_not_before :: gtime
  ct_not_after :: gtime
  ct_key_usage :: "key_usage list"
  ct_ext_key_usage :: "key_usage list"
  ct_basic_constraints_valid :: bool
  ct_ip_addresses :: "ip list"
  ct_dns_names :: "string list"

record ('key, 'cert, 'w) process_env =
  pe_generate_key :: "nat \<Rightarrow> ('w, gerror + 'key) io"
  pe_rand_int :: "int \<Rightarrow> ('w, gerror + int) io"
  pe_create_certificate :: "cert_template \<Rightarrow> cert_template \<Rightarrow> 'key \<Rightarrow> ('w, gerror + string) io"
  pe_pkcs8 :: "'key \<Rightarrow> gerror + string"
  pe_pkcs1 :: "'key \<Rightarrow> string"
  pe_pem :: "string \<Rightarrow> string \<Rightarrow> string"
  pe_key_pair :: "string \<Rightarrow> string \<Rightarrow> gerror + 'cert"
  pe_create_temp :: "string \<Rightarrow> ('w, gerror + string) io"
  pe_write_file :: "string \<Rightarrow> string \<Rightarrow> nat \<Rightarrow> ('w, gerror option) io"
  pe_listen :: "string \<Rightarrow> ('w, gerror + string) io"

datatype target_error =
    GenerateKey gerror | Serial gerror | CreateCert gerror | KeyPair gerror
  | TempCertFile gerror | WriteCert gerror | TargetListen gerror

text \<open>A step whose error is wrapped.\<close>

definition io_wrap :: "(gerror \<Rightarrow> 'e) \<Rightarrow> ('w, gerror + 'a) io \<Rightarrow> ('w, 'e + 'a) io" where
  "io_wrap f c w = apfst (map_sum f id) (c w)"

definition must_marshal_key :: "('key, 'cert, 'w) process_env \<Rightarrow> 'key \<Rightarrow> string" where
  "must_marshal_key env key = (case pe_pkcs8 env key of Inl _ \<Rightarrow> pe_pkcs1 env key | Inr b \<Rightarrow> b)"

text \<open>An IP address goes to the addresses of the certificate, any other host to its names.\<close>

fun add_hosts :: "string list \<Rightarrow> cert_template \<Rightarrow> cert_template" where
  "add_hosts [] t = t"
| "add_hosts (h # hs) t =
     (case parse_ip h of
        Some ip \<Rightarrow> add_hosts hs (t\<lparr>ct_ip_addresses := ct_ip_addresses t @ [ip]\<rparr>)
      | None \<Rightarrow> add_hosts hs (t\<lparr>ct_dns_names := ct_dns_names t @ [h]\<rparr>))"

definition cert_template_of :: "int \<Rightarrow> gtime \<Rightarrow> gtime \<Rightarrow> string list \<Rightarrow> cert_template" where
  "cert_template_of serial now now' hosts =
     add_hosts hosts
       \<lparr>ct_serial = serial, ct_common_name = ''claviger-e2e-target'', ct_not_before = now - 60 * 60 * second,
        ct_not_after = now' + 24 * 60 * 60 * second, ct_key_usage = [DigitalSignature, KeyEncipherment],
        ct_ext_key_usage = [ServerAuth], ct_basic_constraints_valid = True, ct_ip_addresses = [], ct_dns_names = []\<rparr>"

definition self_signed_cert ::
  "('key, 'cert, 'w) process_env \<Rightarrow> 'w ticker \<Rightarrow> string list \<Rightarrow> ('w, target_error + 'cert \<times> string \<times> string) io" where
  "self_signed_cert env tick hosts =
     io_bind (io_wrap GenerateKey (pe_generate_key env 2048)) (\<lambda>key.
     io_bind (io_wrap Serial (pe_rand_int env (2 ^ 128))) (\<lambda>serial w.
     (let (now, w1) = tick w; (now', w2) = tick w1; tmpl = cert_template_of serial now now' hosts in
      io_bind (io_wrap CreateCert (pe_create_certificate env tmpl tmpl key)) (\<lambda>der w.
        (let cert_pem = pe_pem env ''CERTIFICATE'' der;
             key_pem = pe_pem env ''PRIVATE KEY'' (must_marshal_key env key)
         in (case pe_key_pair env cert_pem key_pem of
               Inl err \<Rightarrow> (Inl (KeyPair err), w)
             | Inr cert \<Rightarrow> (Inr (cert, cert_pem, key_pem), w)))) w2)))"

section \<open>The start\<close>

record target_flags =
  tg_addr :: string
  tg_cert_out :: string
  tg_ttl :: duration

definition default_target_flags :: target_flags where
  "default_target_flags = \<lparr>tg_addr = ''127.0.0.1:0'', tg_cert_out = [], tg_ttl = 3 * second\<rparr>"

text \<open>The server, and the address and the path that the two lines \<open>LISTENING\<close> and \<open>CERT\<close> announce.\<close>

record 'cert target_server =
  ts_listening :: string
  ts_cert_path :: string
  ts_certificates :: "'cert list"
  ts_handler_state :: target_world

text \<open>The file is readable by its owner only: mode 0600.\<close>

definition target_start ::
  "('key, 'cert, 'w) process_env \<Rightarrow> 'w ticker \<Rightarrow> (nat \<Rightarrow> gerror + string) \<Rightarrow> target_flags
     \<Rightarrow> ('w, target_error + 'cert target_server) io" where
  "target_start env tick rnd f =
     io_bind (self_signed_cert env tick [''127.0.0.1'', ''localhost'']) (\<lambda>(cert, cert_pem, _).
     io_bind (\<lambda>w. if tg_cert_out f = [] then io_wrap TempCertFile (pe_create_temp env ''claviger-e2e-cert-*.pem'') w
                  else (Inr (tg_cert_out f), w)) (\<lambda>path.
     io_bind (io_check WriteCert (pe_write_file env path cert_pem (6 * 64))) (\<lambda>_.
     io_bind (io_wrap TargetListen (pe_listen env (tg_addr f))) (\<lambda>bound w.
     (let (now, w1) = tick w
      in (Inr \<lparr>ts_listening = ''https://'' @ bound, ts_cert_path = path, ts_certificates = [cert],
               ts_handler_state = new_token_store (tg_ttl f) now rnd\<rparr>, w1))))))"

text \<open>A signal ends the process with status 0, whether the shutdown was in time or not; a server that
  fails ends it with 1, unless it was closed.\<close>

definition server_closed :: gerror where
  "server_closed = LibError ''http: Server closed''"

datatype target_end = StartFailed | Signalled "gerror option" | ServeEnded "gerror option"

definition target_status :: "target_end \<Rightarrow> int" where
  "target_status e =
     (case e of
        StartFailed \<Rightarrow> 1
      | Signalled _ \<Rightarrow> 0
      | ServeEnded err \<Rightarrow> (if err = None \<or> err = Some server_closed then 0 else 1))"

section \<open>What the start promises\<close>

lemma io_wrap_some: "io_wrap f c w = (Inr a, w') \<longleftrightarrow> c w = (Inr a, w')"
  by (cases "c w"; cases "fst (c w)") (auto simp: io_wrap_def)

lemma io_check_some: "io_check f c w = (Inr u, w') \<longleftrightarrow> c w = (None, w')"
  by (auto simp: io_check_def split: prod.splits option.splits)

text \<open>The certificate names the hosts the tools connect to, and is valid when it is made.\<close>

lemma cert_hosts:
  assumes "now \<le> now'" and t_def: "t = cert_template_of serial now now' [''127.0.0.1'', ''localhost'']"
  shows "ct_ip_addresses t = [IPv4 [127, 0, 0, 1]]" and "ct_dns_names t = [''localhost'']"
    and "ct_not_before t < now" and "now' < ct_not_after t"
proof -
  have "parse_ip ''127.0.0.1'' = Some (IPv4 [127, 0, 0, 1])" "parse_ip ''localhost'' = None" by code_simp+
  then show "ct_ip_addresses t = [IPv4 [127, 0, 0, 1]]" "ct_dns_names t = [''localhost'']"
    "ct_not_before t < now" "now' < ct_not_after t"
    using assms(1) by (simp_all add: t_def cert_template_of_def)
qed

text \<open>The announced file is the certificate of the key pair the server uses.\<close>

lemma announced_certificate:
  assumes "target_start env tick rnd f w = (Inr srv, w')"
  shows "\<exists>cert der key_pem w1 w2.
      pe_write_file env (ts_cert_path srv) (pe_pem env ''CERTIFICATE'' der) 384 w1 = (None, w2) \<and>
      pe_key_pair env (pe_pem env ''CERTIFICATE'' der) key_pem = Inr cert \<and> ts_certificates srv = [cert]"
proof -
  from assms obtain cert cert_pem key_pem w1 where cert:
      "self_signed_cert env tick [''127.0.0.1'', ''localhost''] w = (Inr (cert, cert_pem, key_pem), w1)"
    and "\<exists>w2 w3. pe_write_file env (ts_cert_path srv) cert_pem 384 w2 = (None, w3) \<and> ts_certificates srv = [cert]"
    unfolding target_start_def
    by (elim io_bind_some) (auto elim!: io_bind_some simp: io_check_some split: prod.splits, blast)
  moreover from cert obtain der where "cert_pem = pe_pem env ''CERTIFICATE'' der"
      "pe_key_pair env cert_pem key_pem = Inr cert"
    unfolding self_signed_cert_def
    by (elim io_bind_some) (auto elim!: io_bind_some simp: Let_def split: prod.splits sum.splits)
  ultimately show ?thesis by blast
qed

end
