(* ===== verification/Daemon.thy ===== *)
theory Daemon
  imports Cli Gateway_Facts
begin

text \<open>
  The command \<open>daemon\<close> (\<open>cmd/daemon.go\<close>): the start, which checks the flags, builds the store and
  the gateway and binds the listeners, and the running daemon as a function of the events it serves.
  Requests are served one after the other here; theory \<open>Flight\<close> has the interleaving of the store's
  operations.

  What the start does to the operating system are parameters in the record \<open>daemon_env\<close>.
\<close>

datatype listener = GatewayListener string int | ControlListener string

record ('c, 'k, 'j, 'w) daemon_env =
  de_cmd :: "('c, 'k, 'j, 'w) cmd_env"
  de_mkdir :: "string \<Rightarrow> ('w, gerror option) io"
  de_open_append :: "string \<Rightarrow> ('w, gerror option) io"
  de_random :: "('w, gerror + string) io"
  de_remove :: "string \<Rightarrow> 'w \<Rightarrow> 'w"
  de_listen :: "listener \<Rightarrow> ('w, gerror option) io"
  de_chmod :: "string \<Rightarrow> ('w, gerror option) io"
  de_close :: "listener \<Rightarrow> 'w \<Rightarrow> 'w"

record daemon_flags =
  df_config :: string
  df_socket :: string
  df_gateway_token :: string
  df_log_level :: string
  df_audit_log :: string
  df_base_port :: int
  df_refresh_interval :: "64 word"
  df_tls :: tls_flags

section \<open>Building the gateway\<close>

definition generate_gateway_token :: "('c, 'k, 'j, 'w) daemon_env \<Rightarrow> ('w, cmd_error + string) io" where
  "generate_gateway_token env w =
     (case de_random env w of
        (Inl err, w1) \<Rightarrow> (Inl (TokenFailed err), w1) | (Inr buf, w1) \<Rightarrow> (Inr (hex_encode buf), w1))"

definition effective_token ::
  "('c, 'k, 'j, 'w) daemon_env \<Rightarrow> string \<Rightarrow> ('w, cmd_error + string) io" where
  "effective_token env tok w =
     (if tok = ''auto'' then generate_gateway_token env w else (Inr tok, w))"

definition with_audit :: "'w gateway \<Rightarrow> 'w gateway" where
  "with_audit g = g\<lparr>g_audit := Some []\<rparr>"

text \<open>\<open>gateway.New\<close> with \<open>WithTLS\<close>: the transport replaces that of the client that was made before.\<close>

definition new_gateway ::
  "('c, 'k, 'j, 'w) cmd_env \<Rightarrow> 'w store \<Rightarrow> (string, 'w recipe) gomap \<Rightarrow> config
     \<Rightarrow> ('w gateway \<Rightarrow> 'w gateway) list \<Rightarrow> ('w, cmd_error + 'w gateway) io" where
  "new_gateway env st recipes cfg opts w =
     (case gateway_new st recipes
             (ce_no_redirect env \<lparr>tr_insecure_skip_verify = False, tr_root_cas = None, tr_certificates = []\<rparr>)
             (cfg_target cfg) opts of
        Inl err \<Rightarrow> (Inl (GatewayFailed err), w)
      | Inr g \<Rightarrow>
          (case http_client (ce_tls env) (ce_no_redirect env) (to_httpx (cfg_tls cfg)) w of
             (Inl err, w1) \<Rightarrow> (Inl (GatewayTls err), w1)
           | (Inr client, w1) \<Rightarrow> (Inr (g\<lparr>g_client := client\<rparr>), w1)))"

section \<open>Listeners\<close>

definition close_all :: "('c, 'k, 'j, 'w) daemon_env \<Rightarrow> listener list \<Rightarrow> 'w \<Rightarrow> 'w" where
  "close_all env ls w = foldl (\<lambda>w l. de_close env l w) w ls"

text \<open>One gateway listener per identity on sequential ports (daemon.go 234-255).\<close>

fun bind_gateways ::
  "('c, 'k, 'j, 'w) daemon_env \<Rightarrow> string list \<Rightarrow> int \<Rightarrow> listener list
     \<Rightarrow> ('w, cmd_error + listener list) io" where
  "bind_gateways env [] port open w = (Inr open, w)"
| "bind_gateways env (i # is) port open w =
     (case de_listen env (GatewayListener i port) w of
        (Some err, w1) \<Rightarrow> (Inl (ListenFailed err), close_all env open w1)
      | (None, w1) \<Rightarrow> bind_gateways env is (port + 1) (open @ [GatewayListener i port]) w1)"

text \<open>The control socket (daemon.go 262-275).\<close>

definition bind_control ::
  "('c, 'k, 'j, 'w) daemon_env \<Rightarrow> string \<Rightarrow> listener list \<Rightarrow> ('w, cmd_error + listener list) io" where
  "bind_control env socket open w =
     (let w0 = de_remove env socket w in
      case de_listen env (ControlListener socket) w0 of
        (Some err, w1) \<Rightarrow> (Inl (ListenFailed err), close_all env open w1)
      | (None, w1) \<Rightarrow>
          (case de_chmod env socket w1 of
             (Some err, w2) \<Rightarrow>
               (Inl (ChmodFailed err), close_all env open (de_close env (ControlListener socket) w2))
           | (None, w2) \<Rightarrow> (Inr (open @ [ControlListener socket]), w2)))"

section \<open>The start\<close>

text \<open>\<open>filepath.Dir\<close> of the socket path: everything up to the last slash, cleaned.\<close>

definition file_dir :: "string \<Rightarrow> string" where
  "file_dir p =
     (case cut_last (CHR ''/'') p of None \<Rightarrow> ''.'' | Some (d, _) \<Rightarrow> file_clean (d @ ''/''))"

definition default_socket_path :: "('c, 'k, 'j, 'w) daemon_env \<Rightarrow> ('w, cmd_error + string) io" where
  "default_socket_path env w =
     (case socket_path (de_cmd env) of
        Inl err \<Rightarrow> (Inl err, w)
      | Inr p \<Rightarrow>
          (case de_mkdir env (file_dir p) w of
             (Some err, w1) \<Rightarrow> (Inl (MakeDir err), w1) | (None, w1) \<Rightarrow> (Inr p, w1)))"

record 'w daemon =
  d_gateway :: "'w gateway"
  d_listeners :: "listener list"
  d_interval :: "64 word"
  d_warnings :: "warning list"

text \<open>From the policies to the shared secret (daemon.go 183-214).\<close>

definition prepare_gateway ::
  "('c, 'k, 'j, 'w) daemon_env \<Rightarrow> daemon_flags \<Rightarrow> 'w store \<Rightarrow> (string, 'w recipe) gomap \<Rightarrow> config
     \<Rightarrow> ('w, cmd_error + 'w gateway) io" where
  "prepare_gateway env f st recipes cfg =
     io_bind (\<lambda>w. (build_csrf_policies (ce_regexp (de_cmd env)) (cfg_identities cfg) [], w)) (\<lambda>policies.
     io_bind (\<lambda>w. if df_audit_log f = [] then (Inr (), w)
                  else io_check AuditLogFailed (de_open_append env (df_audit_log f)) w) (\<lambda>_.
     io_bind (new_gateway (de_cmd env) st recipes cfg
                ([with_csrf policies] @ (if df_audit_log f = [] then [] else [with_audit]))) (\<lambda>g.
     io_bind (effective_token env (df_gateway_token f)) (\<lambda>tok.
     (\<lambda>w. (Inr (g\<lparr>g_require_token := tok\<rparr>), w))))))"

definition daemon_start ::
  "('c, 'k, 'j, 'w) daemon_env \<Rightarrow> daemon_flags \<Rightarrow> ('w, cmd_error + 'w daemon) io" where
  "daemon_start env f =
     (if df_base_port f \<le> 0 \<or> 65535 < df_base_port f then (\<lambda>w. (Inl (BadBasePort (df_base_port f)), w))
      else
        io_bind (\<lambda>w. (parse_log_level (df_log_level f), w)) (\<lambda>_.
        io_bind (build_store (de_cmd env) (df_config f) (df_tls f)) (\<lambda>(st, recipes, cfg).
        io_bind (\<lambda>w. if df_socket f = [] then default_socket_path env w else (Inr (df_socket f), w)) (\<lambda>socket.
        io_bind (prepare_gateway env f st recipes cfg) (\<lambda>g.
        io_bind (bind_gateways env (identities st) (df_base_port f) []) (\<lambda>ports.
        io_bind (bind_control env socket ports) (\<lambda>ls.
        (\<lambda>w. (Inr \<lparr>d_gateway = g, d_listeners = ls, d_interval = df_refresh_interval f,
                   d_warnings = warn_if_insecure cfg @ warn_if_plaintext_auth cfg @
                     (if g_require_token g = [] then [UnauthenticatedGateway] else [])\<rparr>, w)))))))))"

text \<open>A signal or a listener that fails ends the daemon: every listener is closed.\<close>

definition daemon_stop :: "('c, 'k, 'j, 'w) daemon_env \<Rightarrow> 'w daemon \<Rightarrow> 'w \<Rightarrow> 'w" where
  "daemon_stop env d w = close_all env (d_listeners d) w"

section \<open>The running daemon\<close>

text \<open>One tick of \<open>proactiveRefresh\<close>; the window is twice the interval, in 64 bits.\<close>

definition proactive_cycle :: "'w ticker \<Rightarrow> 64 word \<Rightarrow> 'w gateway \<Rightarrow> 'w \<Rightarrow> 'w gateway \<times> 'w" where
  "proactive_cycle tick interval g w =
     (case refresh_expiring tick (sint (2 * interval)) (g_store g) w of
        (errs, st, w1) \<Rightarrow>
          (log_to (ProactiveCycle (length errs))
             (foldl (\<lambda>g (i, err). log_to (ProactiveFailed i err) g) (g\<lparr>g_store := st\<rparr>) errs), w1))"

datatype event =
    GatewayRequest int inbound
  | ControlRequest string
  | RefreshTick

fun port_identity :: "listener list \<Rightarrow> int \<Rightarrow> string option" where
  "port_identity [] port = None"
| "port_identity (l # ls) port =
     (case l of
        GatewayListener i p \<Rightarrow> if p = port then Some i else port_identity ls port
      | ControlListener _ \<Rightarrow> port_identity ls port)"

definition daemon_event ::
  "'w ticker \<Rightarrow> (gerror \<Rightarrow> string) \<Rightarrow> event \<Rightarrow> 'w daemon \<Rightarrow> 'w \<Rightarrow> 'w daemon \<times> 'w" where
  "daemon_event tick show_err ev d w =
     (case ev of
        GatewayRequest port r \<Rightarrow>
          (case port_identity (d_listeners d) port of
             None \<Rightarrow> (d, w)
           | Some i \<Rightarrow>
               (case serve tick i r (d_gateway d) w of (_, g, w1) \<Rightarrow> (d\<lparr>d_gateway := g\<rparr>, w1)))
      | ControlRequest path \<Rightarrow>
          (case new_server tick show_err path (g_store (d_gateway d)) w of
             (_, st, w1) \<Rightarrow> (d\<lparr>d_gateway := (d_gateway d)\<lparr>g_store := st\<rparr>\<rparr>, w1))
      | RefreshTick \<Rightarrow>
          if 0 < sint (d_interval d) then
            (case proactive_cycle tick (d_interval d) (d_gateway d) w of
               (g, w1) \<Rightarrow> (d\<lparr>d_gateway := g\<rparr>, w1))
          else (d, w))"

fun daemon_run ::
  "'w ticker \<Rightarrow> (gerror \<Rightarrow> string) \<Rightarrow> event list \<Rightarrow> 'w daemon \<Rightarrow> 'w \<Rightarrow> 'w daemon \<times> 'w" where
  "daemon_run tick show_err [] d w = (d, w)"
| "daemon_run tick show_err (ev # evs) d w =
     (case daemon_event tick show_err ev d w of (d1, w1) \<Rightarrow> daemon_run tick show_err evs d1 w1)"

end
