(* ===== verification/Cmdline.thy ===== *)
theory Cmdline
  imports Daemon Status
begin

text \<open>
  The command line: \<open>main.go\<close>, \<open>cmd/root.go\<close>, \<open>cmd/version.go\<close> and the registration of the flags in
  every \<open>new...Cmd\<close>.  A command is its name, its flags with their defaults and the number of its
  arguments; cobra, which parses the line, is a parameter that yields a \<open>parsed\<close> line.  What a command
  prints is data, as in the theories of the commands.
\<close>

section \<open>Flags\<close>

datatype flag_value =
    StringFlag string
  | BoolFlag bool
  | IntFlag int
  | DurationFlag "64 word"
  | StringsFlag "string list"

type_synonym flag_spec = "(string \<times> flag_value) list"

definition tls_flag_spec :: flag_spec where
  "tls_flag_spec =
     [(''insecure'', BoolFlag False), (''ca-cert'', StringFlag []), (''client-cert'', StringFlag []),
      (''client-key'', StringFlag [])]"

definition daemon_flag_spec :: flag_spec where
  "daemon_flag_spec =
     [(''config'', StringFlag ''claviger.yaml''), (''socket'', StringFlag []), (''base-port'', IntFlag 8888),
      (''gateway-token'', StringFlag []), (''refresh-interval'', DurationFlag (30 * 1000000000)),
      (''log-level'', StringFlag ''info''), (''audit-log'', StringFlag [])] @ tls_flag_spec"

definition identities_flag_spec :: flag_spec where
  "identities_flag_spec = [(''config'', StringFlag ''claviger.yaml''), (''socket'', StringFlag [])] @ tls_flag_spec"

definition header_flag_spec :: flag_spec where
  "header_flag_spec = [(''config'', StringFlag ''claviger.yaml''), (''socket'', StringFlag [])] @ tls_flag_spec"

definition replay_flag_spec :: flag_spec where
  "replay_flag_spec =
     [(''config'', StringFlag ''claviger.yaml''), (''method'', StringFlag ''GET''), (''path'', StringFlag ''/''),
      (''as'', StringsFlag []), (''socket'', StringFlag []), (''corpus'', StringFlag []), (''format'', StringFlag []),
      (''include-unsafe'', BoolFlag False)] @ tls_flag_spec"

definition status_flag_spec :: flag_spec where
  "status_flag_spec = [(''socket'', StringFlag []), (''no-color'', BoolFlag False)]"

definition watch_flag_spec :: flag_spec where
  "watch_flag_spec = [(''socket'', StringFlag []), (''interval'', DurationFlag 1000000000)]"

section \<open>Commands\<close>

datatype command = CmdDaemon | CmdIdentities | CmdHeader | CmdReplay | CmdStatus | CmdWatch | CmdVersion

record command_spec =
  cm_use :: string
  cm_flags :: flag_spec
  cm_exact_args :: "nat option"

definition spec_of :: "command \<Rightarrow> command_spec" where
  "spec_of c =
     (case c of
        CmdDaemon \<Rightarrow> \<lparr>cm_use = ''daemon'', cm_flags = daemon_flag_spec, cm_exact_args = None\<rparr>
      | CmdIdentities \<Rightarrow> \<lparr>cm_use = ''identities'', cm_flags = identities_flag_spec, cm_exact_args = None\<rparr>
      | CmdHeader \<Rightarrow> \<lparr>cm_use = ''header <identity>'', cm_flags = header_flag_spec, cm_exact_args = Some 1\<rparr>
      | CmdReplay \<Rightarrow> \<lparr>cm_use = ''replay'', cm_flags = replay_flag_spec, cm_exact_args = None\<rparr>
      | CmdStatus \<Rightarrow> \<lparr>cm_use = ''status'', cm_flags = status_flag_spec, cm_exact_args = None\<rparr>
      | CmdWatch \<Rightarrow> \<lparr>cm_use = ''watch'', cm_flags = watch_flag_spec, cm_exact_args = None\<rparr>
      | CmdVersion \<Rightarrow> \<lparr>cm_use = ''version'', cm_flags = [], cm_exact_args = None\<rparr>)"

text \<open>The order in which \<open>NewRootCmd\<close> adds them.\<close>

definition root_commands :: "command list" where
  "root_commands = [CmdDaemon, CmdIdentities, CmdHeader, CmdReplay, CmdStatus, CmdWatch, CmdVersion]"

text \<open>
  A parsed line: the command, its arguments, and the flags that were given.  \<open>flag\<close> is a flag's value,
  \<open>flag_changed\<close> is \<open>Flags().Changed\<close>.
\<close>

record invocation =
  iv_command :: command
  iv_args :: "string list"
  iv_given :: flag_spec

text \<open>Help and \<open>--version\<close> are cobra's own answers; the second uses the template that \<open>NewRootCmd\<close> sets.\<close>

datatype parsed = HelpRequest | VersionRequest | Invoke invocation

definition version_line :: "string \<Rightarrow> string" where
  "version_line version = ''claviger '' @ version"

definition flag :: "invocation \<Rightarrow> string \<Rightarrow> flag_value option" where
  "flag iv name =
     (case map_of (iv_given iv) name of
        Some v \<Rightarrow> Some v | None \<Rightarrow> map_of (cm_flags (spec_of (iv_command iv))) name)"

definition flag_changed :: "invocation \<Rightarrow> string \<Rightarrow> bool" where
  "flag_changed iv name \<longleftrightarrow> map_of (iv_given iv) name \<noteq> None"

definition string_flag :: "invocation \<Rightarrow> string \<Rightarrow> string" where
  "string_flag iv name = (case flag iv name of Some (StringFlag s) \<Rightarrow> s | _ \<Rightarrow> [])"

definition bool_flag :: "invocation \<Rightarrow> string \<Rightarrow> bool" where
  "bool_flag iv name = (case flag iv name of Some (BoolFlag b) \<Rightarrow> b | _ \<Rightarrow> False)"

definition int_flag :: "invocation \<Rightarrow> string \<Rightarrow> int" where
  "int_flag iv name = (case flag iv name of Some (IntFlag n) \<Rightarrow> n | _ \<Rightarrow> 0)"

definition duration_flag :: "invocation \<Rightarrow> string \<Rightarrow> 64 word" where
  "duration_flag iv name = (case flag iv name of Some (DurationFlag d) \<Rightarrow> d | _ \<Rightarrow> 0)"

definition strings_flag :: "invocation \<Rightarrow> string \<Rightarrow> string list" where
  "strings_flag iv name = (case flag iv name of Some (StringsFlag l) \<Rightarrow> l | _ \<Rightarrow> [])"

text \<open>\<open>markChanged\<close>, with the values that \<open>registerTLSFlags\<close> binds.\<close>

definition mark_changed :: "invocation \<Rightarrow> tls_flags" where
  "mark_changed iv =
     \<lparr>tf_insecure = bool_flag iv ''insecure'', tf_insecure_set = flag_changed iv ''insecure'',
      tf_ca_cert = string_flag iv ''ca-cert'', tf_ca_cert_set = flag_changed iv ''ca-cert'',
      tf_client_cert = string_flag iv ''client-cert'', tf_client_cert_set = flag_changed iv ''client-cert'',
      tf_client_key = string_flag iv ''client-key'', tf_client_key_set = flag_changed iv ''client-key''\<rparr>"

definition daemon_flags_of :: "invocation \<Rightarrow> daemon_flags" where
  "daemon_flags_of iv =
     \<lparr>df_config = string_flag iv ''config'', df_socket = string_flag iv ''socket'',
      df_gateway_token = string_flag iv ''gateway-token'', df_log_level = string_flag iv ''log-level'',
      df_audit_log = string_flag iv ''audit-log'', df_base_port = int_flag iv ''base-port'',
      df_refresh_interval = duration_flag iv ''refresh-interval'', df_tls = mark_changed iv\<rparr>"

definition replay_flags_of :: "invocation \<Rightarrow> replay_flags" where
  "replay_flags_of iv =
     \<lparr>rf_ids = strings_flag iv ''as'', rf_method = string_flag iv ''method'',
      rf_method_changed = flag_changed iv ''method'', rf_path = string_flag iv ''path'',
      rf_path_changed = flag_changed iv ''path'', rf_socket = string_flag iv ''socket'',
      rf_corpus = string_flag iv ''corpus'', rf_format = string_flag iv ''format'',
      rf_include_unsafe = bool_flag iv ''include-unsafe''\<rparr>"

section \<open>Running a command\<close>

text \<open>What a command leaves on its output, besides its error.\<close>

datatype printed =
    Nothing
  | Listening "listener list"
  | Names "string list"
  | HeaderLine string
  | ReplayTable "cmd_error replay_result list" "cmd_error corpus_row list"
  | StatusTable "status_row list"
  | Frames "(gtime \<times> (cmd_error + status_row list)) list" watch_end
  | VersionLine string

text \<open>
  What happens while a command runs: the events a daemon serves and the error that ended it, if it was
  not a signal; the ticks that \<open>watch\<close> sees before the interrupt.
\<close>

record course =
  co_events :: "event list"
  co_serve_error :: "cmd_error option"
  co_ticks :: nat

definition daemon_cmd ::
  "('c, 'k, 'j, 'w) daemon_env \<Rightarrow> 'w ticker \<Rightarrow> (gerror \<Rightarrow> string) \<Rightarrow> course \<Rightarrow> daemon_flags
     \<Rightarrow> ('w, printed \<times> cmd_error option) io" where
  "daemon_cmd env tick show_err co f w =
     (case daemon_start env f w of
        (Inl err, w1) \<Rightarrow> ((Nothing, Some err), w1)
      | (Inr d, w1) \<Rightarrow>
          (case daemon_run tick show_err (co_events co) d w1 of
             (d1, w2) \<Rightarrow> ((Listening (d_listeners d), co_serve_error co), daemon_stop env d1 w2)))"

definition of_result :: "('a \<Rightarrow> printed) \<Rightarrow> cmd_error + 'a \<Rightarrow> printed \<times> cmd_error option" where
  "of_result f r = (case r of Inl err \<Rightarrow> (Nothing, Some err) | Inr a \<Rightarrow> (f a, None))"

text \<open>The body of the command that was named; \<open>version\<close> is a value of the build.\<close>

definition run_command ::
  "('c, 'k, 'j, 'w) daemon_env \<Rightarrow> 'w ticker \<Rightarrow> (gerror \<Rightarrow> string) \<Rightarrow> string \<Rightarrow> course \<Rightarrow> invocation
     \<Rightarrow> ('w, printed \<times> cmd_error option) io" where
  "run_command denv tick show_err version co iv w =
     (let env = de_cmd denv; socket = string_flag iv ''socket''; cfg = string_flag iv ''config'' in
      case iv_command iv of
        CmdDaemon \<Rightarrow> daemon_cmd denv tick show_err co (daemon_flags_of iv) w
      | CmdIdentities \<Rightarrow> apfst (of_result Names) (identities_cmd env socket cfg (mark_changed iv) w)
      | CmdHeader \<Rightarrow>
          apfst (of_result HeaderLine) (header_cmd env tick socket cfg (hd (iv_args iv)) (mark_changed iv) w)
      | CmdReplay \<Rightarrow>
          (case replay_cmd env tick cfg (mark_changed iv) (replay_flags_of iv) w of
             ((o', _), w1) \<Rightarrow> ((ReplayTable (ro_results o') (ro_rows o'), ro_error o'), w1))
      | CmdStatus \<Rightarrow> apfst (of_result StatusTable) (status_cmd env tick socket (bool_flag iv ''no-color'') w)
      | CmdWatch \<Rightarrow>
          apfst (of_result (\<lambda>(fs, e). Frames fs e))
            (watch_cmd env tick socket (sint (duration_flag iv ''interval'')) (co_ticks co) w)
      | CmdVersion \<Rightarrow> ((VersionLine (version_line version), None), w))"

text \<open>
  \<open>Execute\<close>: cobra parses the line, checks the number of arguments and runs the command; an error of
  the line is reported like any other.  \<open>main\<close> prints the error and exits with status 1; a panic of the
  runtime exits with 2.
\<close>

datatype exec_error = LineError gerror | ArgsError nat nat | CommandError cmd_error

definition execute ::
  "(command list \<Rightarrow> string list \<Rightarrow> gerror + parsed) \<Rightarrow> ('c, 'k, 'j, 'w) daemon_env \<Rightarrow> 'w ticker
     \<Rightarrow> (gerror \<Rightarrow> string) \<Rightarrow> string \<Rightarrow> course \<Rightarrow> string list \<Rightarrow> ('w, printed \<times> exec_error option) io" where
  "execute parse denv tick show_err version co line w =
     (case parse root_commands line of
        Inl err \<Rightarrow> ((Nothing, Some (LineError err)), w)
      | Inr HelpRequest \<Rightarrow> ((Nothing, None), w)
      | Inr VersionRequest \<Rightarrow> ((VersionLine (version_line version), None), w)
      | Inr (Invoke iv) \<Rightarrow>
          (case cm_exact_args (spec_of (iv_command iv)) of
             Some n \<Rightarrow>
               (if length (iv_args iv) \<noteq> n then ((Nothing, Some (ArgsError n (length (iv_args iv)))), w)
                else apfst (apsnd (map_option CommandError)) (run_command denv tick show_err version co iv w))
           | None \<Rightarrow> apfst (apsnd (map_option CommandError)) (run_command denv tick show_err version co iv w)))"

definition exit_status :: "printed \<Rightarrow> exec_error option \<Rightarrow> int" where
  "exit_status out err =
     (case out of
        Frames _ TickerPanic \<Rightarrow> 2
      | _ \<Rightarrow> (case err of None \<Rightarrow> 0 | Some _ \<Rightarrow> 1))"

text \<open>The line on standard error, with the error as data, and the exit status.\<close>

definition claviger_main ::
  "(command list \<Rightarrow> string list \<Rightarrow> gerror + parsed) \<Rightarrow> ('c, 'k, 'j, 'w) daemon_env \<Rightarrow> 'w ticker
     \<Rightarrow> (gerror \<Rightarrow> string) \<Rightarrow> string \<Rightarrow> course \<Rightarrow> string list \<Rightarrow> ('w, printed \<times> exec_error option \<times> int) io" where
  "claviger_main parse denv tick show_err version co line w =
     (case execute parse denv tick show_err version co line w of
        ((out, err), w1) \<Rightarrow> ((out, err, exit_status out err), w1))"

end
