(* ===== verification/Daemon_Facts.thy ===== *)
theory Daemon_Facts
  imports Daemon Config_Properties "HOL-Library.Multiset"
begin

text \<open>
  Facts about the start and the events of the daemon: the store that is built of a configuration,
  the ports that are bound, and what an event leaves unchanged.
\<close>

section \<open>The store of a configuration\<close>

lemma update_absent: "k \<notin> fst ` set m \<Longrightarrow> AList.update k v m = m @ [(k, v)]"
  by (induction m) auto

lemma register_all_entries:
  "distinct (map fst (st_entries st) @ map r_identity rs) \<Longrightarrow>
   st_entries (register_all rs st) = st_entries st @ map (\<lambda>r. (r_identity r, new_entry r)) rs"
proof (induction rs arbitrary: st)
  case (Cons r rs)
  have e: "st_entries (register r st) = st_entries st @ [(r_identity r, new_entry r)]"
    using Cons.prems by (simp add: register_def update_absent)
  have "register_all (r # rs) st = register_all rs (register r st)" by (simp add: register_all_def)
  with Cons.IH [of "register r st"] Cons.prems e show ?case by simp
qed (simp add: register_all_def)

lemma with_backoff_entries [simp]: "st_entries (with_backoff mb win st) = st_entries st"
  by (simp add: with_backoff_def Let_def)

lemma store_new_entries [simp]: "st_entries (store_new [with_backoff mb win]) = []"
  by (simp add: store_new_def)

lemma apply_tls_identities [simp]:
  "cfg_identities (apply_tls_flags f cfg) = cfg_identities cfg" "cfg_target (apply_tls_flags f cfg) = cfg_target cfg"
  by (simp_all add: apply_tls_flags_def Let_def)

text \<open>Each pair comes of one identity of the configuration, the only one of its name.\<close>

lemma built_config:
  assumes "config_recipes env cfg w = (Inr out, w')" and "(i, b) \<in> set out"
  obtains c where "c \<in> set (cfg_identities cfg)" "ic_name c = i" "built_from env cfg c b"
    "\<And>c'. c' \<in> set (cfg_identities cfg) \<Longrightarrow> ic_name c' = i \<Longrightarrow> c' = c"
proof -
  note some = config_recipes_some [OF assms(1)]
  from assms(2) obtain n where n: "n < length out" "out ! n = (i, b)" by (auto simp: in_set_conv_nth)
  have len: "length out = length (cfg_identities cfg)" using some(1) by (metis length_map)
  let ?c = "cfg_identities cfg ! n"
  have c: "?c \<in> set (cfg_identities cfg)" using n(1) len by simp
  moreover have "built_from env cfg ?c b" using list_all2_nthD2 [OF some(2) n(1)] n(2) by simp
  moreover have name: "ic_name ?c = i"
    using n len some(1) by (metis fst_conv nth_map)
  moreover have "inj_on ic_name (set (cfg_identities cfg))"
    using some(1,3) by (metis distinct_map)
  with c name have "c' = ?c" if "c' \<in> set (cfg_identities cfg)" "ic_name c' = i" for c'
    using that by (simp add: inj_on_def)
  ultimately show thesis using that by blast
qed

lemma built_identities:
  assumes "config_recipes env cfg w = (Inr out, w')" and "(i, b) \<in> set out"
  shows "built_identity b = i"
  using built_config [OF assms] built_from_identity by metis

definition built_entries :: "('c, 'k, 'j, 'w) recipe_env \<Rightarrow> (string \<times> ('c, 'k) built) list \<Rightarrow> (string \<times> 'w entry) list" where
  "built_entries env out = map (\<lambda>p. (fst p, new_entry (to_recipe env (snd p)))) out"

definition built_recipes :: "('c, 'k, 'j, 'w) recipe_env \<Rightarrow> (string \<times> ('c, 'k) built) list \<Rightarrow> (string, 'w recipe) gomap" where
  "built_recipes env out = map (\<lambda>p. (fst p, to_recipe env (snd p))) out"

lemma register_built:
  assumes "\<And>i b. (i, b) \<in> set out \<Longrightarrow> built_identity b = i" and "distinct (map fst out)" and "st_entries st = []"
  shows "st_entries (register_all (map snd (built_recipes env out)) st) = built_entries env out"
proof -
  have ids: "r_identity (to_recipe env (snd p)) = fst p" if "p \<in> set out" for p
    using assms(1) [of "fst p" "snd p"] that by simp
  then have "map r_identity (map snd (built_recipes env out)) = map fst out"
    by (simp add: built_recipes_def)
  then have "st_entries (register_all (map snd (built_recipes env out)) st)
      = map (\<lambda>r. (r_identity r, new_entry r)) (map snd (built_recipes env out))"
    using assms(2,3) by (subst register_all_entries) simp_all
  also have "\<dots> = built_entries env out" using ids by (simp add: built_recipes_def built_entries_def)
  finally show ?thesis .
qed

text \<open>What a store that was built contains, and what the configuration was.\<close>

lemma build_store_some:
  assumes "build_store env path flags w = (Inr (st, recipes, cfg), w')"
  obtains cfg0 w1 out where "load_config (ce_os env) path w = (Inr cfg0, w1)"
    "cfg = apply_tls_flags flags cfg0" "config_recipes (ce_tls env) cfg w1 = (Inr out, w')"
    "recipes = built_recipes (ce_recipes env) out" "st_entries st = built_entries (ce_recipes env) out"
proof -
  obtain x w1 where c: "load_config (ce_os env) path w = (x, w1)" by fastforce
  with assms obtain cfg0 where x: "x = Inr cfg0" by (cases x) (simp_all add: build_store_def)
  obtain y w2 where o1: "config_recipes (ce_tls env) (apply_tls_flags flags cfg0) w1 = (y, w2)" by fastforce
  with assms c x obtain out where y: "y = Inr out" by (cases y) (simp_all add: build_store_def Let_def)
  have eq: "cfg = apply_tls_flags flags cfg0" "w2 = w'" "recipes = built_recipes (ce_recipes env) out"
    "st = register_all (map snd (built_recipes (ce_recipes env) out))
      (store_new [with_backoff (bo_max_burst (cfg_backoff cfg)) (bo_window (cfg_backoff cfg))])"
    using assms c x o1 y by (auto simp: build_store_def Let_def built_recipes_def)
  from o1 y eq have run: "config_recipes (ce_tls env) cfg w1 = (Inr out, w')" by simp
  have "st_entries st = built_entries (ce_recipes env) out"
    unfolding eq(4)
    by (rule register_built [OF built_identities [OF run] config_recipes_some(3) [OF run] store_new_entries])
  with c x eq run that show thesis by blast
qed

lemma built_entries_ok:
  assumes "\<And>i b. (i, b) \<in> set out \<Longrightarrow> built_identity b = i" and "distinct (map fst out)"
    and "st_entries st = built_entries env out"
  shows "store_ok st"
proof -
  have "entry_ok i e" if "lookup i st = Inr e" for i e
  proof -
    from that have "(i, e) \<in> set (st_entries st)"
      by (auto simp: lookup_def split: option.splits dest: map_of_SomeD)
    then obtain b where b: "(i, b) \<in> set out" "e = new_entry (to_recipe env b)"
      by (auto simp: assms(3) built_entries_def)
    then show ?thesis
      using assms(1) [OF b(1)] to_recipe_login [of env b]
      by (simp add: entry_ok_def) (simp add: new_entry_def)
  qed
  moreover have "distinct (map fst (st_entries st))"
    using assms(2) by (simp add: assms(3) built_entries_def comp_def)
  ultimately show ?thesis by (simp add: store_ok_def)
qed

lemma build_store_ok:
  assumes "build_store env path flags w = (Inr (st, recipes, cfg), w')"
  shows "store_ok st" "map fst (st_entries st) = map ic_name (cfg_identities cfg)"
    "map fst recipes = map ic_name (cfg_identities cfg)"
proof -
  from assms show "store_ok st"
    by (rule build_store_some)
      (rule built_entries_ok, erule (1) built_identities, erule config_recipes_some(3))
  from assms show "map fst (st_entries st) = map ic_name (cfg_identities cfg)"
    by (rule build_store_some) (simp add: built_entries_def comp_def config_recipes_some(1))
  from assms show "map fst recipes = map ic_name (cfg_identities cfg)"
    by (rule build_store_some) (simp add: built_recipes_def comp_def config_recipes_some(1))
qed

section \<open>The start\<close>

lemma gateway_new_some:
  assumes "gateway_new st recipes client target opts = Inr g"
    and "\<And>opt g. opt \<in> set opts \<Longrightarrow> g_store (opt g) = g_store g \<and> g_recipes (opt g) = g_recipes g"
  shows "g_store g = st \<and> g_recipes g = recipes"
proof -
  have keep: "g_store (foldl (\<lambda>g opt. opt g) g opts) = g_store g \<and> g_recipes (foldl (\<lambda>g opt. opt g) g opts) = g_recipes g" for g
    using assms(2) by (induction opts arbitrary: g) simp_all
  from assms(1) keep show ?thesis by (auto simp: gateway_new_def split: sum.splits)
qed

lemma new_gateway_some:
  assumes "new_gateway env st recipes cfg (with_csrf policies # (if no_audit then [] else [with_audit])) w = (Inr g, w')"
  shows "g_store g = st \<and> g_recipes g = recipes"
proof -
  from assms obtain g0 client where g0: "gateway_new st recipes
      (ce_no_redirect env \<lparr>tr_insecure_skip_verify = False, tr_root_cas = None, tr_certificates = []\<rparr>)
      (cfg_target cfg) (with_csrf policies # (if no_audit then [] else [with_audit])) = Inr g0"
    "g = g0\<lparr>g_client := client\<rparr>"
    by (auto simp: new_gateway_def split: sum.splits prod.splits)
  have "g_store g0 = st \<and> g_recipes g0 = recipes"
    by (rule gateway_new_some [OF g0(1)]) (auto simp: with_csrf_def with_audit_def split: if_splits)
  with g0(2) show ?thesis by simp
qed

lemma bind_gateways_some:
  "bind_gateways env is port open w = (Inr ls, w') \<Longrightarrow>
   ls = open @ map (\<lambda>k. GatewayListener (is ! k) (port + int k)) [0..<length is]"
proof (induction "is" arbitrary: port "open" w)
  case (Cons i "is")
  then obtain w1 where "bind_gateways env is (port + 1) (open @ [GatewayListener i port]) w1 = (Inr ls, w')"
    by (auto split: prod.splits option.splits)
  from Cons.IH [OF this]
  have "ls = open @ [GatewayListener i port] @ map (\<lambda>k. GatewayListener (is ! k) (port + 1 + int k)) [0..<length is]"
    by simp
  moreover have "map (\<lambda>k. GatewayListener ((i # is) ! k) (port + int k)) [0..<Suc (length is)]
      = GatewayListener i port # map (\<lambda>k. GatewayListener (is ! k) (port + 1 + int k)) [0..<length is]"
    by (simp add: map_upt_Suc algebra_simps del: upt_Suc)
  ultimately show ?case by simp
qed simp

lemma bind_control_some:
  "bind_control env socket open w = (Inr ls, w') \<Longrightarrow> ls = open @ [ControlListener socket]"
  by (auto simp: bind_control_def Let_def split: prod.splits option.splits)

text \<open>
  What is open after binding, for any count \<open>held\<close> of the listeners that are open: beside the \<open>h\<close>
  of before, those handed on, or none after an error.
\<close>

lemma close_all_held:
  assumes "\<And>l v. held (de_close env l v) = held v - {#l#}" and "held v = h + mset ls"
  shows "held (close_all env ls v) = (h :: listener multiset)"
  using assms(2)
proof (induction ls arbitrary: v)
  case (Cons l ls)
  have "held (de_close env l v) = h + mset ls" using assms(1) Cons.prems by simp
  from Cons.IH [OF this] show ?case by (simp add: close_all_def)
qed (simp add: close_all_def)

lemma bind_gateways_held:
  assumes listen: "\<And>l v r v'. de_listen env l v = (r, v') \<Longrightarrow>
      held v' = (case r of None \<Rightarrow> add_mset l (held v) | Some _ \<Rightarrow> held v)"
    and close: "\<And>l v. held (de_close env l v) = held v - {#l#}"
    and "bind_gateways env is port open v = (x, v')" and "held v = h + mset open"
  shows "held v' = (case x of Inl _ \<Rightarrow> h | Inr ls \<Rightarrow> h + mset ls)"
  using assms(3,4)
proof (induction "is" arbitrary: port "open" v)
  case (Cons i "is")
  obtain r v1 where l: "de_listen env (GatewayListener i port) v = (r, v1)" by fastforce
  show ?case
  proof (cases r)
    case None
    have "held v1 = h + mset (open @ [GatewayListener i port])" using listen [OF l] None Cons.prems(2) by simp
    with Cons.IH [of "port + 1" "open @ [GatewayListener i port]" v1] Cons.prems(1) l None show ?thesis by simp
  next
    case (Some err)
    have "held (close_all env open v1) = h"
      by (rule close_all_held [where held = held]) (use listen [OF l] Some Cons.prems(2) close in simp_all)
    with Cons.prems(1) l Some show ?thesis by auto
  qed
qed auto

lemma bind_control_held:
  assumes listen: "\<And>l v r v'. de_listen env l v = (r, v') \<Longrightarrow>
      held v' = (case r of None \<Rightarrow> add_mset l (held v) | Some _ \<Rightarrow> held v)"
    and close: "\<And>l v. held (de_close env l v) = held v - {#l#}"
    and remove: "\<And>p v. held (de_remove env p v) = held v"
    and chmod: "\<And>p v r v'. de_chmod env p v = (r, v') \<Longrightarrow> held v' = held v"
    and "bind_control env socket open v = (x, v')" and "held v = h + mset open"
  shows "held v' = (case x of Inl _ \<Rightarrow> h | Inr ls \<Rightarrow> h + mset ls)"
proof -
  note closed = close_all_held [where held = held and env = env, OF close]
  let ?l = "ControlListener socket"
  obtain r v1 where l: "de_listen env ?l (de_remove env socket v) = (r, v1)" by fastforce
  show ?thesis
  proof (cases r)
    case None
    then have v1: "held v1 = add_mset ?l (h + mset open)" using listen [OF l] remove assms(6) by simp
    obtain c v2 where c: "de_chmod env socket v1 = (c, v2)" by fastforce
    have v2: "held v2 = add_mset ?l (h + mset open)" using chmod [OF c] v1 by simp
    show ?thesis
    proof (cases c)
      case None
      with assms(5) l c \<open>r = None\<close> v2 show ?thesis by (auto simp: bind_control_def Let_def)
    next
      case (Some err)
      have "held (close_all env open (de_close env ?l v2)) = h"
        by (rule closed) (simp add: close v2)
      with assms(5) l c \<open>r = None\<close> Some show ?thesis by (auto simp: bind_control_def Let_def)
    qed
  next
    case (Some err)
    have "held (close_all env open v1) = h"
      by (rule closed) (use listen [OF l] remove assms(6) Some in simp)
    with assms(5) l Some show ?thesis by (auto simp: bind_control_def Let_def)
  qed
qed

lemma prepare_gateway_some:
  assumes "prepare_gateway env f st recipes cfg w = (Inr g, w')"
  shows "g_store g = st \<and> g_recipes g = recipes"
  using assms unfolding prepare_gateway_def
  by (elim io_bind_some) (auto dest!: new_gateway_some [where no_audit = "df_audit_log f = []", simplified])

lemma daemon_start_some:
  assumes "daemon_start env f w = (Inr d, w')"
  obtains st recipes cfg w1 socket where
    "build_store (de_cmd env) (df_config f) (df_tls f) w = (Inr (st, recipes, cfg), w1)"
    "g_store (d_gateway d) = st" "g_recipes (d_gateway d) = recipes"
    "d_listeners d = map (\<lambda>k. GatewayListener (identities st ! k) (df_base_port f + int k))
       [0..<length (identities st)] @ [ControlListener socket]"
    "d_warnings d = warn_if_insecure cfg @ warn_if_plaintext_auth cfg @
       (if g_require_token (d_gateway d) = [] then [UnauthenticatedGateway] else [])"
proof -
  from assms have range: "\<not> (df_base_port f \<le> 0 \<or> 65535 < df_base_port f)"
    by (auto simp: daemon_start_def)
  from assms [unfolded daemon_start_def if_not_P [OF range]] obtain lvl st recipes cfg w0 w1 rest where
    b: "parse_log_level (df_log_level f) = Inr lvl"
    "build_store (de_cmd env) (df_config f) (df_tls f) w = (Inr (st, recipes, cfg), w1)"
    and rest: "io_bind (\<lambda>w. if df_socket f = [] then default_socket_path env w else (Inr (df_socket f), w)) (\<lambda>socket.
        io_bind (prepare_gateway env f st recipes cfg) (\<lambda>g.
        io_bind (bind_gateways env (identities st) (df_base_port f) []) (\<lambda>ports.
        io_bind (bind_control env socket ports) (\<lambda>ls.
        (\<lambda>w. (Inr \<lparr>d_gateway = g, d_listeners = ls, d_interval = df_refresh_interval f,
                   d_warnings = warn_if_insecure cfg @ warn_if_plaintext_auth cfg @
                     (if g_require_token g = [] then [UnauthenticatedGateway] else [])\<rparr>, w)))))) w1 = (Inr d, w')"
    by (elim io_bind_some) auto
  from rest obtain socket g ports ls w2 w3 w4 where
    r: "prepare_gateway env f st recipes cfg w2 = (Inr g, w3)"
    "bind_gateways env (identities st) (df_base_port f) [] w3 = (Inr ports, w4)"
    "bind_control env socket ports w4 = (Inr ls, w')"
    "d = \<lparr>d_gateway = g, d_listeners = ls, d_interval = df_refresh_interval f,
           d_warnings = warn_if_insecure cfg @ warn_if_plaintext_auth cfg @
                     (if g_require_token g = [] then [UnauthenticatedGateway] else [])\<rparr>"
    by (elim io_bind_some) auto
  from prepare_gateway_some [OF r(1)] bind_gateways_some [OF r(2)] bind_control_some [OF r(3)] r(4) b(2) that
  show thesis by simp
qed

section \<open>Events\<close>

lemma port_identity_mem: "port_identity ls port = Some i \<Longrightarrow> GatewayListener i port \<in> set ls"
  by (induction ls port rule: port_identity.induct) (auto split: listener.splits if_splits)

lemma port_identity_nth:
  "k < n \<Longrightarrow> port_identity (map (\<lambda>k. GatewayListener (f k) (p + int k)) [0..<n] @ ls) (p + int k) = Some (f k)"
proof -
  have skip: "port_identity (map (\<lambda>k. GatewayListener (f k) (p + int k)) [m..<n] @ ls) (p + int k) = Some (f k)"
    if "m \<le> k" "k < n" for m
    using that
  proof (induction "k - m" arbitrary: m)
    case 0
    then show ?case by (simp add: upt_conv_Cons)
  next
    case (Suc x)
    then have m: "m < n" "m \<noteq> k" by simp_all
    from Suc.hyps(1) [of "Suc m"] Suc.hyps(2) Suc.prems have
      "port_identity (map (\<lambda>k. GatewayListener (f k) (p + int k)) [Suc m..<n] @ ls) (p + int k) = Some (f k)" by simp
    with m show ?case by (simp add: upt_conv_Cons [of m n])
  qed
  assume "k < n"
  with skip [of 0] show ?thesis by simp
qed

lemma serve_keeps:
  assumes "serve tick i r g w = (rp, g', w')" and "store_ok (g_store g)"
  shows "store_ok (g_store g') \<and> settings_of g' = settings_of g \<and>
    map fst (st_entries (g_store g')) = map fst (st_entries (g_store g))"
proof (cases "g' = g")
  case False
  then obtain body where adm: "serve_admitted tick i r body g w = (rp, g', w')"
    using assms(1) by (auto simp: serve_def split: option.splits sum.splits)
  show ?thesis
  proof (cases "map_of (g_recipes g) i")
    case (Some rc)
    from serve_managed_evolves [OF adm Some assms(2)] show ?thesis by (simp add: evolves_def)
  next
    case None
    obtain x g2 w2 where f: "forward tick r body i False ([], []) g w = (x, g2, w2)"
      by (metis prod_cases3)
    from forward_anonymous [OF f] have g2: "g_store g2 = g_store g \<and> settings_of g2 = settings_of g"
      by (auto simp: settings_of_def)
    have "g' = g2 \<or> (\<exists>n. g' = audit i r n g2)"
      using adm f None by (cases x) (auto simp: serve_admitted_def)
    with g2 assms(2) show ?thesis by (auto simp: settings_of_def audit_def)
  qed
qed (use assms in simp)

lemma new_server_keys:
  "new_server tick show_err path st w = (r, st', w') \<Longrightarrow>
   map fst (st_entries st') = map fst (st_entries st)"
  by (auto simp: new_server_def creds_handler_def Let_def split: if_splits prod.splits sum.splits
      dest: store_get_keys)

lemma refresh_due_keys:
  "refresh_due tick now within hs errs st w = (errs', st', w') \<Longrightarrow>
   map fst (st_entries st') = map fst (st_entries st)"
proof (induction hs arbitrary: errs st w)
  case (Cons h hs)
  show ?case
  proof (cases "due now within h")
    case False
    from Cons.prems [unfolded refresh_due_skip [OF False]] show ?thesis by (rule Cons.IH)
  next
    case True
    obtain x st1 w1 where s: "store_refresh tick (h_name h) st w = (x, st1, w1)" by (metis prod_cases3)
    from Cons.prems [unfolded refresh_due_step [OF True s]] have "map fst (st_entries st') = map fst (st_entries st1)"
      by (rule Cons.IH)
    with store_refresh_keys [OF s] show ?thesis by simp
  qed
qed simp

lemma log_to_keeps: "g_store (log_to e g) = g_store g" "settings_of (log_to e g) = settings_of g"
  "g_csrf_cache (log_to e g) = g_csrf_cache g"
  by (simp_all add: log_to_def settings_of_def)

lemma log_fold_simps:
  "g_store (foldl (\<lambda>g (i, err). log_to (ProactiveFailed i err) g) g errs) = g_store g"
  "settings_of (foldl (\<lambda>g (i, err). log_to (ProactiveFailed i err) g) g errs) = settings_of g"
  "g_csrf_cache (foldl (\<lambda>g (i, err). log_to (ProactiveFailed i err) g) g errs) = g_csrf_cache g"
  by (induction errs arbitrary: g) (auto simp: log_to_keeps)

lemma proactive_cache:
  "proactive_cycle tick interval g w = (g', w') \<Longrightarrow> g_csrf_cache g' = g_csrf_cache g"
  by (auto simp: proactive_cycle_def log_fold_simps log_to_keeps split: prod.splits)

lemma proactive_keeps:
  assumes "proactive_cycle tick interval g w = (g', w')" and "store_ok (g_store g)"
  shows "store_ok (g_store g') \<and> settings_of g' = settings_of g \<and>
    map fst (st_entries (g_store g')) = map fst (st_entries (g_store g))"
proof -
  obtain now w1 where t: "tick w = (now, w1)" by fastforce
  obtain errs st w2 where r: "refresh_due tick now (sint (2 * interval)) (health (g_store g)) [] (g_store g) w1
      = (errs, st, w2)" by (metis prod_cases3)
  have "g_store g' = st" "settings_of g' = settings_of g"
    using assms(1) t r
    by (auto simp: proactive_cycle_def refresh_expiring_def log_fold_simps log_to_keeps)
  with refresh_due_ok [OF r assms(2)] refresh_due_keys [OF r] show ?thesis by simp
qed

text \<open>What no event changes.\<close>

definition daemon_same :: "'w daemon \<Rightarrow> 'w daemon \<Rightarrow> bool" where
  "daemon_same d d' \<longleftrightarrow>
     store_ok (g_store (d_gateway d')) \<and> settings_of (d_gateway d') = settings_of (d_gateway d) \<and>
     map fst (st_entries (g_store (d_gateway d'))) = map fst (st_entries (g_store (d_gateway d))) \<and>
     d_listeners d' = d_listeners d"

lemma daemon_event_same:
  assumes "daemon_event tick show_err ev d w = (d', w')" and "store_ok (g_store (d_gateway d))"
  shows "daemon_same d d'"
proof (cases ev)
  case (GatewayRequest port r)
  show ?thesis
  proof (cases "port_identity (d_listeners d) port")
    case (Some i)
    obtain rp g w1 where s: "serve tick i r (d_gateway d) w = (rp, g, w1)" by (metis prod_cases3)
    with serve_keeps [OF s assms(2)] assms(1) GatewayRequest Some show ?thesis
      by (auto simp: daemon_event_def daemon_same_def)
  qed (use assms GatewayRequest in \<open>simp add: daemon_event_def daemon_same_def\<close>)
next
  case (ControlRequest path)
  obtain rp st w1 where s: "new_server tick show_err path (g_store (d_gateway d)) w = (rp, st, w1)"
    by (metis prod_cases3)
  with new_server_ok [OF s assms(2)] new_server_keys [OF s] assms(1) ControlRequest show ?thesis
    by (auto simp: daemon_event_def daemon_same_def settings_of_def)
next
  case RefreshTick
  obtain g w1 where s: "proactive_cycle tick (d_interval d) (d_gateway d) w = (g, w1)" by fastforce
  with proactive_keeps [OF s assms(2)] assms RefreshTick show ?thesis
    by (auto simp: daemon_event_def daemon_same_def split: if_splits)
qed

lemma daemon_run_same:
  "daemon_run tick show_err evs d w = (d', w') \<Longrightarrow> store_ok (g_store (d_gateway d)) \<Longrightarrow> daemon_same d d'"
proof (induction evs arbitrary: d w)
  case (Cons ev evs)
  obtain d1 w1 where e: "daemon_event tick show_err ev d w = (d1, w1)" by fastforce
  from daemon_event_same [OF e Cons.prems(2)] have one: "daemon_same d d1" .
  from Cons.prems(1) e have "daemon_run tick show_err evs d1 w1 = (d', w')" by simp
  from Cons.IH [OF this] one show ?case by (simp add: daemon_same_def)
qed (simp add: daemon_same_def)

end
