(* ===== verification/Daemon_Properties.thy ===== *)
theory Daemon_Properties
  imports Daemon_Facts Attach_Properties Recipe_Properties Gateway_Properties "HOL-Library.Multiset"
begin

text \<open>
  What the daemon promises: the warnings it prints, the ports it binds, the listeners it closes when
  its start fails, and what no event changes.
\<close>

section \<open>Warnings\<close>







section \<open>Sample daemon\<close>

text \<open>
  An operating system that records the listeners that are open; the port \<open>bad\<close> is taken.  No login
  succeeds on it.
\<close>

definition sample_os :: "'w os_env" where
  "sample_os =
     \<lparr>os_read_file = (\<lambda>p w. (Inr [], w)), os_lookup_env = (\<lambda>n. None),
      os_shell = (\<lambda>c w. (Inl (LibError c), w)), os_yaml = (\<lambda>s. Inr sample_config)\<rparr>"

definition down_client :: "'w client" where
  "down_client q w = (Inl (LibError ''down''), w)"

definition fixed_clock :: "'w ticker" where
  "fixed_clock w = (sample_now, w)"

definition sample_recipe_env :: "(string, string, unit, 'w) recipe_env" where
  "sample_recipe_env =
     \<lparr>re_client = (\<lambda>t. down_client),
      re_login_env = (\<lambda>t. \<lparr>le_jar = (), le_do = (\<lambda>j q w. (Inl (LibError ''down''), j, w)),
        le_cookies = (\<lambda>j u. []), le_regexp = (\<lambda>p. Inl (LibError p)), le_json = (\<lambda>b. Inr []),
        le_order = (\<lambda>vs w. (vs, w))\<rparr>),
      re_browser_env = \<lparr>be_getenv = (\<lambda>n. []), be_is_file = (\<lambda>f. False), be_look_path = (\<lambda>n. None),
        be_run = (\<lambda>opts t acts w. (Inl (LibError ''no browser''), w))\<rparr>,
      re_decode = sample_decoder, re_tick = fixed_clock\<rparr>"

definition sample_cmd_env :: "(string, string, unit, 'w) cmd_env" where
  "sample_cmd_env =
     \<lparr>ce_os = sample_os,
      ce_tls = \<lparr>te_system_pool = None, te_read_file = (\<lambda>f w. (Inr f, w)), te_certs_of_pem = (\<lambda>pem. [pem]),
        te_load_key_pair = (\<lambda>c k w. (Inr (c @ k), w))\<rparr>,
      ce_recipes = sample_recipe_env, ce_regexp = (\<lambda>p. Inl (LibError p)),
      ce_decoders = \<lparr>cd_har = (\<lambda>s. Inr []), cd_openapi = (\<lambda>s. Inr [])\<rparr>,
      ce_no_redirect = (\<lambda>t. down_client), ce_getenv = (\<lambda>n. ''/run''), ce_home = Inr ''/home'',
      ce_stat = (\<lambda>p w. Inl (LibError ''no such file'')), ce_dial = (\<lambda>p q s w. (Inl (LibError ''refused''), s, w))\<rparr>"

definition sample_daemon_env :: "int \<Rightarrow> (string, string, unit, listener list) daemon_env" where
  "sample_daemon_env bad =
     \<lparr>de_cmd = sample_cmd_env, de_mkdir = (\<lambda>d w. (None, w)), de_open_append = (\<lambda>f w. (None, w)),
      de_random = (\<lambda>w. (Inr ''secret'', w)), de_remove = (\<lambda>f w. w),
      de_listen = (\<lambda>l w. case l of
          GatewayListener i p \<Rightarrow> if p = bad then (Some (LibError ''in use''), w) else (None, l # w)
        | ControlListener s \<Rightarrow> (None, l # w)),
      de_chmod = (\<lambda>f w. (None, w)), de_close = (\<lambda>l w. remove1 l w)\<rparr>"

definition sample_flags :: daemon_flags where
  "sample_flags =
     \<lparr>df_config = ''claviger.yaml'', df_socket = [], df_gateway_token = ''auto'', df_log_level = ''info'',
      df_audit_log = ''audit.log'', df_base_port = 8888, df_refresh_interval = 30,
      df_tls = \<lparr>tf_insecure = False, tf_insecure_set = False, tf_ca_cert = [], tf_ca_cert_set = False,
        tf_client_cert = [], tf_client_cert_set = False, tf_client_key = [], tf_client_key_set = False\<rparr>\<rparr>"

definition sample_listeners :: "listener list" where
  "sample_listeners = [ControlListener ''/run/claviger.sock'', GatewayListener ''bob'' 8889, GatewayListener ''ada'' 8888]"

lemma sample_start: "\<exists>d. daemon_start (sample_daemon_env 0) sample_flags [] = (Inr d, sample_listeners)"
  by (rule ran_to; code_simp)

section \<open>Identities, ports and events\<close>

lemma started:
  assumes "daemon_start env f w = (Inr d, w1)"
  shows "\<exists>cfg w0. load_config (ce_os (de_cmd env)) (df_config f) w = (Inr cfg, w0) \<and>
    store_ok (g_store (d_gateway d)) \<and>
    map fst (st_entries (g_store (d_gateway d))) = map ic_name (cfg_identities cfg)"
proof -
  from assms obtain st recipes cfg v where st: "g_store (d_gateway d) = st"
    and b: "build_store (de_cmd env) (df_config f) (df_tls f) w = (Inr (st, recipes, cfg), v)"
    by (rule daemon_start_some)
  from b obtain cfg0 v0 where cfg0: "load_config (ce_os (de_cmd env)) (df_config f) w = (Inr cfg0, v0)"
    "cfg = apply_tls_flags (df_tls f) cfg0" by (rule build_store_some)
  from build_store_ok [OF b] st cfg0 show ?thesis by simp
qed

text \<open>C14: Whatever sequence of requests, control calls and refresh ticks a started daemon serves, it
  goes on serving the identities of its configuration file, on the same listeners, with the same
  target, recipes, policies and shared secret; and every session it keeps for an identity is one of
  that identity with a cookie or a token in it.\<close>

theorem daemon_keeps_identities:
  assumes "daemon_start env f w = (Inr d, w1)" and "daemon_run tick show_err evs d v = (d', v')"
  shows "\<exists>cfg w0. load_config (ce_os (de_cmd env)) (df_config f) w = (Inr cfg, w0) \<and>
    identities (g_store (d_gateway d')) = sort (map ic_name (cfg_identities cfg)) \<and>
    settings_of (d_gateway d') = settings_of (d_gateway d) \<and> d_listeners d' = d_listeners d \<and>
    (\<forall>i e n s. lookup i (g_store (d_gateway d')) = Inr e \<and> e_session e = Some (n, s) \<longrightarrow>
       s_identity s = i \<and> has_material s)"
proof -
  obtain cfg w0 where cfg: "load_config (ce_os (de_cmd env)) (df_config f) w = (Inr cfg, w0)"
    "store_ok (g_store (d_gateway d))"
    "map fst (st_entries (g_store (d_gateway d))) = map ic_name (cfg_identities cfg)"
    using started [OF assms(1)] by blast
  from daemon_run_same [OF assms(2) cfg(2)] have same: "daemon_same d d'" .
  then have "identities (g_store (d_gateway d')) = sort (map ic_name (cfg_identities cfg))"
    using cfg(3) by (simp add: daemon_same_def identities_def)
  moreover have "s_identity s = i \<and> has_material s"
    if "lookup i (g_store (d_gateway d')) = Inr e" "e_session e = Some (n, s)" for i e n s
  proof -
    from same that(1) have "entry_ok i e" by (auto simp: daemon_same_def dest: store_ok_lookup)
    with that(2) show ?thesis by (simp add: entry_ok_def sessions_ok_def session_ok_def)
  qed
  ultimately show ?thesis using cfg(1) same by (auto simp: daemon_same_def)
qed

theorem daemon_keeps_identities_witness:
  "\<exists>d d' v'. daemon_start (sample_daemon_env 0) sample_flags [] = (Inr d, sample_listeners) \<and>
     daemon_run fixed_clock (\<lambda>_. ''error'') [RefreshTick, ControlRequest ''/creds/ada''] d sample_listeners = (d', v') \<and>
     identities (g_store (d_gateway d')) = [''ada'', ''bob'']"
proof -
  obtain d where d: "daemon_start (sample_daemon_env 0) sample_flags [] = (Inr d, sample_listeners)"
    using sample_start by blast
  obtain d' v' where run: "daemon_run fixed_clock (\<lambda>_. ''error'') [RefreshTick, ControlRequest ''/creds/ada''] d
      sample_listeners = (d', v')" by fastforce
  from daemon_keeps_identities [OF d run] obtain cfg w0 where
    cfg: "load_config (ce_os (de_cmd (sample_daemon_env 0))) (df_config sample_flags) [] = (Inr cfg, w0)"
    and ids: "identities (g_store (d_gateway d')) = sort (map ic_name (cfg_identities cfg))" by blast
  have "(case fst (load_config (ce_os (de_cmd (sample_daemon_env 0))) (df_config sample_flags) []) of
      Inl _ \<Rightarrow> [] | Inr c \<Rightarrow> map ic_name (cfg_identities c)) = [''ada'', ''bob'']" by code_simp
  with cfg have "map ic_name (cfg_identities cfg) = [''ada'', ''bob'']" by simp
  moreover have "sort [''ada'', ''bob''] = [''ada'', ''bob'']" by code_simp
  ultimately show ?thesis using d run ids by auto
qed

text \<open>C30: The identities get one port each, counted from the base port in the order of their names:
  the port \<open>base + k\<close> serves exactly the \<open>k\<close>-th name, and no other port of the daemon serves any.\<close>

theorem daemon_ports:
  assumes "daemon_start env f w = (Inr d, w1)"
  shows "\<exists>cfg w0 names. load_config (ce_os (de_cmd env)) (df_config f) w = (Inr cfg, w0) \<and>
    names = sort (map ic_name (cfg_identities cfg)) \<and> distinct names \<and>
    (\<forall>k<length names. port_identity (d_listeners d) (df_base_port f + int k) = Some (names ! k)) \<and>
    (\<forall>port i. port_identity (d_listeners d) port = Some i \<longrightarrow>
       (\<exists>k<length names. port = df_base_port f + int k \<and> i = names ! k))"
proof -
  obtain cfg w0 where cfg: "load_config (ce_os (de_cmd env)) (df_config f) w = (Inr cfg, w0)"
    "store_ok (g_store (d_gateway d))"
    "map fst (st_entries (g_store (d_gateway d))) = map ic_name (cfg_identities cfg)"
    using started [OF assms] by blast
  define names where "names = identities (g_store (d_gateway d))"
  from assms obtain socket where ls: "d_listeners d =
      map (\<lambda>k. GatewayListener (names ! k) (df_base_port f + int k)) [0..<length names] @ [ControlListener socket]"
    by (rule daemon_start_some) (simp add: names_def)
  have "names = sort (map ic_name (cfg_identities cfg))" using cfg(3) by (simp add: names_def identities_def)
  moreover have "distinct names" using cfg(2) by (simp add: names_def identities_def store_ok_def)
  moreover have "port_identity (d_listeners d) (df_base_port f + int k) = Some (names ! k)"
    if "k < length names" for k
    unfolding ls by (rule port_identity_nth [OF that])
  moreover have "\<exists>k<length names. port = df_base_port f + int k \<and> i = names ! k"
    if "port_identity (d_listeners d) port = Some i" for port i
    using port_identity_mem [OF that] by (auto simp: ls)
  ultimately show ?thesis using cfg(1) by blast
qed

theorem daemon_ports_witness:
  "\<exists>d. daemon_start (sample_daemon_env 0) sample_flags [] = (Inr d, sample_listeners) \<and>
     port_identity (d_listeners d) 8889 = Some ''bob''"
proof -
  obtain d where d: "daemon_start (sample_daemon_env 0) sample_flags [] = (Inr d, sample_listeners)"
    using sample_start by blast
  from daemon_ports [OF d] obtain cfg w0 names where
    cfg: "load_config (ce_os (de_cmd (sample_daemon_env 0))) (df_config sample_flags) [] = (Inr cfg, w0)"
    and ids: "names = sort (map ic_name (cfg_identities cfg))"
    and ports: "\<forall>k<length names. port_identity (d_listeners d) (df_base_port sample_flags + int k) = Some (names ! k)"
    by blast
  have "(case fst (load_config (ce_os (de_cmd (sample_daemon_env 0))) (df_config sample_flags) []) of
      Inl _ \<Rightarrow> [] | Inr c \<Rightarrow> sort (map ic_name (cfg_identities c))) = [''ada'', ''bob'']" by code_simp
  with cfg ids have "names = [''ada'', ''bob'']" by simp
  with spec [OF ports, of 1] d show ?thesis by (simp add: sample_flags_def)
qed

section \<open>A start that fails\<close>

text \<open>C31: The daemon binds every listener or none.  When a port, the control socket or the
  permissions of the socket fail, every listener that was already open has been closed again; when all
  is well, exactly those of the daemon are open.  The listeners that a process holds are counted by
  \<open>held\<close>, which only listening and closing change.\<close>

theorem failed_start_closes:
  fixes held :: "'w \<Rightarrow> listener multiset"
  assumes "\<And>l v r v'. de_listen env l v = (r, v') \<Longrightarrow>
      held v' = (case r of None \<Rightarrow> add_mset l (held v) | Some _ \<Rightarrow> held v)"
    and "\<And>l v. held (de_close env l v) = held v - {#l#}"
    and "\<And>p v. held (de_remove env p v) = held v"
    and "\<And>p v r v'. de_chmod env p v = (r, v') \<Longrightarrow> held v' = held v"
    and "io_bind (bind_gateways env names port []) (bind_control env socket) w = (x, w')"
  shows "held w' = (case x of Inl _ \<Rightarrow> held w | Inr ls \<Rightarrow> held w + mset ls)"
proof -
  obtain y w1 where g: "bind_gateways env names port [] w = (y, w1)" by fastforce
  have h: "held w1 = (case y of Inl _ \<Rightarrow> held w | Inr ls \<Rightarrow> held w + mset ls)"
    by (rule bind_gateways_held [OF assms(1,2) g]) simp_all
  show ?thesis
  proof (cases y)
    case (Inl err)
    with g h assms(5) show ?thesis by (auto simp: io_bind_def)
  next
    case (Inr ports)
    with g assms(5) have c: "bind_control env socket ports w1 = (x, w')" by (simp add: io_bind_def)
    show ?thesis by (rule bind_control_held [OF assms(1-4) c]) (simp_all add: h Inr)
  qed
qed

theorem failed_start_closes_witness:
  "\<exists>x w'. io_bind (bind_gateways (sample_daemon_env 8889) [''ada'', ''bob''] 8888 [])
      (bind_control (sample_daemon_env 8889) ''s'') [] = (x, w') \<and> isl x \<and> w' = []"
proof -
  let ?env = "sample_daemon_env 8889"
  let ?run = "io_bind (bind_gateways ?env [''ada'', ''bob''] 8888 []) (bind_control ?env ''s'') []"
  obtain x w' where run: "?run = (x, w')" by fastforce
  have "isl (fst ?run)" by code_simp
  with run obtain err where x: "x = Inl err" by (auto simp: isl_def)
  have listen: "mset v' = (case r of None \<Rightarrow> add_mset l (mset v) | Some _ \<Rightarrow> mset v)"
    if "de_listen ?env l v = (r, v')" for l v r v'
    using that by (auto simp: sample_daemon_env_def split: listener.splits if_splits)
  have "mset w' = (case x of Inl _ \<Rightarrow> mset [] | Inr ls \<Rightarrow> mset [] + mset ls)"
    by (rule failed_start_closes [where held = mset and env = ?env, OF listen _ _ _ run])
      (simp_all add: sample_daemon_env_def)
  with x run show ?thesis by simp
qed

section \<open>The proactive refresh and the token cache\<close>

text \<open>C39: The proactive refresh renews a session behind the back of the anti-CSRF cache: whatever
  sessions a cycle has replaced, a token that was cached for an identity before it is handed out again
  after it, without a fetch, for the rest of its 30 seconds.  (A renewal after a logout signal drops the
  token, because it was bound to the session that died.)\<close>

theorem proactive_refresh_keeps_token:
  assumes "proactive_cycle tick interval g w = (g', w')" and "map_of (g_csrf_cache g) i = Some ct"
    and "tick v = (now, v')" and "time_sub now (ct_at ct) < csrf_ttl"
  shows "csrf_token_for tick i pol g' v = (Inr (ct_value ct), g', v')"
  using assms proactive_cache [OF assms(1)]
  by (simp add: csrf_token_for_def cache_fresh_def)

text \<open>A session that is about to expire, and the token that was fetched with it.\<close>

definition renewing_gateway :: "nat gateway" where
  "renewing_gateway =
     (sample_gateway 0)\<lparr>
       g_store := sample_store (sample_entry ''ada'' True
         ((sample_session ''ada'' (sample_now + 10 * second))\<lparr>s_bearer := ''dying''\<rparr>)),
       g_csrf_cache := [(''ada'', \<lparr>ct_value = ''old'', ct_at = sample_now\<rparr>)]\<rparr>"

definition renewed :: "nat gateway \<times> nat" where
  "renewed = proactive_cycle sample_clock 30000000000 renewing_gateway 0"

theorem proactive_refresh_keeps_token_witness:
  "csrf_token_for sample_clock ''ada'' sample_policy (fst renewed) (snd renewed)
     = (Inr ''old'', fst renewed, Suc (snd renewed)) \<and>
   (case serve sample_clock ''ada'' (sample_inbound ''localhost'' ''POST'' []) (fst renewed) (snd renewed) of
      (rp, g, w) \<Rightarrow> (case g_trace g of
         [Forwarded q] \<Rightarrow> hvalues (rq_header q) ''Authorization'' = [''Bearer token''] \<and>
           hvalues (rq_header q) ''X-Xsrf'' = [''old'']
       | _ \<Rightarrow> False))"
proof
  have c: "map_of (g_csrf_cache renewing_gateway) ''ada'' = Some \<lparr>ct_value = ''old'', ct_at = sample_now\<rparr>"
    by (simp add: renewing_gateway_def)
  have r: "proactive_cycle sample_clock 30000000000 renewing_gateway 0 = (fst renewed, snd renewed)"
    by (simp add: renewed_def)
  have "time_sub (sample_now + int (snd renewed)) sample_now < csrf_ttl" by code_simp
  then show "csrf_token_for sample_clock ''ada'' sample_policy (fst renewed) (snd renewed)
     = (Inr ''old'', fst renewed, Suc (snd renewed))"
    using proactive_refresh_keeps_token [OF r c sample_clock_def] by simp
  show "case serve sample_clock ''ada'' (sample_inbound ''localhost'' ''POST'' []) (fst renewed) (snd renewed) of
      (rp, g, w) \<Rightarrow> (case g_trace g of
         [Forwarded q] \<Rightarrow> hvalues (rq_header q) ''Authorization'' = [''Bearer token''] \<and>
           hvalues (rq_header q) ''X-Xsrf'' = [''old'']
       | _ \<Rightarrow> False)"
    by code_simp
qed

end
