(* ===== verification/Cmdline_Properties.thy ===== *)
theory Cmdline_Properties
  imports Cmdline Daemon_Properties
begin

text \<open>
  What the command line makes of flags that are not given, and what the exit status of \<open>replay\<close> says.
\<close>

section \<open>Flags that are not given\<close>

text \<open>The four TLS settings of the configuration stand unless their flags are given.\<close>

lemma unset_flags_keep_config:
  assumes "\<And>name. name \<in> set (map fst tls_flag_spec) \<Longrightarrow> \<not> flag_changed iv name"
  shows "apply_tls_flags (mark_changed iv) cfg = cfg"
  using assms by (simp add: apply_tls_flags_def mark_changed_def tls_flag_spec_def)

text \<open>The defaults of \<open>daemon\<close> pass the checks of its flags, and its window is a minute.\<close>

lemma default_daemon_flags:
  assumes "iv_command iv = CmdDaemon" and "iv_given iv = []"
  shows "df_base_port (daemon_flags_of iv) = 8888" "parse_log_level (df_log_level (daemon_flags_of iv)) = Inr LevelInfo"
    "sint (2 * df_refresh_interval (daemon_flags_of iv)) = 60 * second" "df_config (daemon_flags_of iv) = ''claviger.yaml''"
    "df_gateway_token (daemon_flags_of iv) = []"
  using assms
  by (simp_all add: daemon_flags_of_def int_flag_def string_flag_def duration_flag_def flag_def spec_of_def
      daemon_flag_spec_def parse_log_level_def)

section \<open>The exit status of replay\<close>

lemma replay_rows_shape:
  "replay_rows env is qs base st w = ((rows, ts), st', w') \<Longrightarrow>
   length rows = length qs \<and> list_all (\<lambda>row. map res_identity (row_results row) = is) rows"
proof (induction qs arbitrary: rows ts st w st' w')
  case (Cons q qs)
  obtain rs t st1 w1 where one:
    "replay_run env is (q_method q) (base @ q_path q) (q_header q) (q_body q) st w = ((rs, t), st1, w1)"
    by (metis prod.collapse)
  obtain rows1 ts1 st2 w2 where rest: "replay_rows env is qs base st1 w1 = ((rows1, ts1), st2, w2)"
    by (metis prod.collapse)
  with Cons.prems one have "rows = \<lparr>row_request = q, row_results = rs\<rparr> # rows1" by auto
  with Cons.IH [OF rest] replay_run_identities [OF one] show ?case by simp
qed simp

lemma all_failed: "length (filter P xs) = length xs \<longleftrightarrow> (\<forall>x \<in> set xs. P x)"
  by (metis filter_id_conv length_filter_less linorder_neq_iff)

definition answered :: "'e replay_result list \<Rightarrow> bool" where
  "answered rs \<longleftrightarrow> list_ex (\<lambda>r. \<not> is_failure r) rs"

lemma answered_Nil [simp]: "\<not> answered []"
  by (simp add: answered_def)

lemma replay_fails_answered: "rs \<noteq> [] \<Longrightarrow> replay_fails rs \<longleftrightarrow> \<not> answered rs"
  by (simp add: replay_fails_def all_failed answered_def list_ex_iff)

lemma corpus_fails_answered:
  "rows \<noteq> [] \<Longrightarrow> corpus_fails rows \<longleftrightarrow> \<not> list_ex (\<lambda>row. answered (row_results row)) rows"
  by (simp add: corpus_fails_def all_failed row_failed_def answered_def list_ex_iff)

text \<open>An outcome without an error has an answer, and one with an error has none.\<close>

definition fair_outcome :: "replay_outcome \<Rightarrow> bool" where
  "fair_outcome out \<longleftrightarrow>
     (ro_error out = None \<longleftrightarrow> answered (ro_results out) \<or> list_ex (\<lambda>row. answered (row_results row)) (ro_rows out))"

lemma error_outcome_fair [simp]: "fair_outcome (replay_error_outcome err)"
  by (simp add: fair_outcome_def replay_error_outcome_def)

lemma run_corpus_fair:
  assumes "run_corpus_cmd env tick cfg_path flags cfg f w = (out, w')" and "rf_ids f \<noteq> []"
  shows "fair_outcome out"
proof -
  obtain x w1 where l: "load_corpus (ce_decoders env) (os_read_file (ce_os env)) (rf_corpus f) (rf_format f)
      (rf_include_unsafe f) w = (x, w1)" by fastforce
  show ?thesis
  proof (cases x)
    case (Inl err)
    with assms(1) l show ?thesis by (auto simp: run_corpus_cmd_def)
  next
    case (Inr reqs)
    obtain y w2 where s: "replay_setup env (rf_socket f) cfg_path flags cfg w1 = (y, w2)" by fastforce
    show ?thesis
    proof (cases "reqs = [] \<or> isl y")
      case True
      with assms(1) l Inr s show ?thesis by (cases y) (auto simp: run_corpus_cmd_def split: if_splits)
    next
      case False
      then obtain src t where y: "y = Inr (src, t)" by (cases y) auto
      obtain rows ts st' w3 where run:
        "run_corpus (replay_env_of env tick t) (rf_ids f) reqs (cfg_target cfg) src w2 = ((rows, ts), st', w3)"
        by (metis prod.collapse)
      from replay_rows_shape [OF run [unfolded run_corpus_def]] False have "rows \<noteq> []" by auto
      moreover from assms(1) l Inr s y run False have "out = \<lparr>ro_results = [], ro_rows = rows,
          ro_error = (if corpus_fails rows then Some (AllRequestsFailed (length rows)) else None)\<rparr>"
        by (simp add: run_corpus_cmd_def)
      ultimately show ?thesis using corpus_fails_answered [of rows] by (simp add: fair_outcome_def)
    qed
  qed
qed

lemma replay_cmd_fair:
  assumes "replay_cmd env tick cfg_path flags f w = ((out, ws), w')"
  shows "fair_outcome out"
proof -
  obtain x w1 where l: "load_config (ce_os env) cfg_path w = (x, w1)" by fastforce
  show ?thesis
  proof (cases x)
    case (Inl err)
    with assms l show ?thesis by (auto simp: replay_cmd_def)
  next
    case (Inr cfg0)
    let ?cfg = "apply_tls_flags flags cfg0"
    obtain co w2 where c: "run_corpus_cmd env tick cfg_path flags ?cfg f w1 = (co, w2)" by fastforce
    obtain y w3 where s: "replay_setup env (rf_socket f) cfg_path flags ?cfg w1 = (y, w3)" by fastforce
    note run = assms [unfolded replay_cmd_def l Inr prod.case sum.case Let_def]
    consider (none) "rf_ids f = []" | (corpus) "rf_ids f \<noteq> []" "rf_corpus f \<noteq> []"
      | (path) "rf_ids f \<noteq> []" "rf_corpus f = []" "\<not> has_prefix (rf_path f) ''/'' \<or> isl y"
      | (one) src t where "rf_ids f \<noteq> []" "rf_corpus f = []" "has_prefix (rf_path f) ''/''" "y = Inr (src, t)"
      by (cases y) auto
    then show ?thesis
    proof cases
      case none
      with run show ?thesis by auto
    next
      case corpus
      with run c run_corpus_fair [OF c] show ?thesis by (auto split: if_splits)
    next
      case path
      with run s show ?thesis by (cases y) (auto split: if_splits)
    next
      case one
      let ?url = "trim_right (cfg_target ?cfg) ''/'' @ rf_path f"
      obtain rs ts st' w4 where r: "replay_run (replay_env_of env tick t) (rf_ids f) (to_upper (trim_space (rf_method f)))
          ?url [] [] src w3 = ((rs, ts), st', w4)" by (metis prod.collapse)
      from replay_run_identities [OF r] one(1) have "rs \<noteq> []" by auto
      moreover from run one s r have "out = \<lparr>ro_results = rs, ro_rows = [],
          ro_error = (if replay_fails rs then Some (AllIdentitiesFailed (length rs)) else None)\<rparr>"
        by simp
      ultimately show ?thesis using replay_fails_answered [of rs] by (simp add: fair_outcome_def)
    qed
  qed
qed

text \<open>C33: The exit status of \<open>claviger replay\<close> can be relied on in a script: it is 0 exactly when at least
  one identity got an answer from the target, whatever the others got, and 1 in every other case, the
  faults of the flags, of the configuration, of the corpus and of every login included.\<close>

theorem replay_exit_status:
  assumes "parse root_commands line = Inr (Invoke iv)" and "iv_command iv = CmdReplay"
    and "claviger_main parse env tick show_err version co line w = ((out, err, status), w')"
  shows "\<exists>rs rows. out = ReplayTable rs rows \<and>
    status = (if answered rs \<or> list_ex (\<lambda>row. answered (row_results row)) rows then 0 else 1)"
proof -
  obtain o1 ws w1 where r: "replay_cmd (de_cmd env) tick (string_flag iv ''config'') (mark_changed iv) (replay_flags_of iv) w
      = ((o1, ws), w1)" by (metis prod.collapse)
  from replay_cmd_fair [OF r] have "ro_error o1 = None \<longleftrightarrow>
      answered (ro_results o1) \<or> list_ex (\<lambda>row. answered (row_results row)) (ro_rows o1)"
    by (simp add: fair_outcome_def)
  moreover have "cm_exact_args (spec_of CmdReplay) = None" by (simp add: spec_of_def)
  ultimately show ?thesis
    using assms r
    by (auto simp: claviger_main_def execute_def run_command_def exit_status_def split: option.splits)
qed

definition up_client :: "'w client" where
  "up_client q w = (Inr \<lparr>rs_status = 200, rs_header = [], rs_cookies = [], rs_body = ''ok'', rs_read_error = None\<rparr>, w)"

definition replay_line :: invocation where
  "replay_line =
     \<lparr>iv_command = CmdReplay, iv_args = [],
      iv_given = [(''as'', StringsFlag [''ada'', ''anon'']), (''path'', StringFlag ''/x'')]\<rparr>"

definition up_env :: "(string, string, unit, listener list) daemon_env" where
  "up_env = (sample_daemon_env 0)\<lparr>de_cmd := sample_cmd_env\<lparr>ce_no_redirect := (\<lambda>t. up_client)\<rparr>\<rparr>"

theorem replay_exit_status_witness:
  "\<exists>rs rows err w'. claviger_main (\<lambda>_ _. Inr (Invoke replay_line)) up_env fixed_clock (\<lambda>_. ''error'') ''dev''
      \<lparr>co_events = [], co_serve_error = None, co_ticks = 0\<rparr> [''replay''] [] = ((ReplayTable rs rows, err, 0), w') \<and>
    (answered rs \<or> list_ex (\<lambda>row. answered (row_results row)) rows)"
proof -
  let ?run = "claviger_main (\<lambda>_ _. Inr (Invoke replay_line)) up_env fixed_clock (\<lambda>_. ''error'') ''dev''
      \<lparr>co_events = [], co_serve_error = None, co_ticks = 0\<rparr> [''replay''] []"
  obtain out err status w' where run: "?run = ((out, err, status), w')" by (metis prod.collapse)
  have "snd (snd (fst ?run)) = 0" by code_simp
  with run have s: "status = 0" by simp
  have "iv_command replay_line = CmdReplay" by (simp add: replay_line_def)
  from replay_exit_status [OF refl this run] run s show ?thesis by (auto split: if_splits)
qed

end
