(* ===== verification/Spec2Isabelle.thy ===== *)
theory Spec2Isabelle
  imports Store_Properties Gateway_Properties Recipe_Properties Config_Properties Attach_Properties
    Token_Properties Healing Target_Properties Target_Login Target_Process
    Cmdline_Properties
begin

text \<open>
  claviger is a daemon that keeps logged-in sessions for several identities of one web target warm
  and injects them into requests.  This library models its Go code, component by component, and
  proves what makes each component correct.

  \<^bold>\<open>The program.\<close>  A configuration file (\<open>internal/config\<close>) names a target and identities; of each
  identity a recipe is built (\<open>internal/recipe\<close>) that can log in and renew a session
  (\<open>internal/session\<close>).  The store (\<open>internal/store\<close>) keeps one entry per identity behind a lock:
  \<open>Get\<close> serves or establishes, \<open>Refresh\<close> renews under a single-flight rule and a rate limit,
  \<open>RefreshExpiring\<close> renews ahead of expiry.  The gateway (\<open>internal/gateway\<close>) listens on one loopback
  port per identity, guards, injects the session and an anti-CSRF token, forwards, and renews once
  when the answer is a logout signal.  The control server (\<open>internal/control\<close>) hands sessions and
  health to the commands over a Unix socket; \<open>replay\<close> sends one request or a corpus
  (\<open>internal/corpus\<close>) under each identity.  \<open>cmd/\<close> and \<open>main.go\<close> tie them together.  Two servers
  stand for the web target in the repository's own tests: \<open>testutil/mockauth\<close> and \<open>e2e/target\<close>.

  \<^bold>\<open>Theories, in the order of their imports.\<close>
  \<^item> \<open>Prelude\<close>: the outside world as a state \<open>'w\<close> that is passed on (\<open>io\<close>), Go maps as association
    lists in the order Go visits them, errors as values, and the collections of rules.
  \<^item> \<open>Go_Strings\<close>, \<open>Go_Url\<close>, \<open>Go_Url_Facts\<close>, \<open>Go_Values\<close>, \<open>Go_Net\<close>, \<open>Go_Http\<close>, \<open>Go_Json\<close>, \<open>Go_Time\<close>:
    what the code uses of Go's \<open>strings\<close>, \<open>net/url\<close>, \<open>net\<close>, \<open>net/http\<close> (headers, cookies,
    requests), \<open>encoding/json\<close> (values, not text) and \<open>time\<close>.
  \<^item> \<open>Session\<close>, \<open>Recipe\<close>, \<open>Http_Recipes\<close>, \<open>Multi_Recipe\<close>, \<open>Browser\<close>, \<open>Recipe_Properties\<close>: sessions and
    the four kinds of login.  The locale \<open>login_recipe\<close> states what the store relies on; the form,
    OAuth2, multistep and browser recipes are its interpretations.
  \<^item> \<open>Store\<close>: \<open>store.go\<close> as sequential operations.  \<open>Flight\<close>: the same operations split at their lock
    and clock points, as the steps of any number of goroutines.  \<open>Flight_Invariants\<close>,
    \<open>Flight_Refinement\<close>, \<open>Store_Properties\<close>: mutual exclusion, single flight, the rate bound, no
    second login, and the sequential operations as runs of the concurrent ones.
  \<^item> \<open>Gateway\<close>, \<open>Gateway_Facts\<close>, \<open>Gateway_Properties\<close>: \<open>gateway.go\<close> and \<open>retry.go\<close>.  The gateway's
    record has a trace of the exchanges with the target that no operation reads; the properties speak
    of it.  \<open>Token_Flight\<close>, \<open>Token_Properties\<close>: the anti-CSRF cache when any number of requests use it
    at once.
  \<^item> \<open>Go_Server\<close>: the server side of \<open>net/http\<close>: forms, cookies, replies and the routing of \<open>ServeMux\<close>.
  \<^item> \<open>Mock_Auth\<close>, \<open>Mock_Properties\<close>, \<open>Healing\<close>: the authentication server of the test suite as the other
    end of the HTTP clients, the form login against it, and the renewal of a dead session through the
    gateway, the store and the recipe together.
  \<^item> \<open>Httpx\<close>, \<open>Config\<close>, \<open>Config_Properties\<close>: TLS settings, the configuration, the secrets and what is
    built of them.
  \<^item> \<open>Session_Source\<close>, \<open>Control\<close>: the interface of a source of sessions (\<open>replay.SessionSource\<close>) as the
    locale \<open>session_source\<close>, interpreted by the store and by the client of the control server when the
    server at the other end is the modelled one.
  \<^item> \<open>Corpus\<close>, \<open>Replay\<close>, \<open>Cli\<close>, \<open>Status\<close>, \<open>Attach_Properties\<close>: the corpus formats, the replay (its
    lemmas are proved in \<open>session_source\<close>), the commands as functions that return what they print.
  \<^item> \<open>Daemon\<close>, \<open>Daemon_Facts\<close>, \<open>Daemon_Properties\<close>: the start of the daemon and a daemon that serves a
    list of events (gateway requests, control requests, ticks of the proactive refresh).
  \<^item> \<open>Target\<close>: the application of the acceptance tests (\<open>e2e/target/main.go\<close>), with its logins and its two
    sets of records.  \<open>Target_Facts\<close>, \<open>Target_Properties\<close>: what a replay of a corpus against it shows; the
    locale \<open>acting_source\<close> states when a source gives sessions the target takes for a user, with the store
    and the attached client as interpretations.  \<open>Cookie_Facts\<close>, \<open>Target_Login\<close>: cookies that are set, kept
    in a jar and sent back, and the multistep login against the target's anti-CSRF form.  \<open>Target_Process\<close>:
    the certificate and the start of that application.
  \<^item> \<open>Cmdline\<close>, \<open>Cmdline_Properties\<close>: the flags of every command with their defaults, the root command,
    \<open>version\<close>, \<open>Execute\<close> and \<open>main\<close>; what flags that are not given leave alone, and exit statuses.
  \<^item> \<open>Samples\<close>: concrete clocks, recipes and stores for the witnesses.

  \<^bold>\<open>Conventions.\<close>  A function that fails returns \<open>Inl\<close> of an error.  A pointer to a session is a pair
  of an address and the session (\<open>sref\<close>), so that the identity test of \<open>Refresh\<close> is one of addresses.
  Instants and durations are integers of nanoseconds; where Go computes at 64 bits and the result can
  leave them, the arithmetic is on words (\<open>expires_at\<close>, the window of \<open>proactive_cycle\<close>) or saturates
  as the library does (\<open>time_sub\<close>, \<open>round_second\<close>).  Errors that the code only passes on are
  \<open>gerror\<close> values.  The record of the gateway keeps log lines and audit records as lists.

  \<^bold>\<open>Bounds.\<close>  Loops over data are structural recursions.  The HTTP client of the control commands
  follows at most ten redirects, which is \<open>net/http\<close>'s own limit, and the modelled server needs none
  for a name without special elements.  The browser's wait for its success URL is a partial function,
  and a theorem gives its termination against a deadline.  The goroutines of \<open>Flight\<close> run for any
  number of steps; a begun call can always be run to its end.

  \<^bold>\<open>Parameters.\<close>  Code outside the repository is an argument: the HTTP client and its cookie jar, the
  transports, regular expressions, the YAML, HAR and JSON decoders, certificate parsing, chromedp,
  cobra's parsing of the command line, the file system, the environment, the shell, the listeners and
  the random source.

  \<^bold>\<open>Not modelled.\<close>  The text that \<open>fmt\<close> and \<open>slog\<close> produce of the data and the text of JSON: what a
  command prints is a value.  The short help texts of commands and flags.  The scripts under \<open>e2e/\<close> and the tests.  The daemon's
  events are served one after the other; the interleavings inside the store and inside the token cache
  are modelled in \<open>Flight\<close> and \<open>Token_Flight\<close>.
\<close>

end
